(* ===== verification/Prelude.thy ===== *)
theory Prelude
  imports Main "HOL-Library.Sublist" "HOL-Library.Word"
begin

section \<open>Prelude: Go errors, results and the shared lemma collections\<close>

text \<open>
  What every other theory of the development uses: the error values of the Go code, the result
  type of its fallible functions, the machine integers, and the generic lemmas on lists, options
  and maps that the component proofs share.

  A Go error is kept as the value it is built from rather than as its rendered text:
  \<^item> \<open>Msg s\<close> is \<open>fmt.Errorf("s")\<close> with a text known to the model;
  \<^item> \<open>MsgQ a q b\<close> is \<open>fmt.Errorf("a%qb", q)\<close>;
  \<^item> \<open>Wrap s e\<close> is \<open>fmt.Errorf("s: %w", e)\<close>;
  \<^item> \<open>OsErr s\<close> is an error the operating system, the network or a library reports.
  The rendering is a function of this value, so two equal values carry equal messages.
\<close>

datatype go_error =
    Msg string
  | MsgQ string string string
  | Wrap string go_error
  | OsErr string

type_synonym 'a res = "go_error + 'a"

type_synonym i64 = "64 word"
type_synonym u64 = "64 word"

named_theorems go_defs \<open>definitions that the component proofs unfold\<close>
named_theorems str_simps \<open>rewrite rules of the Go string functions\<close>
named_theorems frame_simps \<open>what an operation leaves unchanged\<close>

text \<open>Go's integer division truncates toward zero, and its remainder has the sign of the dividend.\<close>

definition go_div :: "int \<Rightarrow> int \<Rightarrow> int" where
  "go_div a b = sgn a * sgn b * (\<bar>a\<bar> div \<bar>b\<bar>)"

definition go_mod :: "int \<Rightarrow> int \<Rightarrow> int" where
  "go_mod a b = a - b * go_div a b"

lemma go_div_nonneg: "0 \<le> a \<Longrightarrow> 0 < b \<Longrightarrow> go_div a b = a div b \<and> go_mod a b = a mod b"
  by (cases "a = 0") (auto simp: go_div_def go_mod_def minus_mult_div_eq_mod)

subsection \<open>Results\<close>

definition is_ok :: "'a res \<Rightarrow> bool" where
  "is_ok r = (case r of Inl _ \<Rightarrow> False | Inr _ \<Rightarrow> True)"

lemma is_ok_simps [simp]: "\<not> is_ok (Inl e)" "is_ok (Inr v)"
  by (simp_all add: is_ok_def)

lemma is_ok_iff: "is_ok r \<longleftrightarrow> (\<exists>v. r = Inr v)"
  by (cases r) auto

lemma not_is_ok_iff: "\<not> is_ok r \<longleftrightarrow> (\<exists>e. r = Inl e)"
  by (cases r) auto

subsection \<open>Lists\<close>

lemma filter_eq_self_iff: "filter P xs = xs \<longleftrightarrow> (\<forall>x \<in> set xs. P x)"
  by (auto simp: filter_id_conv)

lemma takeWhile_all: "\<forall>x \<in> set xs. P x \<Longrightarrow> takeWhile P xs = xs"
  by (induction xs) auto

lemma dropWhile_none: "xs = [] \<or> \<not> P (hd xs) \<Longrightarrow> dropWhile P xs = xs"
  by (cases xs) auto

lemma map_filter_cong_None:
  "\<forall>x \<in> set xs. f x = None \<Longrightarrow> List.map_filter f xs = []"
  by (induction xs) auto

lemma map_filter_append [simp]:
  "List.map_filter f (xs @ ys) = List.map_filter f xs @ List.map_filter f ys"
  by (induction xs) (auto split: option.splits)

lemma set_map_filter: "set (List.map_filter f xs) = {y. \<exists>x \<in> set xs. f x = Some y}"
  by (induction xs) (auto split: option.splits)

end
