(* ===== verification/GoStrings.thy ===== *)
theory GoStrings
  imports Prelude
begin

section \<open>The Go string functions the agent uses\<close>

text \<open>
  A Go string is a sequence of bytes; a HOL \<open>string\<close> is a list of 8-bit \<open>char\<close>, so the two
  coincide and every length here counts bytes. The functions below are those of the packages
  \<^verbatim>\<open>strings\<close>, \<^verbatim>\<open>bytes\<close>, \<^verbatim>\<open>bufio\<close> and \<^verbatim>\<open>strconv\<close> that the agent calls, with the results they have
  on every byte string (white space includes the multi-byte Unicode spaces in UTF-8).
\<close>

abbreviation newline :: char where "newline \<equiv> CHR 0x0A"
abbreviation quote :: char where "quote \<equiv> CHR 0x22"
abbreviation code :: "char \<Rightarrow> nat" where "code c \<equiv> of_char c"

subsection \<open>Searching: HasPrefix, HasSuffix, Contains, Index, LastIndex\<close>

definition has_prefix :: "string \<Rightarrow> string \<Rightarrow> bool" where
  "has_prefix s p = prefix p s"

definition has_suffix :: "string \<Rightarrow> string \<Rightarrow> bool" where
  "has_suffix s p = suffix p s"

fun contains :: "string \<Rightarrow> string \<Rightarrow> bool" where
  "contains [] p = (p = [])"
| "contains (c # s) p = (prefix p (c # s) \<or> contains s p)"

lemma contains_iff: "contains s p \<longleftrightarrow> sublist p s"
  by (induction s) (auto simp: sublist_Cons_right)

fun index_char :: "char \<Rightarrow> string \<Rightarrow> nat option" where
  "index_char c [] = None"
| "index_char c (x # s) = (if x = c then Some 0 else map_option Suc (index_char c s))"

fun last_index_char :: "char \<Rightarrow> string \<Rightarrow> nat option" where
  "last_index_char c [] = None"
| "last_index_char c (x # s) =
     (case last_index_char c s of
        Some i \<Rightarrow> Some (Suc i)
      | None \<Rightarrow> if x = c then Some 0 else None)"

fun index_of :: "string \<Rightarrow> string \<Rightarrow> nat option" where
  "index_of [] p = (if p = [] then Some 0 else None)"
| "index_of (c # s) p = (if prefix p (c # s) then Some 0 else map_option Suc (index_of s p))"

lemma index_char_None [simp]: "index_char c s = None \<longleftrightarrow> c \<notin> set s"
  by (induction s) auto

lemma index_char_take: "index_char c s = Some i \<Longrightarrow> take i s = takeWhile (\<lambda>x. x \<noteq> c) s"
  by (induction s arbitrary: i) (auto split: if_splits)

lemma index_char_drop:
  "index_char c s = Some i \<Longrightarrow> drop (Suc i) s = tl (dropWhile (\<lambda>x. x \<noteq> c) s)"
  by (induction s arbitrary: i) (auto split: if_splits)

lemma index_char_less: "index_char c s = Some i \<Longrightarrow> i < length s"
  by (induction s arbitrary: i) (auto split: if_splits)

lemma index_char_append:
  "c \<notin> set u \<Longrightarrow> index_char c (u @ c # v) = Some (length u)"
  by (induction u) auto

lemma last_index_char_None [simp]: "last_index_char c s = None \<longleftrightarrow> c \<notin> set s"
  by (induction s) (auto split: option.splits)

lemma last_index_char_notin: "c \<notin> set v \<Longrightarrow> last_index_char c v = None"
  by simp

lemma last_index_char_append:
  "c \<notin> set v \<Longrightarrow> last_index_char c (u @ c # v) = Some (length u)"
  by (induction u) (simp_all add: last_index_char_notin del: last_index_char_None)

lemma sublist_imp_set: "sublist p s \<Longrightarrow> set p \<subseteq> set s"
  by (auto simp: sublist_def)

lemma not_contains_if_missing: "c \<in> set p \<Longrightarrow> c \<notin> set s \<Longrightarrow> \<not> contains s p"
  using sublist_imp_set by (fastforce simp: contains_iff)

lemma contains_mid: "contains (u @ p @ v) p"
  by (simp add: contains_iff sublist_appendI)

lemma contains_append_left: "contains s p \<Longrightarrow> contains (s @ t) p"
  by (auto simp: contains_iff sublist_append)

lemma contains_append_right: "contains t p \<Longrightarrow> contains (s @ t) p"
  by (auto simp: contains_iff sublist_append)

lemma contains_sublist: "sublist l s \<Longrightarrow> contains l p \<Longrightarrow> contains s p"
  unfolding contains_iff by (rule sublist_order.order.trans)

subsection \<open>Split, SplitN, Join\<close>

fun split_on :: "char \<Rightarrow> string \<Rightarrow> string list" where
  "split_on c [] = [[]]"
| "split_on c (x # xs) =
     (if x = c then [] # split_on c xs
      else (case split_on c xs of [] \<Rightarrow> [[x]] | l # ls \<Rightarrow> (x # l) # ls))"

fun join :: "'a list \<Rightarrow> 'a list list \<Rightarrow> 'a list" where
  "join sep [] = []"
| "join sep [x] = x"
| "join sep (x # y # ys) = x @ sep @ join sep (y # ys)"

fun split_n :: "nat \<Rightarrow> char \<Rightarrow> string \<Rightarrow> string list" where
  "split_n 0 c s = []"
| "split_n (Suc 0) c s = [s]"
| "split_n (Suc (Suc n)) c s =
     (case index_char c s of
        None \<Rightarrow> [s]
      | Some i \<Rightarrow> take i s # split_n (Suc n) c (drop (Suc i) s))"

lemma join_concat: "join sep (x # xs) = x @ concat (map (\<lambda>y. sep @ y) xs)"
  by (induction xs arbitrary: x) auto

lemma split_on_nonempty [simp]: "split_on c s \<noteq> []"
  by (induction s) (auto split: list.splits)

lemma split_on_no_sep: "c \<notin> set s \<Longrightarrow> split_on c s = [s]"
  by (induction s) auto

lemma split_on_append_sep [str_simps]:
  "split_on c (u @ c # v) = split_on c u @ split_on c v"
proof (induction u)
  case Nil
  show ?case by simp
next
  case (Cons x u)
  show ?case
    by (cases "split_on c u") (use Cons in auto)
qed

lemma split_on_line: "c \<notin> set u \<Longrightarrow> split_on c (u @ c # v) = u # split_on c v"
  by (simp add: split_on_append_sep split_on_no_sep)

lemma split_on_parts: "l \<in> set (split_on c s) \<Longrightarrow> c \<notin> set l"
proof (induction s arbitrary: l)
  case Nil
  then show ?case by simp
next
  case (Cons x s)
  then show ?case
    by (cases "split_on c s") (auto split: if_splits)
qed

lemma join_Cons: "join sep (x # xs) = (if xs = [] then x else x @ sep @ join sep xs)"
  by (cases xs) auto

lemma join_append:
  "xs \<noteq> [] \<Longrightarrow> ys \<noteq> [] \<Longrightarrow> join sep (xs @ ys) = join sep xs @ sep @ join sep ys"
  by (induction xs) (auto simp: join_Cons)

lemma join_split: "join [c] (split_on c s) = s"
proof (induction s)
  case Nil
  show ?case by simp
next
  case (Cons x s)
  then show ?case
    by (cases "split_on c s") (auto simp: join_Cons)
qed

lemma split_join:
  "xs \<noteq> [] \<Longrightarrow> \<forall>x \<in> set xs. c \<notin> set x \<Longrightarrow> split_on c (join [c] xs) = xs"
proof (induction xs)
  case Nil
  then show ?case by simp
next
  case (Cons x xs)
  then show ?case
    by (cases "xs = []") (auto simp: join_Cons split_on_line split_on_no_sep)
qed

lemma split_on_sublist: "l \<in> set (split_on c s) \<Longrightarrow> sublist l s"
proof (induction s arbitrary: l)
  case Nil
  then show ?case by simp
next
  case (Cons x s)
  obtain h t where ht: "split_on c s = h # t"
    using split_on_nonempty by (cases "split_on c s") auto
  have pre: "prefix h s"
    using join_split[of c s] ht by (cases t) (auto simp: join_Cons prefix_def)
  from Cons ht pre show ?case
    by (auto split: if_splits simp: sublist_Cons_right)
qed

subsection \<open>Trim, TrimRight, TrimPrefix\<close>

definition trim_right_char :: "char \<Rightarrow> string \<Rightarrow> string" where
  "trim_right_char c s = rev (dropWhile (\<lambda>x. x = c) (rev s))"

definition trim_char :: "char \<Rightarrow> string \<Rightarrow> string" where
  "trim_char c s = trim_right_char c (dropWhile (\<lambda>x. x = c) s)"

definition trim_prefix :: "string \<Rightarrow> string \<Rightarrow> string" where
  "trim_prefix s p = (if prefix p s then drop (length p) s else s)"

lemma trim_right_char_snoc [simp]:
  "trim_right_char c (s @ [x]) = (if x = c then trim_right_char c s else s @ [x])"
  by (simp add: trim_right_char_def)

lemma trim_right_char_Nil [simp]: "trim_right_char c [] = []"
  by (simp add: trim_right_char_def)

lemma trim_right_char_id: "c \<notin> set s \<Longrightarrow> trim_right_char c s = s"
  by (cases s rule: rev_cases) auto

subsection \<open>White space: TrimSpace and Fields\<close>

text \<open>
  \<open>space_len s\<close> is the number of bytes of the white-space rune at the head of \<open>s\<close>, or 0: the
  six ASCII spaces, U+0085, U+00A0, U+1680, U+2000 to U+200A, U+2028, U+2029, U+202F, U+205F and
  U+3000, as \<^verbatim>\<open>unicode.IsSpace\<close> has them. No byte of these encodings that continues one can start
  a rune, so testing at every byte position gives the same cuts as decoding rune by rune.
\<close>

definition space_len :: "string \<Rightarrow> nat" where
  "space_len s = (case s of
      [] \<Rightarrow> 0
    | c # cs \<Rightarrow>
        if code c \<in> {9, 10, 11, 12, 13, 32} then 1
        else (case cs of
            [] \<Rightarrow> 0
          | d # ds \<Rightarrow>
              if code c = 0xC2 \<and> code d \<in> {0x85, 0xA0} then 2
              else (case ds of
                  [] \<Rightarrow> 0
                | e # _ \<Rightarrow>
                    if (code c = 0xE1 \<and> code d = 0x9A \<and> code e = 0x80)
                       \<or> (code c = 0xE2 \<and> code d = 0x80
                            \<and> (0x80 \<le> code e \<and> code e \<le> 0x8A \<or> code e \<in> {0xA8, 0xA9, 0xAF}))
                       \<or> (code c = 0xE2 \<and> code d = 0x81 \<and> code e = 0x9F)
                       \<or> (code c = 0xE3 \<and> code d = 0x80 \<and> code e = 0x80)
                    then 3 else 0)))"

definition rspace_len :: "string \<Rightarrow> nat" where
  "rspace_len s =
     (if 1 \<le> length s \<and> space_len (drop (length s - 1) s) = 1 then 1
      else if 2 \<le> length s \<and> space_len (drop (length s - 2) s) = 2 then 2
      else if 3 \<le> length s \<and> space_len (drop (length s - 3) s) = 3 then 3
      else 0)"

lemma space_len_le: "space_len s \<le> length s"
  by (auto simp: space_len_def split: list.splits)

lemma rspace_len_le: "rspace_len s \<le> length s"
  by (simp add: rspace_len_def)

function trim_left_space :: "string \<Rightarrow> string" where
  "trim_left_space s =
     (if space_len s = 0 then s else trim_left_space (drop (space_len s) s))"
  by pat_completeness auto
termination
proof (relation "measure length", goal_cases)
  case 1
  show ?case by simp
next
  case (2 s)
  then show ?case using space_len_le[of s] by auto
qed

function trim_right_space :: "string \<Rightarrow> string" where
  "trim_right_space s =
     (if rspace_len s = 0 then s else trim_right_space (take (length s - rspace_len s) s))"
  by pat_completeness auto
termination
proof (relation "measure length", goal_cases)
  case 1
  show ?case by simp
next
  case (2 s)
  then show ?case using rspace_len_le[of s] by auto
qed

declare trim_left_space.simps [simp del] trim_right_space.simps [simp del]

definition trim_space :: "string \<Rightarrow> string" where
  "trim_space s = trim_right_space (trim_left_space s)"

lemma trim_left_space_length: "length (trim_left_space s) \<le> length s"
proof (induction s rule: trim_left_space.induct)
  case (1 s)
  then show ?case by (subst trim_left_space.simps) auto
qed

lemma trim_left_space_no_space: "space_len (trim_left_space s) = 0"
proof (induction s rule: trim_left_space.induct)
  case (1 s)
  then show ?case
    by (cases "space_len s = 0") (simp_all add: trim_left_space.simps[of s])
qed

lemma trim_space_id: "space_len s = 0 \<Longrightarrow> rspace_len s = 0 \<Longrightarrow> trim_space s = s"
  by (simp add: trim_space_def trim_left_space.simps[of s] trim_right_space.simps[of s])

lemma space_len_whole: "space_len t = length t \<Longrightarrow> 2 \<le> length t \<Longrightarrow> 0x80 \<le> code (last t)"
  by (auto simp: space_len_def split: list.splits if_splits)

lemma rspace_len_ascii:
  assumes "code c < 0x80" "code c \<notin> {9, 10, 11, 12, 13, 32}"
  shows "rspace_len (s @ [c]) = 0"
proof -
  let ?s = "s @ [c]"
  have "space_len (drop (length ?s - 1) ?s) \<noteq> 1"
    using assms(2) by (simp add: space_len_def)
  moreover have "space_len (drop (length ?s - n) ?s) \<noteq> n" if "2 \<le> n" "n \<le> length ?s" for n
  proof
    let ?t = "drop (length ?s - n) ?s"
    assume "space_len ?t = n"
    moreover have len: "length ?t = n" using that(2) by simp
    ultimately have "0x80 \<le> code (last ?t)" using space_len_whole[of ?t] that(1) by simp
    moreover have "last ?t = c"
      using len that(1) by (subst last_drop) auto
    ultimately show False using assms(1) by simp
  qed
  ultimately show ?thesis by (simp add: rspace_len_def del: length_append drop_append)
qed

lemma space_len_ascii: "code c < 0x80 \<Longrightarrow> code c \<notin> {9, 10, 11, 12, 13, 32} \<Longrightarrow> space_len (c # s) = 0"
  by (auto simp: space_len_def split: list.splits)

lemma trim_space_ends:
  assumes "code c < 0x80" "code c \<notin> {9, 10, 11, 12, 13, 32}"
    and "code d < 0x80" "code d \<notin> {9, 10, 11, 12, 13, 32}"
  shows "trim_space (c # s @ [d]) = c # s @ [d]"
  using space_len_ascii[OF assms(1,2)] rspace_len_ascii[OF assms(3,4), of "c # s"]
  by (simp add: trim_space_id)

lemma trim_space_Nil [simp]: "trim_space [] = []"
  by (simp add: trim_space_id space_len_def rspace_len_def)

lemma trim_left_space_suffix: "suffix (trim_left_space s) s"
proof (induction s rule: trim_left_space.induct)
  case (1 s)
  show ?case
  proof (cases "space_len s = 0")
    case True
    then show ?thesis by (simp add: trim_left_space.simps[of s])
  next
    case False
    then have "suffix (trim_left_space s) (drop (space_len s) s)"
      using "1.IH" by (simp add: trim_left_space.simps[of s])
    then show ?thesis by (meson suffix_drop suffix_order.trans)
  qed
qed

lemma trim_right_space_prefix: "prefix (trim_right_space s) s"
proof (induction s rule: trim_right_space.induct)
  case (1 s)
  show ?case
  proof (cases "rspace_len s = 0")
    case True
    then show ?thesis by (simp add: trim_right_space.simps[of s])
  next
    case False
    then have "prefix (trim_right_space s) (take (length s - rspace_len s) s)"
      using "1.IH" by (simp add: trim_right_space.simps[of s])
    then show ?thesis by (meson take_is_prefix prefix_order.trans)
  qed
qed

lemma trim_space_sublist: "sublist (trim_space s) s"
proof -
  have "sublist (trim_space s) (trim_left_space s)"
    by (simp add: trim_space_def prefix_imp_sublist trim_right_space_prefix)
  moreover have "sublist (trim_left_space s) s"
    by (simp add: suffix_imp_sublist trim_left_space_suffix)
  ultimately show ?thesis by (meson sublist_order.order.trans)
qed

fun span_word :: "string \<Rightarrow> string \<times> string" where
  "span_word [] = ([], [])"
| "span_word (c # cs) =
     (if 0 < space_len (c # cs) then ([], c # cs)
      else (let (w, r) = span_word cs in (c # w, r)))"

lemma span_word_length: "length (snd (span_word s)) \<le> length s"
  by (induction s) (auto split: prod.splits)

lemma span_word_shorter: "space_len s = 0 \<Longrightarrow> s \<noteq> [] \<Longrightarrow> length (snd (span_word s)) < length s"
  using span_word_length by (cases s) (auto split: prod.splits simp: less_Suc_eq_le, metis snd_conv)

function str_fields :: "string \<Rightarrow> string list" where
  "str_fields s =
     (let s' = trim_left_space s in
      if s' = [] then [] else fst (span_word s') # str_fields (snd (span_word s')))"
  by pat_completeness auto
termination
proof (relation "measure length", goal_cases)
  case 1
  show ?case by simp
next
  case (2 s s')
  then have "length (snd (span_word s')) < length s'"
    by (simp add: span_word_shorter trim_left_space_no_space)
  also have "length s' \<le> length s"
    using 2 by (simp add: trim_left_space_length)
  finally show ?case by simp
qed

declare str_fields.simps [simp del]

subsection \<open>Numbers: Sprintf of an integer, ParseInt and Atoi\<close>

definition digit :: "nat \<Rightarrow> char" where
  "digit n = char_of (48 + n)"

definition is_digit :: "char \<Rightarrow> bool" where
  "is_digit c \<longleftrightarrow> 48 \<le> code c \<and> code c \<le> 57"

fun nat_str :: "nat \<Rightarrow> string" where
  "nat_str n = (if n < 10 then [digit n] else nat_str (n div 10) @ [digit (n mod 10)])"

declare nat_str.simps [simp del]

definition int_str :: "int \<Rightarrow> string" where
  "int_str i = (if i < 0 then CHR ''-'' # nat_str (nat (- i)) else nat_str (nat i))"

datatype num_err = ErrSyntax | ErrRange

text \<open>
  \<^verbatim>\<open>strconv.ParseUint\<close> in base 10 reads the digits from left to right and stops at the first
  character that is not one, or as soon as the value leaves 64 bits; \<^verbatim>\<open>ParseInt\<close> then saturates.
  Callers that discard the error keep the value, which is 0 for a syntax error and the nearest
  bound for a range error.
\<close>

fun parse_uint_loop :: "int \<Rightarrow> string \<Rightarrow> int \<times> num_err option" where
  "parse_uint_loop n [] = (n, None)"
| "parse_uint_loop n (c # cs) =
     (if \<not> is_digit c then (0, Some ErrSyntax)
      else if n \<ge> (2 ^ 64 - 1) div 10 + 1 then (2 ^ 64 - 1, Some ErrRange)
      else let n1 = 10 * n + int (code c - 48) in
        if n1 > 2 ^ 64 - 1 then (2 ^ 64 - 1, Some ErrRange)
        else parse_uint_loop n1 cs)"

definition parse_uint :: "string \<Rightarrow> int \<times> num_err option" where
  "parse_uint s = (if s = [] then (0, Some ErrSyntax) else parse_uint_loop 0 s)"

definition parse_int :: "string \<Rightarrow> int \<times> num_err option" where
  "parse_int s =
     (if s = [] then (0, Some ErrSyntax)
      else
        let neg = (hd s = CHR ''-'');
            ds = (if hd s = CHR ''+'' \<or> hd s = CHR ''-'' then tl s else s);
            (un, e) = parse_uint ds
        in if e = Some ErrSyntax then (0, Some ErrSyntax)
           else if \<not> neg \<and> un \<ge> 2 ^ 63 then (2 ^ 63 - 1, Some ErrRange)
           else if neg \<and> un > 2 ^ 63 then (- (2 ^ 63), Some ErrRange)
           else (if neg then - un else un, None))"

abbreviation atoi :: "string \<Rightarrow> int \<times> num_err option" where
  "atoi \<equiv> parse_int"

lemma parse_uint_loop_bound:
  "0 \<le> n \<Longrightarrow> n \<le> 2 ^ 64 - 1 \<Longrightarrow> 0 \<le> fst (parse_uint_loop n s) \<and> fst (parse_uint_loop n s) \<le> 2 ^ 64 - 1"
  by (induction n s rule: parse_uint_loop.induct) (auto simp: Let_def)

lemma parse_uint_nonneg: "0 \<le> fst (parse_uint s)"
  using parse_uint_loop_bound[of 0 s] by (simp add: parse_uint_def)

lemma parse_int_bounds: "- (2 ^ 63) \<le> fst (parse_int s) \<and> fst (parse_int s) \<le> 2 ^ 63 - 1"
proof -
  have nonneg: "0 \<le> fst (parse_uint (tl s))" "0 \<le> fst (parse_uint s)" using parse_uint_nonneg by auto
  show ?thesis
    by (auto simp: parse_int_def Let_def split: prod.splits) (use nonneg in auto)
qed

lemma code_digit [simp]: "n < 10 \<Longrightarrow> code (digit n) = 48 + n"
  by (simp add: digit_def of_char_of)

lemma is_digit_digit [simp]: "n < 10 \<Longrightarrow> is_digit (digit n)"
  by (simp add: is_digit_def)

lemma nat_str_nonempty [simp]: "nat_str n \<noteq> []"
  by (subst nat_str.simps) simp

lemma nat_str_digits: "c \<in> set (nat_str n) \<Longrightarrow> is_digit c"
proof (induction n rule: nat_str.induct)
  case (1 n)
  then show ?case by (cases "n < 10") (auto simp: nat_str.simps[of n])
qed

end
