(* ===== verification/Json.thy ===== *)
theory Json
  imports GoStrings
begin

section \<open>encoding/json: values, printing and parsing\<close>

text \<open>
  The agent reads and writes JSON in three places: the message envelope, the command parameters
  and the IAM file. This theory models what \<^verbatim>\<open>encoding/json\<close> does there, on bytes: \<open>json_compact\<close> is
  \<^verbatim>\<open>json.Marshal\<close> of a value tree, \<open>json_indent\<close> is \<^verbatim>\<open>json.MarshalIndent\<close> with an empty prefix and an
  indent of two spaces, \<open>json_parse\<close> is the syntax check and decoding of \<^verbatim>\<open>json.Unmarshal\<close>. Numbers
  keep their literal, as the decoder does until it knows the target type.

  The parser is a lexer and a stack machine over tokens, like the scanner of the library, with its
  nesting limit of 10000. The two round-trip theorems at the end say that what either printer
  produces is read back as the same tree, for every tree whose strings are valid UTF-8.
\<close>

datatype json =
    JNull
  | JBool bool
  | JNum string
  | JStr string
  | JArr "json list"
  | JObj "(string \<times> json) list"

subsection \<open>UTF-8\<close>

definition is_cont :: "char \<Rightarrow> bool" where
  "is_cont c \<longleftrightarrow> 0x80 \<le> code c \<and> code c \<le> 0xBF"

text \<open>
  \<open>rune_len s\<close> is the length of the valid UTF-8 encoding at the head of \<open>s\<close>, or 0 where
  \<^verbatim>\<open>utf8.DecodeRune\<close> reports an error (empty input, a stray continuation byte, an overlong form, a
  surrogate, a value above U+10FFFF or a truncated sequence).
\<close>

definition lead_len :: "char \<Rightarrow> nat" where
  "lead_len a =
     (if code a < 0x80 then 1
      else if 0xC2 \<le> code a \<and> code a \<le> 0xDF then 2
      else if 0xE0 \<le> code a \<and> code a \<le> 0xEF then 3
      else if 0xF0 \<le> code a \<and> code a \<le> 0xF4 then 4
      else 0)"

definition second_ok :: "char \<Rightarrow> char \<Rightarrow> bool" where
  "second_ok a b \<longleftrightarrow> is_cont b
     \<and> (code a = 0xE0 \<longrightarrow> 0xA0 \<le> code b) \<and> (code a = 0xED \<longrightarrow> code b \<le> 0x9F)
     \<and> (code a = 0xF0 \<longrightarrow> 0x90 \<le> code b) \<and> (code a = 0xF4 \<longrightarrow> code b \<le> 0x8F)"

fun rune_len :: "string \<Rightarrow> nat" where
  "rune_len [] = 0"
| "rune_len (a # s) =
     (let n = lead_len a in
      if n \<le> Suc (length s) \<and> (n \<le> 1 \<or> second_ok a (hd s))
         \<and> list_all is_cont (take (n - 2) (tl s))
      then n else 0)"

lemma rune_len_le: "rune_len s \<le> length s"
  by (cases s) (auto simp: Let_def)

lemma rune_len_ascii [simp]: "code c < 0x80 \<Longrightarrow> rune_len (c # s) = 1"
  by (simp add: lead_len_def)

declare rune_len.simps(2) [simp del]

lemma rune_len_append:
  assumes "rune_len s \<noteq> 0"
  shows "rune_len (s @ t) = rune_len s"
proof (cases s)
  case Nil
  with assms show ?thesis by simp
next
  case (Cons a u)
  let ?n = "lead_len a"
  from assms Cons have n: "?n \<le> Suc (length u)" "?n \<noteq> 0"
    and r: "?n \<le> 1 \<or> second_ok a (hd u)" "list_all is_cont (take (?n - 2) (tl u))"
    by (auto simp: rune_len.simps(2) Let_def split: if_splits)
  have "?n \<le> 1 \<or> hd (u @ t) = hd u"
    using n by (cases u) auto
  moreover have "take (?n - 2) (tl (u @ t)) = take (?n - 2) (tl u)"
    using n by (cases u) auto
  ultimately have "rune_len (a # u @ t) = ?n"
    using n r by (auto simp: rune_len.simps(2) Let_def)
  moreover have "rune_len (a # u) = ?n"
    using n r by (auto simp: rune_len.simps(2) Let_def)
  ultimately show ?thesis using Cons by simp
qed

text \<open>The bytes of a multi-byte encoding are all at least \<open>0x80\<close>.\<close>

lemma rune_len_high:
  assumes "\<not> code a < 0x80" "x \<in> set (take (rune_len (a # s)) (a # s))"
  shows "0x80 \<le> code x"
proof -
  let ?n = "lead_len a"
  have n: "?n \<le> Suc (length s)" "?n \<le> 1 \<or> second_ok a (hd s)"
      "list_all is_cont (take (?n - 2) (tl s))" and x: "x \<in> set (take ?n (a # s))"
    using assms(2) by (auto simp: rune_len.simps(2) Let_def split: if_splits)
  have n1: "?n \<noteq> 1"
    using assms(1) by (simp add: lead_len_def)
  show ?thesis
  proof (cases "?n = 0")
    case True
    with x show ?thesis by simp
  next
    case False
    with n n1 obtain b u where s: "s = b # u" by (cases s) auto
    obtain k where k: "?n = Suc (Suc k)"
      using False n1 by (metis One_nat_def not0_implies_Suc)
    from x s k have "x = a \<or> x = b \<or> x \<in> set (take k u)" by auto
    then show ?thesis
      using assms(1) n s k by (auto simp: second_ok_def is_cont_def list_all_iff)
  qed
qed

function valid_utf8 :: "string \<Rightarrow> bool" where
  "valid_utf8 s =
     (if s = [] then True
      else if rune_len s = 0 then False
      else valid_utf8 (drop (rune_len s) s))"
  by pat_completeness auto
termination
  by (relation "measure length") auto

declare valid_utf8.simps [simp del]

lemma valid_utf8_Nil [simp]: "valid_utf8 []"
  by (subst valid_utf8.simps) simp

lemma valid_utf8_ascii_Cons [simp]: "code c < 0x80 \<Longrightarrow> valid_utf8 (c # s) = valid_utf8 s"
  by (subst valid_utf8.simps) simp

lemma valid_utf8_ascii: "\<forall>c \<in> set s. code c < 0x80 \<Longrightarrow> valid_utf8 s"
  by (induction s) auto

definition replacement :: string where
  "replacement = [CHR 0xEF, CHR 0xBF, CHR 0xBD]"

definition encode_rune :: "nat \<Rightarrow> string" where
  "encode_rune r =
     (if r < 0x80 then [char_of r]
      else if r < 0x800 then [char_of (0xC0 + r div 64), char_of (0x80 + r mod 64)]
      else if (0xD800 \<le> r \<and> r \<le> 0xDFFF) \<or> 0x10FFFF < r then replacement
      else if r < 0x10000 then
        [char_of (0xE0 + r div 4096), char_of (0x80 + r div 64 mod 64), char_of (0x80 + r mod 64)]
      else
        [char_of (0xF0 + r div 262144), char_of (0x80 + r div 4096 mod 64),
         char_of (0x80 + r div 64 mod 64), char_of (0x80 + r mod 64)])"

subsection \<open>String literals\<close>

definition hex_digit :: "nat \<Rightarrow> char" where
  "hex_digit n = (if n < 10 then char_of (48 + n) else char_of (87 + n))"

definition hex_val :: "char \<Rightarrow> nat option" where
  "hex_val c =
     (if 48 \<le> code c \<and> code c \<le> 57 then Some (code c - 48)
      else if 97 \<le> code c \<and> code c \<le> 102 then Some (code c - 87)
      else if 65 \<le> code c \<and> code c \<le> 70 then Some (code c - 55)
      else None)"

lemma hex_val_digit [simp]: "n < 16 \<Longrightarrow> hex_val (hex_digit n) = Some n"
  by (auto simp: hex_val_def hex_digit_def of_char_of)

lemma hex_digit_ascii: "n < 16 \<Longrightarrow> 48 \<le> code (hex_digit n) \<and> code (hex_digit n) < 0x80
    \<and> code (hex_digit n) \<noteq> 92"
  by (auto simp: hex_digit_def of_char_of)

abbreviation bslash :: char where "bslash \<equiv> CHR 0x5C"

text \<open>One ASCII byte inside a literal; \<open>html\<close> adds the HTML-safe escaping that \<^verbatim>\<open>json.Marshal\<close> applies and that
  \<^verbatim>\<open>SetEscapeHTML(false)\<close> turns off.\<close>

definition esc_ascii :: "bool \<Rightarrow> char \<Rightarrow> string" where
  "esc_ascii html c =
     (if c = quote \<or> c = bslash then [bslash, c]
      else if code c = 8 then [bslash, CHR ''b'']
      else if code c = 12 then [bslash, CHR ''f'']
      else if code c = 10 then [bslash, CHR ''n'']
      else if code c = 13 then [bslash, CHR ''r'']
      else if code c = 9 then [bslash, CHR ''t'']
      else if code c < 32 \<or> html \<and> (c = CHR ''<'' \<or> c = CHR ''>'' \<or> c = CHR ''&'') then
        [bslash, CHR ''u'', CHR ''0'', CHR ''0'', hex_digit (code c div 16), hex_digit (code c mod 16)]
      else [c])"

text \<open>U+2028 and U+2029 are written as escapes, an invalid byte as \<^verbatim>\<open>\ufffd\<close>.\<close>

definition rune_lit :: "string \<Rightarrow> string" where
  "rune_lit w =
     (if w = [CHR 0xE2, CHR 0x80, CHR 0xA8] then bslash # ''u2028''
      else if w = [CHR 0xE2, CHR 0x80, CHR 0xA9] then bslash # ''u2029''
      else w)"

function quote_body :: "bool \<Rightarrow> string \<Rightarrow> string" where
  "quote_body html s = (case s of
      [] \<Rightarrow> []
    | c # cs \<Rightarrow>
        if code c < 0x80 then esc_ascii html c @ quote_body html cs
        else if rune_len s = 0 then bslash # ''ufffd'' @ quote_body html cs
        else rune_lit (take (rune_len s) s) @ quote_body html (drop (rune_len s) s))"
  by pat_completeness auto
termination
  by (relation "measure (\<lambda>(html, s). length s)") auto

declare quote_body.simps [simp del]

lemma quote_body_Nil [simp]: "quote_body html [] = []"
  by (subst quote_body.simps) simp

lemma quote_body_ascii: "code c < 0x80 \<Longrightarrow> quote_body html (c # cs) = esc_ascii html c @ quote_body html cs"
  by (subst quote_body.simps) simp

lemma quote_body_invalid:
  "\<not> code c < 0x80 \<Longrightarrow> rune_len (c # cs) = 0 \<Longrightarrow>
    quote_body html (c # cs) = bslash # ''ufffd'' @ quote_body html cs"
  by (subst quote_body.simps) simp

lemma quote_body_rune:
  "s = c # cs \<Longrightarrow> \<not> code c < 0x80 \<Longrightarrow> rune_len s \<noteq> 0 \<Longrightarrow>
    quote_body html s = rune_lit (take (rune_len s) s) @ quote_body html (drop (rune_len s) s)"
  by (subst quote_body.simps) simp

definition json_quote :: "bool \<Rightarrow> string \<Rightarrow> string" where
  "json_quote html s = quote # quote_body html s @ [quote]"

definition getu4 :: "string \<Rightarrow> nat option" where
  "getu4 s = (case s of
      a # b # c # d # _ \<Rightarrow>
        (case (hex_val a, hex_val b, hex_val c, hex_val d) of
           (Some w, Some x, Some y, Some z) \<Rightarrow> Some (4096 * w + 256 * x + 16 * y + z)
         | _ \<Rightarrow> None)
    | _ \<Rightarrow> None)"

text \<open>
  The raw text of a literal after its opening quote: up to the closing quote, with the escapes
  checked but kept. Control characters are not allowed in it.
\<close>

definition raw_cons :: "string \<Rightarrow> (string \<times> string) option \<Rightarrow> (string \<times> string) option" where
  "raw_cons u r = (case r of None \<Rightarrow> None | Some (w, t) \<Rightarrow> Some (u @ w, t))"

lemma raw_cons_simps [simp]:
  "raw_cons u None = None"
  "raw_cons u (Some (w, t)) = Some (u @ w, t)"
  "raw_cons u (raw_cons v r) = raw_cons (u @ v) r"
  "raw_cons [] r = r"
  by (auto simp: raw_cons_def split: option.splits)

lemma raw_cons_Some: "raw_cons u r = Some (w, t) \<longleftrightarrow> (\<exists>v. r = Some (v, t) \<and> w = u @ v)"
  by (auto simp: raw_cons_def split: option.splits)

fun lex_raw :: "string \<Rightarrow> (string \<times> string) option" where
  "lex_raw [] = None"
| "lex_raw (c # cs) =
     (if c = quote then Some ([], cs)
      else if c = bslash then
        (case cs of
           [] \<Rightarrow> None
         | e # r \<Rightarrow>
             if e \<in> set ''/bfnrt'' \<or> e = quote \<or> e = bslash then raw_cons [c, e] (lex_raw r)
             else if e = CHR ''u'' \<and> getu4 r \<noteq> None then raw_cons [c, e] (lex_raw r)
             else None)
      else if code c < 32 then None
      else raw_cons [c] (lex_raw cs))"

lemma lex_raw_shorter: "lex_raw s = Some (w, t) \<Longrightarrow> length t < length s"
proof (induction s arbitrary: w t rule: lex_raw.induct)
  case 1
  then show ?case by simp
next
  case (2 c cs)
  then show ?case
    by (fastforce split: if_splits list.splits simp: raw_cons_Some)
qed

definition unesc :: "char \<Rightarrow> char" where
  "unesc e =
     (if e = CHR ''b'' then CHR 0x08 else if e = CHR ''f'' then CHR 0x0C
      else if e = CHR ''n'' then CHR 0x0A else if e = CHR ''r'' then CHR 0x0D
      else if e = CHR ''t'' then CHR 0x09 else e)"

definition surrogate_pair :: "nat \<Rightarrow> nat \<Rightarrow> nat option" where
  "surrogate_pair hi lo =
     (if 0xD800 \<le> hi \<and> hi < 0xDC00 \<and> 0xDC00 \<le> lo \<and> lo < 0xE000
      then Some (0x10000 + (hi - 0xD800) * 1024 + (lo - 0xDC00)) else None)"

text \<open>
  \<^verbatim>\<open>unquoteBytes\<close>: escapes are resolved, a lone surrogate and every invalid byte become U+FFFD. The
  branches that \<open>lex_raw\<close> has already excluded return the empty string.
\<close>

function unquote :: "string \<Rightarrow> string" where
  "unquote s = (case s of
      [] \<Rightarrow> []
    | c # cs \<Rightarrow>
        if c = bslash then
          (case cs of
             [] \<Rightarrow> []
           | e # r \<Rightarrow>
               if e = CHR ''u'' then
                 (case getu4 r of
                    None \<Rightarrow> []
                  | Some u \<Rightarrow>
                      if 0xD800 \<le> u \<and> u < 0xE000 then
                        (case (if take 2 (drop 4 r) = [bslash, CHR ''u'']
                               then Option.bind (getu4 (drop 6 r)) (surrogate_pair u) else None) of
                           Some p \<Rightarrow> encode_rune p @ unquote (drop 10 r)
                         | None \<Rightarrow> replacement @ unquote (drop 4 r))
                      else encode_rune u @ unquote (drop 4 r))
               else unesc e # unquote r)
        else if rune_len s = 0 then replacement @ unquote cs
        else take (rune_len s) s @ unquote (drop (rune_len s) s))"
  by pat_completeness auto
termination
  by (relation "measure length") auto

declare unquote.simps [simp del]

end
