(* ===== verification/JsonText.thy ===== *)
theory JsonText
  imports Json
begin

section \<open>JSON text: lexer, parser, printers and their round trip\<close>

text \<open>
  The token level of \<open>Json\<close>: literals are lexed and unquoted, a stack machine builds the tree, and
  both printers of the library are shown to be inverted by the parser.
\<close>

subsection \<open>Literals\<close>

lemma rune_len_take: "rune_len s = n \<Longrightarrow> rune_len (take n s) = n"
proof (cases s)
  case (Cons a u)
  assume r: "rune_len s = n"
  show ?thesis
  proof (cases "n = 0")
    case False
    with r Cons have n: "n = lead_len a" "n \<le> Suc (length u)"
        "n \<le> 1 \<or> second_ok a (hd u)" "list_all is_cont (take (n - 2) (tl u))"
      by (auto simp: rune_len.simps(2) Let_def split: if_splits)
    obtain k where k: "n = Suc k" using False by (cases n) auto
    have "n \<le> 1 \<or> hd (take k u) = hd u" using k by (cases u; cases k) auto
    moreover have "take (n - 2) (tl (take k u)) = take (n - 2) (tl u)"
      using k by (cases u; cases k) auto
    ultimately have "rune_len (a # take k u) = lead_len a"
      using n(2,3,4) k unfolding n(1) by (auto simp: rune_len.simps(2) Let_def)
    with k n(1) Cons show ?thesis by simp
  qed simp
qed simp

lemma esc_ascii_cases:
  assumes "code c < 0x80"
  obtains "esc_ascii html c = [c]" "c \<noteq> quote" "c \<noteq> bslash" "32 \<le> code c"
  | e where "esc_ascii html c = [bslash, e]" "e \<in> set ''/bfnrt'' \<or> e = quote \<or> e = bslash"
      "unesc e = c"
  | "esc_ascii html c = bslash # CHR ''u'' # CHR ''0'' # CHR ''0'' # hex_digit (code c div 16)
        # hex_digit (code c mod 16) # []"
proof -
  have eq: "code c = 8 \<Longrightarrow> c = CHR 0x08" "code c = 9 \<Longrightarrow> c = CHR 0x09" "code c = 10 \<Longrightarrow> c = CHR 0x0A"
      "code c = 12 \<Longrightarrow> c = CHR 0x0C" "code c = 13 \<Longrightarrow> c = CHR 0x0D"
    using of_char_eq_iff[of c "CHR 0x08", where 'a = nat] of_char_eq_iff[of c "CHR 0x09", where 'a = nat]
      of_char_eq_iff[of c "CHR 0x0A", where 'a = nat] of_char_eq_iff[of c "CHR 0x0C", where 'a = nat]
      of_char_eq_iff[of c "CHR 0x0D", where 'a = nat]
    by simp_all
  consider "c = quote \<or> c = bslash" | "code c \<in> {8, 9, 10, 12, 13}"
    | "c \<noteq> quote \<and> c \<noteq> bslash \<and> code c \<notin> {8, 9, 10, 12, 13} \<and>
        (code c < 32 \<or> html \<and> (c = CHR ''<'' \<or> c = CHR ''>'' \<or> c = CHR ''&''))"
    | "c \<noteq> quote \<and> c \<noteq> bslash \<and> code c \<notin> {8, 9, 10, 12, 13} \<and>
        \<not> (code c < 32 \<or> html \<and> (c = CHR ''<'' \<or> c = CHR ''>'' \<or> c = CHR ''&''))"
    by blast
  then show ?thesis
  proof cases
    case 1
    then show ?thesis using that(2)[of c] by (auto simp: esc_ascii_def unesc_def)
  next
    case 2
    then show ?thesis
      using that(2)[of "CHR ''b''"] that(2)[of "CHR ''f''"] that(2)[of "CHR ''n''"]
        that(2)[of "CHR ''r''"] that(2)[of "CHR ''t''"]
      by (auto simp: esc_ascii_def unesc_def dest!: eq)
  next
    case 3
    then show ?thesis using that(3) by (auto simp: esc_ascii_def)
  next
    case 4
    then show ?thesis using that(1) by (auto simp: esc_ascii_def)
  qed
qed

lemma getu4_hex: "n < 256 \<Longrightarrow>
    getu4 (CHR ''0'' # CHR ''0'' # hex_digit (n div 16) # hex_digit (n mod 16) # r) = Some n"
proof -
  assume "n < 256"
  then have "n div 16 < 16" by simp
  moreover have "hex_val (CHR ''0'') = Some 0" by (simp add: hex_val_def)
  ultimately show ?thesis by (simp add: getu4_def mult_div_mod_eq)
qed

lemma hex_digit_plain: "n < 16 \<Longrightarrow> hex_digit n \<noteq> quote \<and> hex_digit n \<noteq> bslash \<and> 32 \<le> code (hex_digit n)"
proof -
  assume n: "n < 16"
  have "hex_digit n \<noteq> quote" using hex_digit_ascii[OF n] by auto
  moreover have "hex_digit n \<noteq> bslash" using hex_digit_ascii[OF n] by auto
  ultimately show ?thesis using hex_digit_ascii[OF n] by simp
qed

lemma lex_raw_plain:
  "c \<noteq> quote \<Longrightarrow> c \<noteq> bslash \<Longrightarrow> 32 \<le> code c \<Longrightarrow> lex_raw (c # r) = raw_cons [c] (lex_raw r)"
  by simp

lemma lex_raw_plains:
  "\<forall>x \<in> set u. x \<noteq> quote \<and> x \<noteq> bslash \<and> 32 \<le> code x \<Longrightarrow> lex_raw (u @ r) = raw_cons u (lex_raw r)"
  by (induction u) (simp_all add: lex_raw_plain del: lex_raw.simps)

lemma lex_raw_u:
  "getu4 r \<noteq> None \<Longrightarrow> lex_raw (bslash # CHR ''u'' # r) = raw_cons [bslash, CHR ''u''] (lex_raw r)"
  by simp

lemma lex_raw_esc:
  assumes "code c < 0x80"
  shows "lex_raw (esc_ascii html c @ r) = raw_cons (esc_ascii html c) (lex_raw r)"
  using assms
proof (cases rule: esc_ascii_cases[where html = html])
  case 1
  then show ?thesis by (simp add: lex_raw_plain)
next
  case (2 e)
  then show ?thesis by auto
next
  case 3
  have b: "code c div 16 < 16" "code c mod 16 < 16" using assms by auto
  let ?h = "[CHR ''0'', CHR ''0'', hex_digit (code c div 16), hex_digit (code c mod 16)]"
  have "lex_raw (?h @ r) = raw_cons ?h (lex_raw r)"
    using hex_digit_plain[OF b(1)] hex_digit_plain[OF b(2)] by (intro lex_raw_plains) auto
  moreover have "getu4 (?h @ r) \<noteq> None"
    using assms getu4_hex[of "code c" r] by simp
  ultimately have "lex_raw (bslash # CHR ''u'' # (?h @ r)) = raw_cons (bslash # CHR ''u'' # ?h) (lex_raw r)"
    by (simp add: lex_raw_u del: lex_raw.simps)
  then show ?thesis by (simp add: 3 del: lex_raw.simps)
qed

lemma lex_raw_high:
  "\<forall>x \<in> set u. 0x80 \<le> code x \<Longrightarrow> lex_raw (u @ r) = raw_cons u (lex_raw r)"
  by (rule lex_raw_plains) auto

lemma lex_raw_ufffd: "lex_raw (bslash # ''ufffd'' @ r) = raw_cons (bslash # ''ufffd'') (lex_raw r)"
  by (simp add: getu4_def hex_val_def)

lemma lex_raw_rune_lit:
  "\<forall>x \<in> set w. 0x80 \<le> code x \<Longrightarrow> lex_raw (rune_lit w @ r) = raw_cons (rune_lit w) (lex_raw r)"
  using lex_raw_high[of w r] by (auto simp: rune_lit_def getu4_def hex_val_def)

lemma lex_raw_quote_body: "lex_raw (quote_body html s @ quote # t) = Some (quote_body html s, t)"
proof (induction html s rule: quote_body.induct)
  case (1 html s)
  show ?case
  proof (cases s)
    case Nil
    then show ?thesis by simp
  next
    case (Cons c cs)
    show ?thesis
    proof (cases "code c < 0x80")
      case True
      then show ?thesis
        using "1.IH"(1)[OF Cons] Cons by (simp add: quote_body_ascii lex_raw_esc del: lex_raw.simps)
    next
      case False
      show ?thesis
      proof (cases "rune_len s = 0")
        case True
        then show ?thesis
          using "1.IH"(2)[OF Cons False True] Cons False
            lex_raw_ufffd[of "quote_body html cs @ quote # t"]
          by (simp add: quote_body_invalid del: lex_raw.simps)
      next
        case nz: False
        have high: "\<forall>x \<in> set (take (rune_len s) s). 0x80 \<le> code x"
          using rune_len_high[OF False] Cons by auto
        show ?thesis
          using "1.IH"(3)[OF Cons False nz] lex_raw_rune_lit[OF high]
          by (simp add: quote_body_rune[OF Cons False nz])
      qed
    qed
  qed
qed

lemma unquote_plain_ascii: "code c < 0x80 \<Longrightarrow> c \<noteq> bslash \<Longrightarrow> unquote (c # r) = c # unquote r"
  by (simp add: unquote.simps[of "c # r"])

lemma unquote_esc:
  assumes "code c < 0x80"
  shows "unquote (esc_ascii html c @ r) = c # unquote r"
  using assms
proof (cases rule: esc_ascii_cases[where html = html])
  case 1
  then show ?thesis using assms by (simp add: unquote_plain_ascii)
next
  case (2 e)
  then have "e \<noteq> CHR ''u''" by auto
  with 2 show ?thesis by (simp add: unquote.simps[of "bslash # e # r"])
next
  case 3
  have "encode_rune (code c) = [c]" using assms by (simp add: encode_rune_def)
  then show ?thesis
    using assms unfolding 3 append_Cons append_Nil
    by (subst unquote.simps) (simp add: getu4_hex)
qed

lemma unquote_rune:
  assumes "rune_len s = n" "n \<noteq> 0" "s = c # cs" "\<not> code c < 0x80"
  shows "unquote (take n s @ r) = take n s @ unquote r"
proof -
  obtain k where k: "n = Suc k" using assms(2) by (cases n) auto
  have rl: "rune_len (take n s @ r) = n"
    using rune_len_take[OF assms(1)] assms(2) by (simp add: rune_len_append)
  have len: "length (take n s) = n" using rune_len_le[of s] assms(1) by simp
  have "c \<noteq> bslash" using assms(4) by auto
  then show ?thesis
    using rl k assms len
    by (subst unquote.simps) (auto simp: drop_Cons' split: list.splits)
qed

lemma unquote_rune_lit:
  assumes "rune_len s = n" "n \<noteq> 0" "s = c # cs" "\<not> code c < 0x80"
  shows "unquote (rune_lit (take n s) @ r) = take n s @ unquote r"
proof -
  have "unquote (bslash # ''u2028'' @ r) = [CHR 0xE2, CHR 0x80, CHR 0xA8] @ unquote r"
    by (subst unquote.simps) (simp add: getu4_def hex_val_def encode_rune_def char_of_def bit_iff_odd)
  moreover have "unquote (bslash # ''u2029'' @ r) = [CHR 0xE2, CHR 0x80, CHR 0xA9] @ unquote r"
    by (subst unquote.simps) (simp add: getu4_def hex_val_def encode_rune_def char_of_def bit_iff_odd)
  ultimately show ?thesis
    using unquote_rune[OF assms, of r] by (simp add: rune_lit_def)
qed

theorem unquote_quote_body: "valid_utf8 s \<Longrightarrow> unquote (quote_body html s) = s"
proof (induction html s rule: quote_body.induct)
  case (1 html s)
  show ?case
  proof (cases s)
    case Nil
    then show ?thesis by (simp add: unquote.simps)
  next
    case (Cons c cs)
    show ?thesis
    proof (cases "code c < 0x80")
      case True
      then show ?thesis
        using "1.IH"(1)[OF Cons] "1.prems" Cons by (simp add: quote_body_ascii unquote_esc)
    next
      case False
      have v: "rune_len s \<noteq> 0" "valid_utf8 (drop (rune_len s) s)"
        using "1.prems" Cons valid_utf8.simps[of s] by (auto split: if_splits)
      show ?thesis
        using "1.IH"(3)[OF Cons False v(1) v(2)]
        by (simp add: quote_body_rune[OF Cons False v(1)] unquote_rune_lit[OF refl v(1) Cons False])
    qed
  qed
qed

subsection \<open>Numbers\<close>

definition lex_exp :: "string \<Rightarrow> string \<Rightarrow> (string \<times> string) option" where
  "lex_exp acc s = (case s of
      [] \<Rightarrow> Some (acc, [])
    | c # t \<Rightarrow>
        if c = CHR ''e'' \<or> c = CHR ''E'' then
          let sg = (if t \<noteq> [] \<and> (hd t = CHR ''+'' \<or> hd t = CHR ''-'') then [hd t] else []);
              u = drop (length sg) t;
              d = takeWhile is_digit u
          in if d = [] then None else Some (acc @ [c] @ sg @ d, dropWhile is_digit u)
        else Some (acc, s))"

definition lex_frac :: "string \<Rightarrow> string \<Rightarrow> (string \<times> string) option" where
  "lex_frac acc s = (case s of
      [] \<Rightarrow> Some (acc, [])
    | c # t \<Rightarrow>
        if c = CHR ''.'' then
          let d = takeWhile is_digit t
          in if d = [] then None else lex_exp (acc @ [c] @ d) (dropWhile is_digit t)
        else lex_exp acc s)"

definition lex_num :: "string \<Rightarrow> (string \<times> string) option" where
  "lex_num s =
     (let sg = (if s \<noteq> [] \<and> hd s = CHR ''-'' then ''-'' else []); r = drop (length sg) s in
      case r of
        [] \<Rightarrow> None
      | c # t \<Rightarrow>
          if c = CHR ''0'' then lex_frac (sg @ [c]) t
          else if is_digit c then lex_frac (sg @ takeWhile is_digit r) (dropWhile is_digit r)
          else None)"

lemma suffix_digits: "suffix (dropWhile is_digit (drop k s)) s"
  by (meson suffix_drop suffix_dropWhile suffix_order.trans)

lemma lex_exp_suffix: "lex_exp acc s = Some (l, t) \<Longrightarrow> suffix t s"
proof (cases s)
  case (Cons c u)
  assume l: "lex_exp acc s = Some (l, t)"
  from l Cons have "t = s \<or> t = dropWhile is_digit (drop 0 u) \<or> t = dropWhile is_digit (drop (Suc 0) u)"
    by (auto simp: lex_exp_def Let_def split: if_splits)
  with Cons show ?thesis by (metis suffix_ConsI suffix_digits suffix_order.refl)
qed (simp add: lex_exp_def)

lemma lex_frac_suffix: "lex_frac acc s = Some (l, t) \<Longrightarrow> suffix t s"
proof (cases s)
  case (Cons c u)
  assume l: "lex_frac acc s = Some (l, t)"
  from l Cons have "(\<exists>acc'. lex_exp acc' s = Some (l, t)) \<or>
      (\<exists>acc'. lex_exp acc' (dropWhile is_digit u) = Some (l, t))"
    by (auto simp: lex_frac_def Let_def split: if_splits)
  moreover have "suffix (dropWhile is_digit u) s"
    using Cons by (simp add: suffix_ConsI suffix_dropWhile)
  ultimately show ?thesis by (meson lex_exp_suffix suffix_order.trans)
qed (simp add: lex_frac_def)

lemma lex_num_shorter: "lex_num s = Some (l, t) \<Longrightarrow> length t < length s"
proof -
  assume l: "lex_num s = Some (l, t)"
  let ?r = "drop (length (if s \<noteq> [] \<and> hd s = CHR ''-'' then ''-'' else [])) s"
  obtain c u where r: "?r = c # u"
    using l by (cases ?r) (simp_all add: lex_num_def Let_def)
  have "\<exists>v acc. lex_frac acc v = Some (l, t) \<and> suffix v u"
    using l r by (auto simp: lex_num_def Let_def suffix_dropWhile split: if_splits)
  then have "suffix t u" by (meson lex_frac_suffix suffix_order.trans)
  then have "length t \<le> length u" by (rule suffix_length_le)
  also have "\<dots> < length ?r" unfolding r by simp
  also have "\<dots> \<le> length s" by simp
  finally show ?thesis .
qed

subsection \<open>Tokens\<close>

datatype token =
    TLBrace | TRBrace | TLBrack | TRBrack | TComma | TColon
  | TStr string | TNum string | TTrue | TFalse | TNull

definition is_json_space :: "char \<Rightarrow> bool" where
  "is_json_space c \<longleftrightarrow> code c \<in> {9, 10, 13, 32}"

definition tok_cons :: "token \<Rightarrow> token list option \<Rightarrow> token list option" where
  "tok_cons t r = map_option (Cons t) r"

function json_lex :: "string \<Rightarrow> token list option" where
  "json_lex s = (case s of
      [] \<Rightarrow> Some []
    | c # cs \<Rightarrow>
        if is_json_space c then json_lex cs
        else if c = CHR ''{'' then tok_cons TLBrace (json_lex cs)
        else if c = CHR ''}'' then tok_cons TRBrace (json_lex cs)
        else if c = CHR ''['' then tok_cons TLBrack (json_lex cs)
        else if c = CHR '']'' then tok_cons TRBrack (json_lex cs)
        else if c = CHR '','' then tok_cons TComma (json_lex cs)
        else if c = CHR '':'' then tok_cons TColon (json_lex cs)
        else if c = quote then
          (case lex_raw cs of None \<Rightarrow> None | Some (w, t) \<Rightarrow> tok_cons (TStr (unquote w)) (json_lex t))
        else if prefix ''true'' s then tok_cons TTrue (json_lex (drop 3 cs))
        else if prefix ''false'' s then tok_cons TFalse (json_lex (drop 4 cs))
        else if prefix ''null'' s then tok_cons TNull (json_lex (drop 3 cs))
        else (case lex_num s of None \<Rightarrow> None | Some (l, t) \<Rightarrow> tok_cons (TNum l) (json_lex t)))"
  by pat_completeness auto
termination
  by (relation "measure length") (auto dest: lex_num_shorter, auto dest!: lex_raw_shorter)

declare json_lex.simps [simp del]

end
