(* ===== verification/JsonParse.thy ===== *)
theory JsonParse
  imports JsonText
begin

section \<open>JSON parsing and printing of whole values\<close>

text \<open>
  The stack machine of the decoder, the two printers (compact, as \<^verbatim>\<open>json.Marshal\<close>, and indented by
  two spaces, as \<^verbatim>\<open>json.MarshalIndent(v, "", "  ")\<close>) and the theorem that the machine inverts both.
\<close>

subsection \<open>The parser\<close>

datatype frame =
    FArr "json list"
  | FObj "(string \<times> json) list" string

datatype pstate =
    PVal "frame list"
  | PArr0 "frame list"
  | PObj0 "frame list"
  | PKey "(string \<times> json) list" "frame list"
  | PColon "(string \<times> json) list" string "frame list"
  | PAfter json "frame list"

definition max_depth :: nat where "max_depth = 10000"

fun start_value :: "frame list \<Rightarrow> token \<Rightarrow> pstate option" where
  "start_value fr TNull = Some (PAfter JNull fr)"
| "start_value fr TTrue = Some (PAfter (JBool True) fr)"
| "start_value fr TFalse = Some (PAfter (JBool False) fr)"
| "start_value fr (TNum l) = Some (PAfter (JNum l) fr)"
| "start_value fr (TStr s) = Some (PAfter (JStr s) fr)"
| "start_value fr TLBrack = (if length fr < max_depth then Some (PArr0 fr) else None)"
| "start_value fr TLBrace = (if length fr < max_depth then Some (PObj0 fr) else None)"
| "start_value fr _ = None"

fun pstep :: "pstate \<Rightarrow> token \<Rightarrow> pstate option" where
  "pstep (PVal fr) t = start_value fr t"
| "pstep (PArr0 fr) t =
     (if t = TRBrack then Some (PAfter (JArr []) fr) else start_value (FArr [] # fr) t)"
| "pstep (PObj0 fr) (TStr k) = Some (PColon [] k fr)"
| "pstep (PObj0 fr) TRBrace = Some (PAfter (JObj []) fr)"
| "pstep (PKey m fr) (TStr k) = Some (PColon m k fr)"
| "pstep (PColon m k fr) TColon = Some (PVal (FObj m k # fr))"
| "pstep (PAfter v (FArr vs # fr)) TComma = Some (PVal (FArr (vs @ [v]) # fr))"
| "pstep (PAfter v (FArr vs # fr)) TRBrack = Some (PAfter (JArr (vs @ [v])) fr)"
| "pstep (PAfter v (FObj m k # fr)) TComma = Some (PKey (m @ [(k, v)]) fr)"
| "pstep (PAfter v (FObj m k # fr)) TRBrace = Some (PAfter (JObj (m @ [(k, v)])) fr)"
| "pstep _ _ = None"

fun run_parser :: "pstate \<Rightarrow> token list \<Rightarrow> pstate option" where
  "run_parser st [] = Some st"
| "run_parser st (t # ts) =
     (case pstep st t of None \<Rightarrow> None | Some st' \<Rightarrow> run_parser st' ts)"

definition json_parse :: "string \<Rightarrow> json option" where
  "json_parse s =
     (case json_lex s of
        None \<Rightarrow> None
      | Some ts \<Rightarrow>
          (case run_parser (PVal []) ts of
             Some (PAfter v []) \<Rightarrow> Some v
           | _ \<Rightarrow> None))"

lemma run_parser_append:
  "run_parser st (us @ ts) =
     (case run_parser st us of None \<Rightarrow> None | Some st' \<Rightarrow> run_parser st' ts)"
  by (induction us arbitrary: st) (auto split: option.splits)

subsection \<open>The printers\<close>

definition nl_indent :: "bool \<Rightarrow> nat \<Rightarrow> string" where
  "nl_indent ind n = (if ind then newline # replicate (2 * n) CHR '' '' else [])"

fun json_show :: "bool \<Rightarrow> bool \<Rightarrow> nat \<Rightarrow> json \<Rightarrow> string" where
  "json_show html ind n JNull = ''null''"
| "json_show html ind n (JBool b) = (if b then ''true'' else ''false'')"
| "json_show html ind n (JNum l) = l"
| "json_show html ind n (JStr s) = json_quote html s"
| "json_show html ind n (JArr xs) =
     (if xs = [] then ''[]''
      else ''['' @ nl_indent ind (Suc n)
        @ join ('','' @ nl_indent ind (Suc n)) (map (json_show html ind (Suc n)) xs)
        @ nl_indent ind n @ '']'')"
| "json_show html ind n (JObj ms) =
     (if ms = [] then ''{}''
      else ''{'' @ nl_indent ind (Suc n)
        @ join ('','' @ nl_indent ind (Suc n))
            (map (\<lambda>(k, v). json_quote html k @ (if ind then '': '' else '':'') @ json_show html ind (Suc n) v) ms)
        @ nl_indent ind n @ ''}'')"

definition json_compact :: "json \<Rightarrow> string" where
  "json_compact v = json_show True False 0 v"

definition json_indent :: "json \<Rightarrow> string" where
  "json_indent v = json_show True True 0 v"

subsection \<open>Token sequences of values\<close>

fun toks :: "json \<Rightarrow> token list" where
  "toks JNull = [TNull]"
| "toks (JBool b) = [if b then TTrue else TFalse]"
| "toks (JNum l) = [TNum l]"
| "toks (JStr s) = [TStr s]"
| "toks (JArr xs) = TLBrack # join [TComma] (map toks xs) @ [TRBrack]"
| "toks (JObj ms) =
     TLBrace # join [TComma] (map (\<lambda>(k, v). TStr k # TColon # toks v) ms) @ [TRBrace]"

fun depth :: "json \<Rightarrow> nat" where
  "depth (JArr xs) = Suc (foldr max (map depth xs) 0)"
| "depth (JObj ms) = Suc (foldr max (map (\<lambda>(k, v). depth v) ms) 0)"
| "depth _ = 0"

lemma foldr_max_ge: "x \<in> set xs \<Longrightarrow> x \<le> foldr max xs (0::nat)"
  by (induction xs) auto

lemma toks_head: "\<exists>t ts. toks v = t # ts \<and> t \<noteq> TRBrack"
  by (cases v) auto

lemma run_elems:
  assumes "\<And>x acc. x \<in> set xs \<Longrightarrow>
      run_parser (PVal (FArr acc # fr)) (toks x) = Some (PAfter x (FArr acc # fr))"
  shows "run_parser (PAfter v (FArr vs # fr)) (concat (map (\<lambda>x. [TComma] @ toks x) xs) @ [TRBrack])
      = Some (PAfter (JArr (vs @ v # xs)) fr)"
  using assms
proof (induction xs arbitrary: v vs)
  case Nil
  then show ?case by simp
next
  case (Cons x xs)
  have "run_parser (PVal (FArr (vs @ [v]) # fr)) (toks x) = Some (PAfter x (FArr (vs @ [v]) # fr))"
    using Cons.prems by simp
  then show ?case
    using Cons by (simp add: run_parser_append)
qed

lemma run_members:
  assumes "\<And>k x m. (k, x) \<in> set ms \<Longrightarrow>
      run_parser (PVal (FObj m k # fr)) (toks x) = Some (PAfter x (FObj m k # fr))"
  shows "run_parser (PAfter v (FObj m k # fr))
        (concat (map (\<lambda>x. [TComma] @ (case x of (k, v) \<Rightarrow> TStr k # TColon # toks v)) ms) @ [TRBrace])
      = Some (PAfter (JObj (m @ (k, v) # ms)) fr)"
  using assms
proof (induction ms arbitrary: v m k)
  case Nil
  then show ?case by simp
next
  case (Cons a ms)
  obtain k' x where a: "a = (k', x)" by (cases a)
  have "run_parser (PVal (FObj (m @ [(k, v)]) k' # fr)) (toks x)
      = Some (PAfter x (FObj (m @ [(k, v)]) k' # fr))"
    using Cons.prems a by simp
  then show ?case
    using Cons a by (simp add: run_parser_append)
qed

lemma run_toks: "depth v + length fr \<le> max_depth \<Longrightarrow> run_parser (PVal fr) (toks v) = Some (PAfter v fr)"
proof (induction v arbitrary: fr)
  case (JArr xs)
  have el: "run_parser (PVal (FArr acc # fr)) (toks x) = Some (PAfter x (FArr acc # fr))"
    if "x \<in> set xs" for x acc
  proof -
    have "depth x \<le> foldr max (map depth xs) 0" using that by (simp add: foldr_max_ge)
    then show ?thesis using JArr that by simp
  qed
  show ?case
  proof (cases xs)
    case Nil
    then show ?thesis using JArr.prems by simp
  next
    case (Cons x xs')
    obtain t ts where t: "toks x = t # ts" "t \<noteq> TRBrack" using toks_head by blast
    have "run_parser (PArr0 fr) (toks x @ r) = run_parser (PVal (FArr [] # fr)) (toks x @ r)" for r
      using t by simp
    then have "run_parser (PArr0 fr) (toks x @ concat (map (\<lambda>x. [TComma] @ toks x) xs') @ [TRBrack])
        = run_parser (PAfter x (FArr [] # fr)) (concat (map (\<lambda>x. [TComma] @ toks x) xs') @ [TRBrack])"
      using el[of x "[]"] Cons by (simp add: run_parser_append)
    also have "\<dots> = Some (PAfter (JArr ([] @ x # xs')) fr)"
      using el Cons by (intro run_elems) simp
    finally show ?thesis
      using Cons JArr.prems by (simp add: join_concat o_def)
  qed
next
  case (JObj ms)
  have el: "run_parser (PVal (FObj m k # fr)) (toks x) = Some (PAfter x (FObj m k # fr))"
    if "(k, x) \<in> set ms" for k x m
  proof -
    have "depth x \<in> set (map (\<lambda>(k, v). depth v) ms)" using that by force
    then have "depth x \<le> foldr max (map (\<lambda>(k, v). depth v) ms) 0" by (rule foldr_max_ge)
    then show ?thesis using JObj.IH[OF that, of x] JObj.prems by simp
  qed
  show ?case
  proof (cases ms)
    case Nil
    then show ?thesis using JObj.prems by simp
  next
    case (Cons a ms')
    obtain k x where a: "a = (k, x)" by (cases a)
    let ?rest = "concat (map (\<lambda>x. [TComma] @ (case x of (k, v) \<Rightarrow> TStr k # TColon # toks v)) ms') @ [TRBrace]"
    have "run_parser (PObj0 fr) (TStr k # TColon # toks x @ ?rest)
        = run_parser (PAfter x (FObj [] k # fr)) ?rest"
      using el[of k x "[]"] Cons a by (simp add: run_parser_append)
    also have "\<dots> = Some (PAfter (JObj ([] @ (k, x) # ms')) fr)"
      using el Cons by (intro run_members) simp
    finally show ?thesis
      using Cons a JObj.prems by (simp add: join_concat o_def)
  qed
qed simp_all

subsection \<open>Lexing what the printers write\<close>

fun wf_json :: "json \<Rightarrow> bool" where
  "wf_json (JNum l) = (lex_num l = Some (l, []))"
| "wf_json (JStr s) = valid_utf8 s"
| "wf_json (JArr xs) = (\<forall>x \<in> set xs. wf_json x)"
| "wf_json (JObj ms) = (\<forall>(k, v) \<in> set ms. valid_utf8 k \<and> wf_json v)"
| "wf_json _ = True"

definition num_char :: "char \<Rightarrow> bool" where
  "num_char c \<longleftrightarrow> is_digit c \<or> c = CHR ''.'' \<or> c = CHR ''e'' \<or> c = CHR ''E''"

definition term_ok :: "string \<Rightarrow> bool" where
  "term_ok r \<longleftrightarrow> r = [] \<or> \<not> num_char (hd r)"

lemma digits_drop:
  assumes "term_ok r"
  shows "takeWhile is_digit (u @ r) = takeWhile is_digit u"
    and "dropWhile is_digit (u @ r) = dropWhile is_digit u @ r"
proof -
  have "takeWhile is_digit r = []" "dropWhile is_digit r = r"
    using assms by (cases r; auto simp: term_ok_def num_char_def)+
  then show "takeWhile is_digit (u @ r) = takeWhile is_digit u"
    "dropWhile is_digit (u @ r) = dropWhile is_digit u @ r"
    by (induction u) simp_all
qed

lemma lex_exp_append:
  assumes "lex_exp acc s = Some (l, [])" "term_ok r"
  shows "lex_exp acc (s @ r) = Some (l, r)"
proof (cases s)
  case Nil
  then show ?thesis
    using assms by (cases r) (auto simp: lex_exp_def term_ok_def num_char_def)
next
  case (Cons c t)
  with assms(1) have "t \<noteq> []" "c = CHR ''e'' \<or> c = CHR ''E''"
    by (auto simp: lex_exp_def Let_def split: if_splits)
  then show ?thesis
    using assms Cons
    by (cases t) (auto simp: lex_exp_def Let_def digits_drop digits_drop[OF assms(2), of "_ # _", simplified]
      split: if_splits)
qed

lemma lex_frac_append:
  assumes "lex_frac acc s = Some (l, [])" "term_ok r"
  shows "lex_frac acc (s @ r) = Some (l, r)"
proof (cases s)
  case Nil
  then show ?thesis
    using assms lex_exp_append[of acc "[]" acc r]
    by (cases r) (auto simp: lex_frac_def lex_exp_def term_ok_def num_char_def)
next
  case (Cons c t)
  show ?thesis
  proof (cases "c = CHR ''.''")
    case True
    then show ?thesis
      using assms Cons lex_exp_append[of _ "dropWhile is_digit t" l r]
      by (auto simp: lex_frac_def Let_def digits_drop split: if_splits)
  next
    case False
    then show ?thesis
      using assms Cons lex_exp_append[of acc s l r] by (auto simp: lex_frac_def)
  qed
qed

lemma lex_num_append:
  assumes "lex_num s = Some (l, [])" "term_ok r"
  shows "lex_num (s @ r) = Some (l, r)"
proof -
  define k where "k = length (if s \<noteq> [] \<and> hd s = CHR ''-'' then ''-'' else [])"
  obtain c t where ct: "drop k s = c # t"
    using assms(1) by (cases "drop k s") (simp_all add: lex_num_def Let_def k_def)
  then have s: "s \<noteq> []" by auto
  have kl: "k \<le> length s" using s by (cases s) (auto simp: k_def)
  have sg: "(if s @ r \<noteq> [] \<and> hd (s @ r) = CHR ''-'' then ''-'' else [])
      = (if s \<noteq> [] \<and> hd s = CHR ''-'' then ''-'' else [])"
    using s by simp
  have d: "drop k (s @ r) = c # t @ r" using kl ct by simp
  show ?thesis
    using assms(1) ct d
    by (auto simp: lex_num_def Let_def sg[simplified] k_def[symmetric] digits_drop[OF assms(2), of "_ # _", simplified]
        digits_drop[OF assms(2)] lex_frac_append[OF _ assms(2)] simp del: drop_append split: if_splits)
qed

lemma lex_num_head: "lex_num l = Some r \<Longrightarrow> \<exists>c u. l = c # u \<and> (c = CHR ''-'' \<or> is_digit c)"
  by (cases l) (auto simp: lex_num_def Let_def is_digit_def split: if_splits)

definition lexes :: "string \<Rightarrow> token list \<Rightarrow> bool" where
  "lexes s ts \<longleftrightarrow> (\<forall>r. term_ok r \<longrightarrow> json_lex (s @ r) = map_option ((@) ts) (json_lex r))"

lemma lexesD: "lexes s ts \<Longrightarrow> term_ok r \<Longrightarrow> json_lex (s @ r) = map_option ((@) ts) (json_lex r)"
  by (simp add: lexes_def)

lemma lex_punct:
  "json_lex (CHR ''{'' # r) = tok_cons TLBrace (json_lex r)"
  "json_lex (CHR ''}'' # r) = tok_cons TRBrace (json_lex r)"
  "json_lex (CHR ''['' # r) = tok_cons TLBrack (json_lex r)"
  "json_lex (CHR '']'' # r) = tok_cons TRBrack (json_lex r)"
  "json_lex (CHR '','' # r) = tok_cons TComma (json_lex r)"
  "json_lex (CHR '':'' # r) = tok_cons TColon (json_lex r)"
  by (subst json_lex.simps, simp add: is_json_space_def)+

lemma lex_space: "is_json_space c \<Longrightarrow> json_lex (c # r) = json_lex r"
  by (subst json_lex.simps) simp

lemma lex_nl_indent: "json_lex (nl_indent ind n @ r) = json_lex r"
proof -
  have "json_lex (replicate k CHR '' '' @ r) = json_lex r" for k
    by (induction k) (simp_all add: lex_space is_json_space_def)
  then show ?thesis by (simp add: nl_indent_def lex_space is_json_space_def)
qed

lemma term_ok_punct [simp]:
  "term_ok (CHR '']'' # r)" "term_ok (CHR ''}'' # r)" "term_ok (CHR '','' # r)"
  "term_ok (CHR '':'' # r)" "term_ok (newline # r)" "term_ok []"
  by (simp_all add: term_ok_def num_char_def is_digit_def)

lemma term_ok_nl: "term_ok r \<Longrightarrow> term_ok (nl_indent ind n @ r)"
  by (simp add: nl_indent_def)

lemma lex_quote: "valid_utf8 s \<Longrightarrow> json_lex (json_quote html s @ r) = tok_cons (TStr s) (json_lex r)"
  by (subst json_lex.simps)
    (simp add: json_quote_def is_json_space_def lex_raw_quote_body unquote_quote_body)

lemma tok_cons_map: "tok_cons t (map_option ((@) ts) r) = map_option ((@) (t # ts)) r"
  by (cases r) (simp_all add: tok_cons_def)

lemma tok_cons_eq: "tok_cons t r = map_option ((@) [t]) r"
  by (cases r) (simp_all add: tok_cons_def)

lemma map_append_append: "map_option ((@) us) (map_option ((@) ts) r) = map_option ((@) (us @ ts)) r"
  by (cases r) simp_all

lemma map_append_Nil: "map_option ((@) []) r = r"
  by (cases r) simp_all

lemma lexes_join:
  assumes "\<And>x. x \<in> set xs \<Longrightarrow> lexes (f x) (g x)"
    and "\<And>r. json_lex (w @ r) = json_lex r"
  shows "lexes (join ('','' @ w) (map f xs)) (join [TComma] (map g xs))"
  using assms(1)
proof (induction xs)
  case Nil
  show ?case by (simp add: lexes_def map_append_Nil)
next
  case (Cons x xs)
  show ?case
  proof (cases xs)
    case Nil
    then show ?thesis using Cons by simp
  next
    case (Cons y ys)
    have x: "lexes (f x) (g x)" using Cons.prems by simp
    have xs: "lexes (join ('','' @ w) (map f xs)) (join [TComma] (map g xs))"
      using Cons.IH Cons.prems by simp
    have "json_lex (f x @ CHR '','' # w @ join ('','' @ w) (map f xs) @ r)
        = map_option ((@) (g x @ TComma # join [TComma] (map g xs))) (json_lex r)" if "term_ok r" for r
      using lexesD[OF x, of "CHR '','' # w @ join ('','' @ w) (map f xs) @ r"] lexesD[OF xs that]
      by (simp add: lex_punct assms(2) tok_cons_map map_append_append)
    then show ?thesis
      using Cons by (simp add: lexes_def join_Cons)
  qed
qed

lemma lex_keyword:
  "json_lex (''true'' @ r) = tok_cons TTrue (json_lex r)"
  "json_lex (''false'' @ r) = tok_cons TFalse (json_lex r)"
  "json_lex (''null'' @ r) = tok_cons TNull (json_lex r)"
  by (subst json_lex.simps, simp add: is_json_space_def)+

lemma lex_number:
  assumes "lex_num l = Some (l, [])" "term_ok r"
  shows "json_lex (l @ r) = tok_cons (TNum l) (json_lex r)"
proof -
  obtain c u where l: "l = c # u" "c = CHR ''-'' \<or> is_digit c"
    using lex_num_head[OF assms(1)] by auto
  then have "\<not> is_json_space c" "c \<notin> set ''{}[],:''" "c \<noteq> quote"
      "CHR ''t'' \<noteq> c" "CHR ''f'' \<noteq> c" "CHR ''n'' \<noteq> c"
    by (auto simp: is_digit_def is_json_space_def)
  then show ?thesis
    using lex_num_append[OF assms] l by (subst json_lex.simps) simp
qed

lemma lexes_show: "wf_json v \<Longrightarrow> lexes (json_show html ind n v) (toks v)"
proof (induction v arbitrary: n)
  case JNull
  show ?case using lex_keyword(3) by (simp add: lexes_def tok_cons_eq)
next
  case (JBool b)
  show ?case using lex_keyword(1,2) by (simp add: lexes_def tok_cons_eq)
next
  case (JNum l)
  then show ?case by (simp add: lexes_def lex_number tok_cons_eq)
next
  case (JStr s)
  then show ?case by (simp add: lexes_def lex_quote tok_cons_eq)
next
  case (JArr xs)
  have j: "lexes (join ('','' @ nl_indent ind (Suc n)) (map (json_show html ind (Suc n)) xs))
      (join [TComma] (map toks xs))"
    using JArr by (intro lexes_join) (auto simp: lex_nl_indent)
  show ?case
    using lexesD[OF j] JArr
    by (simp add: lexes_def lex_punct lex_nl_indent term_ok_nl tok_cons_eq map_append_append)
next
  case (JObj ms)
  let ?f = "\<lambda>(k, v). json_quote html k @ (if ind then '': '' else '':'') @ json_show html ind (Suc n) v"
  let ?g = "\<lambda>(k, v). TStr k # TColon # toks v"
  have m: "lexes (?f x) (?g x)" if "x \<in> set ms" for x
  proof -
    obtain k v where x: "x = (k, v)" by (cases x)
    with that JObj have k: "valid_utf8 k" and v: "lexes (json_show html ind (Suc n) v) (toks v)" by auto
    show ?thesis
      using x k lexesD[OF v]
      by (cases ind)
        (simp_all add: lexes_def lex_quote lex_punct lex_space is_json_space_def tok_cons_eq map_append_append)
  qed
  have j: "lexes (join ('','' @ nl_indent ind (Suc n)) (map ?f ms)) (join [TComma] (map ?g ms))"
    using m by (intro lexes_join) (auto simp: lex_nl_indent)
  show ?case
    using lexesD[OF j] JObj.prems
    by (simp add: lexes_def lex_punct lex_nl_indent term_ok_nl tok_cons_eq map_append_append)
qed

subsection \<open>The round trips\<close>

lemma json_parse_show:
  assumes "wf_json v" "depth v \<le> max_depth"
  shows "json_parse (json_show html ind 0 v) = Some v"
proof -
  have "json_lex [] = Some []" by (subst json_lex.simps) simp
  then have "json_lex (json_show html ind 0 v) = Some (toks v)"
    using lexesD[OF lexes_show[OF assms(1), of html ind 0], of "[]"] by simp
  then show ?thesis
    using run_toks[of v "[]"] assms(2) by (simp add: json_parse_def)
qed

lemma json_parse_compact: "wf_json v \<Longrightarrow> depth v \<le> max_depth \<Longrightarrow> json_parse (json_compact v) = Some v"
  by (simp add: json_compact_def json_parse_show)

lemma json_parse_indent: "wf_json v \<Longrightarrow> depth v \<le> max_depth \<Longrightarrow> json_parse (json_indent v) = Some v"
  by (simp add: json_indent_def json_parse_show)

end
