(* ===== verification/Float64.thy ===== *)
theory Float64
  imports Complex_Main GoStrings
begin

section \<open>64-bit floating point\<close>

text \<open>
  Finite float64 values are the rationals they stand for. \<open>f64\<close> rounds a rational to the nearest
  value with a 53-bit significand and a quantum of at least 2^-1074, ties to even, as IEEE 754 and Go
  do after every operation. Infinities and NaN have no place here: the code computes with sizes,
  percentages and timestamps only, where they do not arise. \<open>parse_float\<close> is \<^verbatim>\<open>strconv.ParseFloat\<close> on
  decimal literals; the hexadecimal, underscore, Inf and NaN spellings, which neither JSON nor the
  Nginx log format produces, count as syntax errors. \<open>fixed1\<close> is \<^verbatim>\<open>fmt.Sprintf("%.1f", x)\<close>.
\<close>

definition round_even :: "rat \<Rightarrow> int" where
  "round_even r =
     (let f = \<lfloor>r\<rfloor>; d = r - of_int f in
      if d < 1 / 2 then f else if d > 1 / 2 then f + 1 else if even f then f else f + 1)"

function ilog2 :: "int \<Rightarrow> nat" where
  "ilog2 n = (if n \<le> 1 then 0 else Suc (ilog2 (n div 2)))"
  by pat_completeness auto
termination by (relation "measure nat") auto

declare ilog2.simps [simp del]

text \<open>The exponent of the leading binary digit of a positive rational.\<close>

definition bin_exp :: "rat \<Rightarrow> int" where
  "bin_exp r =
     (let (a, b) = quotient_of r; e = int (ilog2 a) - int (ilog2 b) in
      if r < 2 powi e then e - 1 else e)"

definition f64 :: "rat \<Rightarrow> rat" where
  "f64 r =
     (if r = 0 then 0
      else let q = max (bin_exp \<bar>r\<bar> - 52) (- 1074) in of_int (round_even (r / 2 powi q)) * 2 powi q)"

definition f64_max :: rat where
  "f64_max = (2 ^ 53 - 1) * 2 ^ 971"

subsection \<open>ParseFloat on decimal literals\<close>

definition digits_val :: "string \<Rightarrow> int" where
  "digits_val ds = foldl (\<lambda>n c. 10 * n + int (code c - 48)) 0 ds"

text \<open>An optional exponent part: \<open>None\<close> where it is malformed.\<close>

definition exponent_of :: "string \<Rightarrow> int option" where
  "exponent_of s =
     (case s of
        [] \<Rightarrow> Some 0
      | c # t \<Rightarrow>
          if c = CHR ''e'' \<or> c = CHR ''E'' then
            let neg = (t \<noteq> [] \<and> hd t = CHR ''-'');
                u = (if t \<noteq> [] \<and> (hd t = CHR ''+'' \<or> hd t = CHR ''-'') then tl t else t)
            in if u = [] \<or> \<not> list_all is_digit u then None
               else Some (if neg then - digits_val u else digits_val u)
          else None)"

definition decimal_value :: "string \<Rightarrow> rat option" where
  "decimal_value s =
     (let neg = (s \<noteq> [] \<and> hd s = CHR ''-'');
          u = (if s \<noteq> [] \<and> (hd s = CHR ''+'' \<or> hd s = CHR ''-'') then tl s else s);
          ip = takeWhile is_digit u;
          v = dropWhile is_digit u;
          fp = (if v \<noteq> [] \<and> hd v = CHR ''.'' then takeWhile is_digit (tl v) else []);
          w = (if v \<noteq> [] \<and> hd v = CHR ''.'' then dropWhile is_digit (tl v) else v)
      in if ip = [] \<and> fp = [] then None
         else
           (case exponent_of w of
              None \<Rightarrow> None
            | Some e \<Rightarrow>
                let m = rat_of_int (digits_val (ip @ fp));
                    k = e - int (length fp);
                    x = (if k \<ge> 0 then m * 10 ^ nat k else m / 10 ^ nat (- k))
                in Some (if neg then - x else x)))"

definition parse_float :: "string \<Rightarrow> rat \<times> num_err option" where
  "parse_float s =
     (case decimal_value s of
        None \<Rightarrow> (0, Some ErrSyntax)
      | Some x \<Rightarrow> if \<bar>f64 x\<bar> > f64_max then (f64 x, Some ErrRange) else (f64 x, None))"

subsection \<open>Printing with one decimal\<close>

definition fixed1 :: "rat \<Rightarrow> string" where
  "fixed1 x =
     (let n = nat (round_even (\<bar>x\<bar> * 10)) in
      (if x < 0 then ''-'' else []) @ nat_str (n div 10) @ ''.'' @ nat_str (n mod 10))"

text \<open>Truncation toward zero, as the conversion \<^verbatim>\<open>int64(x)\<close>.\<close>

definition trunc :: "rat \<Rightarrow> int" where
  "trunc x = (if x \<ge> 0 then \<lfloor>x\<rfloor> else - \<lfloor>- x\<rfloor>)"

subsection \<open>Rounding never crosses an integer\<close>

lemma round_even_le: "r \<le> of_int n \<Longrightarrow> round_even r \<le> n"
  by (auto simp: round_even_def Let_def) (linarith | simp add: floor_le_iff)+

lemma round_even_ge: "of_int n \<le> r \<Longrightarrow> n \<le> round_even r"
proof -
  assume "of_int n \<le> r"
  then have "n \<le> \<lfloor>r\<rfloor>" by (simp add: le_floor_iff)
  then show ?thesis by (auto simp: round_even_def Let_def)
qed

lemma ilog2_bounds: "0 < n \<Longrightarrow> 2 ^ ilog2 n \<le> n \<and> n < 2 ^ Suc (ilog2 n)"
proof (induction n rule: ilog2.induct)
  case (1 n)
  show ?case
  proof (cases "n \<le> 1")
    case True
    then show ?thesis using 1 by (simp add: ilog2.simps[of n])
  next
    case False
    then have "2 ^ ilog2 (n div 2) \<le> n div 2 \<and> n div 2 < 2 ^ Suc (ilog2 (n div 2))"
      using 1 by simp
    then have "2 * 2 ^ ilog2 (n div 2) \<le> n" "n < 2 * 2 ^ Suc (ilog2 (n div 2))" by linarith+
    then show ?thesis using False by (simp add: ilog2.simps[of n])
  qed
qed

lemma bin_exp_le:
  assumes "0 < r"
  shows "2 powi (bin_exp r) \<le> r"
proof -
  obtain a b where q: "quotient_of r = (a, b)" by fastforce
  then have b: "0 < b" and r: "r = of_int a / of_int b"
    using quotient_of_denom_pos quotient_of_div by blast+
  then have a: "0 < a" using assms by (simp add: zero_less_divide_iff)
  let ?la = "ilog2 a" and ?lb = "ilog2 b"
  have "2 ^ ?la \<le> a" "b < 2 ^ Suc ?lb" using ilog2_bounds[of a] ilog2_bounds[of b] a b by auto
  then have la: "2 ^ ?la \<le> rat_of_int a" and lb: "rat_of_int b \<le> 2 ^ Suc ?lb"
    by (metis of_int_le_iff of_int_power of_int_numeral, metis less_imp_le of_int_le_iff of_int_power of_int_numeral)
  have "(2::rat) powi (int ?la - int ?lb - 1) = 2 ^ ?la / 2 ^ Suc ?lb"
    using power_int_diff[of "2::rat" "int ?la" "int (Suc ?lb)"] power_int_of_nat[of "2::rat" "Suc ?lb"]
    by (simp del: power_int_of_nat add: diff_diff_eq) (simp add: add.commute)
  also have "\<dots> \<le> rat_of_int a / rat_of_int b"
    using la lb a b by (intro frac_le) auto
  finally have "(2::rat) powi (int ?la - int ?lb - 1) \<le> r" by (simp add: r)
  then show ?thesis by (auto simp: bin_exp_def q not_less Let_def)
qed

lemma f64_nonneg: "0 \<le> r \<Longrightarrow> 0 \<le> f64 r"
  using round_even_ge[of 0] by (simp add: f64_def Let_def)

text \<open>A value that is at most an integer (of at most 53 bits) does not exceed it after rounding.\<close>

lemma f64_le_nat:
  assumes "0 \<le> r" "r \<le> of_nat n" "n \<le> 2 ^ 52"
  shows "f64 r \<le> of_nat n"
proof (cases "r = 0")
  case True
  then show ?thesis by (simp add: f64_def)
next
  case False
  with assms(1) have r: "0 < r" by simp
  let ?q = "max (bin_exp r - 52) (- 1074)"
  have "(2::rat) powi (bin_exp r) \<le> 2 ^ 52"
    using bin_exp_le[OF r] assms(2,3) by (metis of_nat_le_iff of_nat_numeral of_nat_power order.trans)
  then have "(2::rat) powi (bin_exp r) \<le> 2 powi 52" by simp
  then have "bin_exp r \<le> 52" by (rule power_int_le_imp_le_exp[rotated]) auto
  then have "?q \<le> 0" by simp
  then obtain k where k: "?q = - int k" by (metis add.inverse_inverse neg_0_le_iff_le nonneg_int_cases)
  have "r / 2 powi ?q \<le> of_int (int n * 2 ^ k)"
    using assms(2) by (simp add: k power_int_minus field_simps)
  then have "round_even (r / 2 powi ?q) \<le> int n * 2 ^ k" by (rule round_even_le)
  then have "rat_of_int (round_even (r / 2 powi ?q)) \<le> rat_of_int (int n * 2 ^ k)"
    by (simp only: of_int_le_iff)
  then have "rat_of_int (round_even (r / 2 powi ?q)) \<le> of_nat n * 2 ^ k" by simp
  then have "rat_of_int (round_even (r / 2 powi ?q)) * 2 powi ?q \<le> of_nat n * 2 ^ k * 2 powi ?q"
    by (intro mult_right_mono) auto
  also have "\<dots> = of_nat n" by (simp add: k power_int_minus)
  finally show ?thesis using False r by (simp add: f64_def Let_def)
qed

lemma round_even_of_int [simp]: "round_even (of_int n) = n"
  by (simp add: round_even_def Let_def)

text \<open>Integers of at most 53 bits are exact.\<close>

lemma f64_of_nat:
  assumes "n < 2 ^ 53"
  shows "f64 (of_nat n) = of_nat n"
proof (cases "n = 0")
  case True
  then show ?thesis by (simp add: f64_def)
next
  case False
  then have r: "0 < rat_of_nat n" by simp
  let ?q = "max (bin_exp (of_nat n) - 52) (- 1074)"
  have "(2::rat) powi (bin_exp (of_nat n)) < 2 ^ 53"
    using bin_exp_le[OF r] assms by (metis of_nat_less_iff of_nat_numeral of_nat_power order.strict_trans1)
  then have "(2::rat) powi (bin_exp (of_nat n)) < 2 powi 53" by simp
  then have "bin_exp (of_nat n) < 53" by (rule power_int_le_imp_less_exp[rotated]) auto
  then have "?q \<le> 0" by simp
  then obtain k where k: "?q = - int k" by (metis add.inverse_inverse neg_0_le_iff_le nonneg_int_cases)
  have "of_nat n / 2 powi ?q = rat_of_int (int n * 2 ^ k)" by (simp add: k power_int_minus field_simps)
  then have "round_even (of_nat n / 2 powi ?q) = int n * 2 ^ k" by (simp only: round_even_of_int)
  then have "f64 (of_nat n) = rat_of_int (int n * 2 ^ k) * 2 powi ?q"
    using False by (simp add: f64_def Let_def)
  also have "\<dots> = of_nat n" by (simp add: k power_int_minus)
  finally show ?thesis .
qed

end
