(* ===== verification/JsonDecode.thy ===== *)
theory JsonDecode
  imports JsonParse Float64
begin

section \<open>Decoding JSON values into Go structs\<close>

text \<open>
  What \<^verbatim>\<open>json.Unmarshal\<close> does after its syntax check, for the types the agent decodes: strings,
  booleans, 64-bit integers, slices and structs. A decoder gets the value and what the target holds
  already, because decoding is in place: \<^verbatim>\<open>null\<close> leaves a non-pointer alone, a repeated key decodes
  into the same field again, and an array decodes into the elements a slice already has. A type
  mismatch anywhere makes \<^verbatim>\<open>Unmarshal\<close> return an error, here \<open>None\<close>; the agent never uses a value that
  came with an error. Not modelled: the elements that a third occurrence of the same key could pick
  up from the unused capacity of a slice.
\<close>

type_synonym 'a decoder = "json \<Rightarrow> 'a \<Rightarrow> 'a option"

text \<open>A slice: \<open>None\<close> is nil.\<close>

type_synonym 'a slice = "'a list option"

definition elems :: "'a slice \<Rightarrow> 'a list" where
  "elems s = (case s of None \<Rightarrow> [] | Some xs \<Rightarrow> xs)"

definition slice_append :: "'a slice \<Rightarrow> 'a list \<Rightarrow> 'a slice" where
  "slice_append s ys = (if ys = [] then s else Some (elems s @ ys))"

lemma elems_simps [simp]: "elems None = []" "elems (Some xs) = xs"
  by (simp_all add: elems_def)

lemma elems_append [simp]: "elems (slice_append s ys) = elems s @ ys"
  by (simp add: slice_append_def)

subsection \<open>Field names\<close>

text \<open>
  The folding of \<^verbatim>\<open>encoding/json\<close>: upper case for ASCII, and the two characters whose case orbit
  contains an ASCII letter, U+212A (KELVIN SIGN) and U+017F (LONG S). All other bytes are kept: they
  never fold to a field name of the agent, which are all ASCII.
\<close>

definition to_upper :: "char \<Rightarrow> char" where
  "to_upper c = (if 97 \<le> code c \<and> code c \<le> 122 then char_of (code c - 32) else c)"

fun fold_name :: "string \<Rightarrow> string" where
  "fold_name [] = []"
| "fold_name (a # s) =
     (case s of
        b # c # t \<Rightarrow>
          if a = CHR 0xE2 \<and> b = CHR 0x84 \<and> c = CHR 0xAA then CHR ''K'' # fold_name t
          else if a = CHR 0xC5 \<and> b = CHR 0xBF then CHR ''S'' # fold_name (c # t)
          else to_upper a # fold_name (b # c # t)
      | [b] \<Rightarrow> if a = CHR 0xC5 \<and> b = CHR 0xBF then [CHR ''S''] else [to_upper a, to_upper b]
      | [] \<Rightarrow> [to_upper a])"

type_synonym 's fields = "(string \<times> 's decoder) list"

definition find_field :: "'s fields \<Rightarrow> string \<Rightarrow> 's decoder option" where
  "find_field fs k =
     (case map_of fs k of
        Some d \<Rightarrow> Some d
      | None \<Rightarrow> map_of (map (\<lambda>(n, d). (fold_name n, d)) fs) (fold_name k))"

definition field :: "string \<Rightarrow> 'a decoder \<Rightarrow> ('s \<Rightarrow> 'a) \<Rightarrow> (('a \<Rightarrow> 'a) \<Rightarrow> 's \<Rightarrow> 's) \<Rightarrow> string \<times> 's decoder" where
  "field n d get upd = (n, \<lambda>j s. map_option (\<lambda>v. upd (\<lambda>_. v) s) (d j (get s)))"

subsection \<open>Decoders\<close>

definition dec_string :: "string decoder" where
  "dec_string j old = (case j of JStr s \<Rightarrow> Some s | JNull \<Rightarrow> Some old | _ \<Rightarrow> None)"

definition dec_bool :: "bool decoder" where
  "dec_bool j old = (case j of JBool b \<Rightarrow> Some b | JNull \<Rightarrow> Some old | _ \<Rightarrow> None)"

definition dec_int :: "int decoder" where
  "dec_int j old =
     (case j of
        JNum l \<Rightarrow> (case parse_int l of (v, None) \<Rightarrow> Some v | (_, Some _) \<Rightarrow> None)
      | JNull \<Rightarrow> Some old
      | _ \<Rightarrow> None)"

text \<open>Unsigned 64-bit integers and floats: an out-of-range literal is a type error.\<close>

definition dec_u64 :: "u64 decoder" where
  "dec_u64 j old =
     (case j of
        JNum l \<Rightarrow> (case parse_uint l of (v, None) \<Rightarrow> Some (word_of_int v) | (_, Some _) \<Rightarrow> None)
      | JNull \<Rightarrow> Some old
      | _ \<Rightarrow> None)"

definition dec_float :: "rat decoder" where
  "dec_float j old =
     (case j of
        JNum l \<Rightarrow> (case parse_float l of (v, None) \<Rightarrow> Some v | (_, Some _) \<Rightarrow> None)
      | JNull \<Rightarrow> Some old
      | _ \<Rightarrow> None)"

text \<open>\<^verbatim>\<open>json.RawMessage\<close> keeps the value as it is.\<close>

definition dec_raw :: "json decoder" where
  "dec_raw j old = Some j"

fun dec_elems :: "'a \<Rightarrow> 'a decoder \<Rightarrow> json list \<Rightarrow> 'a list \<Rightarrow> 'a list option" where
  "dec_elems zero d [] old = Some []"
| "dec_elems zero d (j # js) old =
     (case d j (if old = [] then zero else hd old) of
        None \<Rightarrow> None
      | Some v \<Rightarrow> map_option ((#) v) (dec_elems zero d js (tl old)))"

definition dec_slice :: "'a \<Rightarrow> 'a decoder \<Rightarrow> 'a slice decoder" where
  "dec_slice zero d j old =
     (case j of
        JArr js \<Rightarrow> map_option Some (dec_elems zero d js (elems old))
      | JNull \<Rightarrow> Some None
      | _ \<Rightarrow> None)"

text \<open>
  A map with string keys, as the list of its entries in the order the keys were first set; nil is the empty
  list. Every element is decoded from the zero value, and a repeated key replaces the entry.
\<close>

fun map_put :: "string \<Rightarrow> 'a \<Rightarrow> (string \<times> 'a) list \<Rightarrow> (string \<times> 'a) list" where
  "map_put k v [] = [(k, v)]"
| "map_put k v ((k', v') # m) = (if k' = k then (k, v) # m else (k', v') # map_put k v m)"

fun dec_entries :: "'a \<Rightarrow> 'a decoder \<Rightarrow> (string \<times> json) list \<Rightarrow> (string \<times> 'a) list \<Rightarrow> (string \<times> 'a) list option" where
  "dec_entries zero d [] m = Some m"
| "dec_entries zero d ((k, j) # ms) m =
     (case d j zero of None \<Rightarrow> None | Some v \<Rightarrow> dec_entries zero d ms (map_put k v m))"

definition dec_map :: "'a \<Rightarrow> 'a decoder \<Rightarrow> (string \<times> 'a) list decoder" where
  "dec_map zero d j old =
     (case j of JObj ms \<Rightarrow> dec_entries zero d ms old | JNull \<Rightarrow> Some [] | _ \<Rightarrow> None)"

fun dec_members :: "'s fields \<Rightarrow> (string \<times> json) list \<Rightarrow> 's \<Rightarrow> 's option" where
  "dec_members fs [] s = Some s"
| "dec_members fs ((k, j) # ms) s =
     (case find_field fs k of
        None \<Rightarrow> dec_members fs ms s
      | Some d \<Rightarrow> (case d j s of None \<Rightarrow> None | Some s' \<Rightarrow> dec_members fs ms s'))"

definition dec_struct :: "'s fields \<Rightarrow> 's decoder" where
  "dec_struct fs j old =
     (case j of JObj ms \<Rightarrow> dec_members fs ms old | JNull \<Rightarrow> Some old | _ \<Rightarrow> None)"

text \<open>\<^verbatim>\<open>json.Unmarshal\<close> into a fresh variable with the given decoder.\<close>

definition json_error :: go_error where
  "json_error = OsErr ''encoding/json''"

definition unmarshal :: "'a decoder \<Rightarrow> 'a \<Rightarrow> string \<Rightarrow> 'a res" where
  "unmarshal d zero s =
     (case json_parse s of
        None \<Rightarrow> Inl json_error
      | Some j \<Rightarrow> (case d j zero of None \<Rightarrow> Inl json_error | Some v \<Rightarrow> Inr v))"

text \<open>
  \<^verbatim>\<open>json.Decoder.Decode\<close> reads the first value of a stream and ignores what follows it. The shortest
  prefix that is a value is that value, except for a number, of which it can be the first digits; no
  target of the agent accepts a number there.
\<close>

definition first_value :: "string \<Rightarrow> json option" where
  "first_value s =
     (case filter (\<lambda>v. v \<noteq> None) (map (\<lambda>n. json_parse (take n s)) [0..<Suc (length s)]) of
        [] \<Rightarrow> None
      | v # _ \<Rightarrow> v)"

definition decode_stream :: "'a decoder \<Rightarrow> 'a \<Rightarrow> string \<Rightarrow> 'a res" where
  "decode_stream d zero s =
     (case first_value s of
        None \<Rightarrow> Inl json_error
      | Some j \<Rightarrow> (case d j zero of None \<Rightarrow> Inl json_error | Some v \<Rightarrow> Inr v))"

subsection \<open>Encoding\<close>

definition enc_slice :: "('a \<Rightarrow> json) \<Rightarrow> 'a slice \<Rightarrow> json" where
  "enc_slice f s = (case s of None \<Rightarrow> JNull | Some xs \<Rightarrow> JArr (map f xs))"

definition enc_int :: "int \<Rightarrow> json" where
  "enc_int i = JNum (int_str i)"

text \<open>A struct field with \<^verbatim>\<open>omitempty\<close>.\<close>

definition omit_empty :: "bool \<Rightarrow> string \<Rightarrow> json \<Rightarrow> (string \<times> json) list" where
  "omit_empty omit k j = (if omit then [] else [(k, j)])"

subsection \<open>Decoding what was encoded\<close>

lemma dec_string_enc [simp]: "dec_string (JStr s) old = Some s"
  by (simp add: dec_string_def)

lemma dec_bool_enc [simp]: "dec_bool (JBool b) old = Some b"
  by (simp add: dec_bool_def)

lemma dec_elems_enc:
  "\<forall>x \<in> set xs. d (f x) zero = Some x \<Longrightarrow> dec_elems zero d (map f xs) [] = Some xs"
  by (induction xs) auto

lemma dec_slice_enc:
  "\<forall>x \<in> set (elems s). d (f x) zero = Some x \<Longrightarrow> dec_slice zero d (enc_slice f s) None = Some s"
  by (cases s) (simp_all add: dec_slice_def enc_slice_def dec_elems_enc)

lemma dec_struct_obj [simp]: "dec_struct fs (JObj ms) old = dec_members fs ms old"
  by (simp add: dec_struct_def)

lemma find_field_exact: "map_of fs k = Some d \<Longrightarrow> find_field fs k = Some d"
  by (simp add: find_field_def)

text \<open>An object without any key of the struct decodes to what was there.\<close>

lemma dec_members_unknown:
  "\<forall>k \<in> fst ` set ms. find_field fs k = None \<Longrightarrow> dec_members fs ms s = Some s"
  by (induction ms) auto

lemma unmarshal_indent:
  "wf_json j \<Longrightarrow> depth j \<le> max_depth \<Longrightarrow> d j zero = Some v \<Longrightarrow> unmarshal d zero (json_indent j) = Inr v"
  by (simp add: unmarshal_def json_parse_indent)

lemma unmarshal_compact:
  "wf_json j \<Longrightarrow> depth j \<le> max_depth \<Longrightarrow> d j zero = Some v \<Longrightarrow> unmarshal d zero (json_compact j) = Inr v"
  by (simp add: unmarshal_def json_parse_compact)

subsection \<open>Integers\<close>

lemma parse_uint_loop_nat_str:
  "m < 2 ^ 64 \<Longrightarrow> parse_uint_loop 0 (nat_str m @ r) = parse_uint_loop (int m) r"
proof (induction m arbitrary: r rule: nat_str.induct)
  case (1 m)
  show ?case
  proof (cases "m < 10")
    case True
    then show ?thesis by (simp add: nat_str.simps[of m])
  next
    case False
    then have "parse_uint_loop 0 (nat_str m @ r) = parse_uint_loop (int (m div 10)) (digit (m mod 10) # r)"
      using 1 by (simp add: nat_str.simps[of m])
    also have "\<dots> = parse_uint_loop (int m) r"
    proof -
      have "int m < 2 ^ 64" using "1.prems" by simp
      moreover have "int m = 10 * int (m div 10) + int (m mod 10)" by presburger
      ultimately show ?thesis by (simp add: Let_def)
    qed
    finally show ?thesis .
  qed
qed

lemma parse_uint_nat_str: "m < 2 ^ 64 \<Longrightarrow> parse_uint (nat_str m) = (int m, None)"
  using parse_uint_loop_nat_str[of m "[]"] by (simp add: parse_uint_def)

lemma hd_nat_str: "is_digit (hd (nat_str m))"
  using nat_str_digits[of "hd (nat_str m)" m] by simp

lemma parse_int_int_str:
  assumes "- (2 ^ 63) \<le> i" "i < 2 ^ 63"
  shows "parse_int (int_str i) = (i, None)"
proof (cases "i < 0")
  case True
  then show ?thesis
    using assms parse_uint_nat_str[of "nat (- i)"] by (simp add: parse_int_def int_str_def)
next
  case False
  have "hd (nat_str (nat i)) \<noteq> CHR ''-''" "hd (nat_str (nat i)) \<noteq> CHR ''+''"
    using hd_nat_str[of "nat i"] by (auto simp: is_digit_def)
  then show ?thesis
    using False assms parse_uint_nat_str[of "nat i"] by (simp add: parse_int_def int_str_def Let_def)
qed

lemma digit_zero: "digit 0 = CHR ''0''"
  by (simp add: digit_def char_of_def bit_iff_odd)

lemma digit_is_zero: "m < 10 \<Longrightarrow> digit m = CHR ''0'' \<longleftrightarrow> m = 0"
proof -
  assume m: "m < 10"
  have "code (CHR ''0'') = 48" by simp
  then show ?thesis using code_digit[OF m] digit_zero by (metis add_cancel_right_right)
qed

lemma hd_nat_str_zero: "hd (nat_str m) = CHR ''0'' \<longleftrightarrow> m = 0"
proof (induction m rule: nat_str.induct)
  case (1 m)
  show ?case
  proof (cases "m < 10")
    case True
    then show ?thesis by (simp add: nat_str.simps[of m] digit_is_zero)
  next
    case False
    then show ?thesis using 1 by (simp add: nat_str.simps[of m])
  qed
qed

lemma lex_num_nat_str:
  "lex_frac (sg @ nat_str m) [] = Some (sg @ nat_str m, [])"
  by (simp add: lex_frac_def)

lemma lex_num_int_str: "lex_num (int_str i) = Some (int_str i, [])"
proof -
  have nat: "(case nat_str m of [] \<Rightarrow> None | c # t \<Rightarrow>
      if c = CHR ''0'' then lex_frac (sg @ [c]) t
      else if is_digit c then lex_frac (sg @ takeWhile is_digit (nat_str m)) (dropWhile is_digit (nat_str m))
      else None) = Some (sg @ nat_str m, [])" for sg m
  proof (cases "nat_str m")
    case (Cons c t)
    show ?thesis
    proof (cases "m = 0")
      case True
      then have "nat_str m = ''0''" by (simp add: nat_str.simps[of 0] digit_zero)
      then show ?thesis by (simp add: lex_frac_def)
    next
      case False
      have d: "\<forall>c \<in> set (nat_str m). is_digit c" using nat_str_digits by blast
      then have tw: "takeWhile is_digit (c # t) = c # t" and dw: "dropWhile is_digit (c # t) = []"
        using Cons by (simp_all del: takeWhile.simps dropWhile.simps
            add: takeWhile_eq_all_conv[THEN iffD2] dropWhile_eq_Nil_conv[THEN iffD2])
      moreover have "c \<noteq> CHR ''0''" "is_digit c"
        using False hd_nat_str_zero[of m] d Cons by auto
      ultimately show ?thesis
        using Cons by (simp add: lex_frac_def tw dw del: takeWhile.simps dropWhile.simps)
    qed
  qed simp
  show ?thesis
  proof (cases "i < 0")
    case True
    then show ?thesis using nat[of "''-''" "nat (- i)"] by (simp add: lex_num_def int_str_def)
  next
    case False
    have "hd (nat_str (nat i)) \<noteq> CHR ''-''"
      using hd_nat_str[of "nat i"] by (auto simp: is_digit_def)
    then show ?thesis using False nat[of "[]" "nat i"] by (simp add: lex_num_def int_str_def)
  qed
qed

lemma wf_enc_int [simp]: "wf_json (enc_int i)"
  by (simp add: enc_int_def lex_num_int_str)

lemma dec_int_enc: "- (2 ^ 63) \<le> i \<Longrightarrow> i < 2 ^ 63 \<Longrightarrow> dec_int (enc_int i) old = Some i"
  by (simp add: enc_int_def dec_int_def parse_int_int_str)

end
