(* ===== verification/GoOs.thy ===== *)
theory GoOs
  imports GoStrings
begin

section \<open>The outside world: files, processes and HTTP, as the agent sees them\<close>

text \<open>
  The agent's own state is small; most of its effects are on files, child processes and the HTTP
  services of the storage stack. \<open>world\<close> holds the file system, which the agent's code reads and
  replaces itself, and \<open>ext\<close>, the state of everything else (SeaweedFS, systemd, the clock, the
  random source), which the model never looks into. What the operating system and those services
  do is the record \<open>os\<close>: a parameter of every definition that uses it. \<open>os_fail\<close> says which file
  operations fail, so every error path of the code is reachable by the choice of \<open>os\<close>.
\<close>

record fnode =
  f_data :: string
  f_mode :: nat
  f_uid :: nat
  f_gid :: nat

type_synonym fsys = "string \<Rightarrow> fnode option"

record 'x world =
  fs :: fsys
  ext :: 'x

datatype fs_op =
    OpRead string
  | OpOpen string
  | OpStat string
  | OpCreateTemp string
  | OpChmod string
  | OpLchown string
  | OpWrite string
  | OpClose string
  | OpRename string string
  | OpRemove string

record request =
  rq_method :: string
  rq_url :: string
  rq_headers :: "(string \<times> string) list"
  rq_body :: string

record response =
  rs_status :: int
  rs_headers :: "(string \<times> string) list"
  rs_body :: string

record url =
  u_host :: string
  u_path :: string
  u_query :: string

text \<open>
  How \<^verbatim>\<open>exec.Cmd.Run\<close> can end when it does not succeed: the process exited with a code (an
  \<^verbatim>\<open>*exec.ExitError\<close>) or could not be run to completion at all; both carry the error text.
\<close>

datatype run_error = ExitError int string | RunError string

record run_outcome =
  ro_stdout :: string
  ro_stderr :: string
  ro_error :: "run_error option"
  ro_deadline :: bool

text \<open>
  \<^item> \<open>os_fail op x\<close>: the error text of a file operation in outside state \<open>x\<close>, \<open>None\<close> where it succeeds;
  \<^item> \<open>os_temp x\<close>: the random part of the name \<^verbatim>\<open>os.CreateTemp\<close> chooses;
  \<^item> \<open>os_owner\<close>: the uid and gid a file created by the agent gets;
  \<^item> \<open>os_exec\<close>, \<open>os_http\<close>: run a program, send a request (an \<open>Inl\<close> is a transport error);
  \<^item> \<open>os_url\<close>: \<^verbatim>\<open>url.Parse\<close> as used by \<^verbatim>\<open>http.NewRequestWithContext\<close> (\<open>Inl\<close> its error), giving the
    host, the escaped path and the re-encoded query;
  \<^item> \<open>os_date\<close>, \<open>os_amz_date\<close>: the clock, formatted with \<^verbatim>\<open>2006-01-02\<close> and \<^verbatim>\<open>20060102T150405Z\<close>;
  \<^item> \<open>os_hmac\<close>, \<open>os_sha256\<close>: HMAC-SHA256 and SHA-256 on bytes;
  \<^item> \<open>os_rfc3339\<close>: \<^verbatim>\<open>time.Parse(time.RFC3339, s)\<close>; \<open>os_now\<close>: \<^verbatim>\<open>time.Now()\<close>; instants are nanoseconds since the
    Unix epoch;
  \<^item> \<open>os_xml path body\<close>: \<^verbatim>\<open>xml.Decode\<close> into a struct that follows the element names of \<open>path\<close>, giving the text
    of the last element in each occurrence of the one before it.
\<close>

record 'x os =
  os_fail :: "fs_op \<Rightarrow> 'x \<Rightarrow> string option"
  os_temp :: "'x \<Rightarrow> string"
  os_owner :: "nat \<times> nat"
  os_exec :: "string \<Rightarrow> string list \<Rightarrow> 'x \<Rightarrow> run_outcome \<times> 'x"
  os_http :: "request \<Rightarrow> 'x \<Rightarrow> (string + response) \<times> 'x"
  os_url :: "string \<Rightarrow> string + url"
  os_date :: "'x \<Rightarrow> string"
  os_amz_date :: "'x \<Rightarrow> string"
  os_hmac :: "string \<Rightarrow> string \<Rightarrow> string"
  os_sha256 :: "string \<Rightarrow> string"
  os_rfc3339 :: "string \<Rightarrow> int option"
  os_now :: "'x \<Rightarrow> int"
  os_xml :: "string list \<Rightarrow> string \<Rightarrow> string + string list"

subsection \<open>Reading a file\<close>

datatype read_result = RdError string | RdNotExist | RdData string

definition read_file :: "'x os \<Rightarrow> string \<Rightarrow> 'x world \<Rightarrow> read_result" where
  "read_file os p w =
     (case os_fail os (OpRead p) (ext w) of
        Some e \<Rightarrow> RdError e
      | None \<Rightarrow> (case fs w p of None \<Rightarrow> RdNotExist | Some f \<Rightarrow> RdData (f_data f)))"

lemma read_file_Data:
  "read_file os p w = RdData d \<longleftrightarrow>
     os_fail os (OpRead p) (ext w) = None \<and> (\<exists>f. fs w p = Some f \<and> f_data f = d)"
  by (auto simp: read_file_def split: option.splits)

lemma read_file_NotExist:
  "read_file os p w = RdNotExist \<longleftrightarrow> os_fail os (OpRead p) (ext w) = None \<and> fs w p = None"
  by (auto simp: read_file_def split: option.splits)

subsection \<open>atomicWrite\<close>

text \<open>
  \<^verbatim>\<open>filepath.Dir\<close> on the paths the agent uses (clean ones, as in its configuration).
\<close>

definition path_dir :: "string \<Rightarrow> string" where
  "path_dir p = (case last_index_char (CHR ''/'') p of
      None \<Rightarrow> ''.''
    | Some i \<Rightarrow> if i = 0 then ''/'' else take i p)"

definition temp_name :: "'x os \<Rightarrow> string \<Rightarrow> 'x world \<Rightarrow> string" where
  "temp_name os p w = path_dir p @ ''/.s3d-write-'' @ os_temp os (ext w)"

text \<open>
  \<^verbatim>\<open>atomicWrite\<close> of \<^verbatim>\<open>internal/modules/s3/manager.go\<close> as a machine: one phase per system call, so that
  what another process can observe between two calls is a state of the model. \<open>AwRemoving\<close> is the
  deferred clean-up, which every failing phase goes through with its error and the successful
  rename with \<open>Inr ()\<close>.
\<close>

datatype aw_phase =
    AwStart
  | AwCreated string
  | AwModeSet string
  | AwOwned string
  | AwWritten string
  | AwClosed string
  | AwRemoving string "unit res"
  | AwDone "unit res"

definition set_file :: "string \<Rightarrow> fnode option \<Rightarrow> 'x world \<Rightarrow> 'x world" where
  "set_file p f w = w\<lparr>fs := (fs w)(p := f)\<rparr>"

definition upd_file :: "string \<Rightarrow> (fnode \<Rightarrow> fnode) \<Rightarrow> 'x world \<Rightarrow> 'x world" where
  "upd_file p g w = set_file p (map_option g (fs w p)) w"

fun aw_step :: "'x os \<Rightarrow> string \<Rightarrow> string \<Rightarrow> nat \<Rightarrow> aw_phase \<times> 'x world \<Rightarrow> aw_phase \<times> 'x world" where
  "aw_step os path data perm (AwStart, w) =
     (case os_fail os (OpCreateTemp (path_dir path)) (ext w) of
        Some e \<Rightarrow> (AwDone (Inl (Wrap ''creating temp file'' (OsErr e))), w)
      | None \<Rightarrow>
          let tmp = temp_name os path w in
          (AwCreated tmp,
           set_file tmp (Some \<lparr>f_data = [], f_mode = 0x180,
                               f_uid = fst (os_owner os), f_gid = snd (os_owner os)\<rparr>) w))"
| "aw_step os path data perm (AwCreated tmp, w) =
     (case os_fail os (OpChmod tmp) (ext w) of
        Some e \<Rightarrow> (AwRemoving tmp (Inl (Wrap ''chmod temp file'' (OsErr e))), w)
      | None \<Rightarrow> (AwModeSet tmp, upd_file tmp (f_mode_update (\<lambda>_. perm)) w))"
| "aw_step os path data perm (AwModeSet tmp, w) =
     (AwOwned tmp,
      case (os_fail os (OpStat path) (ext w), fs w path) of
        (None, Some old) \<Rightarrow>
          (case os_fail os (OpLchown tmp) (ext w) of
             Some _ \<Rightarrow> w
           | None \<Rightarrow> upd_file tmp (\<lambda>f. f\<lparr>f_uid := f_uid old, f_gid := f_gid old\<rparr>) w)
      | _ \<Rightarrow> w)"
| "aw_step os path data perm (AwOwned tmp, w) =
     (case os_fail os (OpWrite tmp) (ext w) of
        Some e \<Rightarrow> (AwRemoving tmp (Inl (Wrap ''writing temp file'' (OsErr e))), w)
      | None \<Rightarrow> (AwWritten tmp, upd_file tmp (f_data_update (\<lambda>_. data)) w))"
| "aw_step os path data perm (AwWritten tmp, w) =
     (case os_fail os (OpClose tmp) (ext w) of
        Some e \<Rightarrow> (AwRemoving tmp (Inl (Wrap ''closing temp file'' (OsErr e))), w)
      | None \<Rightarrow> (AwClosed tmp, w))"
| "aw_step os path data perm (AwClosed tmp, w) =
     (case os_fail os (OpRename tmp path) (ext w) of
        Some e \<Rightarrow>
          (AwRemoving tmp (Inl (Wrap (''renaming temp file to '' @ path) (OsErr e))), w)
      | None \<Rightarrow>
          (case fs w tmp of
             None \<Rightarrow>
               (AwRemoving tmp (Inl (Wrap (''renaming temp file to '' @ path)
                  (OsErr (''rename '' @ tmp @ '' '' @ path @ '': no such file or directory'')))), w)
           | Some f \<Rightarrow> (AwRemoving tmp (Inr ()), set_file tmp None (set_file path (Some f) w))))"
| "aw_step os path data perm (AwRemoving tmp r, w) =
     (AwDone r, if os_fail os (OpRemove tmp) (ext w) = None then set_file tmp None w else w)"
| "aw_step os path data perm (AwDone r, w) = (AwDone r, w)"

fun aw_rank :: "aw_phase \<Rightarrow> nat" where
  "aw_rank AwStart = 7"
| "aw_rank (AwCreated _) = 6"
| "aw_rank (AwModeSet _) = 5"
| "aw_rank (AwOwned _) = 4"
| "aw_rank (AwWritten _) = 3"
| "aw_rank (AwClosed _) = 2"
| "aw_rank (AwRemoving _ _) = 1"
| "aw_rank (AwDone _) = 0"

lemma aw_step_rank:
  "aw_rank ph \<noteq> 0 \<Longrightarrow> aw_rank (fst (aw_step os path data perm (ph, w))) < aw_rank ph"
  by (cases ph) (auto simp: Let_def split: option.splits)

function aw_exec :: "'x os \<Rightarrow> string \<Rightarrow> string \<Rightarrow> nat \<Rightarrow> aw_phase \<times> 'x world \<Rightarrow> unit res \<times> 'x world" where
  "aw_exec os path data perm (ph, w) =
     (case ph of
        AwDone r \<Rightarrow> (r, w)
      | _ \<Rightarrow> aw_exec os path data perm (aw_step os path data perm (ph, w)))"
  by pat_completeness auto
termination
proof (relation "measure (\<lambda>(os, path, data, perm, ph, w). aw_rank ph)", goal_cases)
  case 1
  show ?case by simp
qed (auto simp: Let_def split: option.splits)

declare aw_exec.simps [simp del]

definition atomic_write :: "'x os \<Rightarrow> string \<Rightarrow> string \<Rightarrow> nat \<Rightarrow> 'x world \<Rightarrow> unit res \<times> 'x world" where
  "atomic_write os path data perm w = aw_exec os path data perm (AwStart, w)"

subsection \<open>What atomicWrite promises\<close>

text \<open>The documented behaviour of \<^verbatim>\<open>os.CreateTemp\<close>: the name it returns did not exist.\<close>

definition temp_fresh :: "'x os \<Rightarrow> string \<Rightarrow> 'x world \<Rightarrow> bool" where
  "temp_fresh os path w \<longleftrightarrow> fs w (temp_name os path w) = None \<and> temp_name os path w \<noteq> path"

text \<open>
  The invariant of every intermediate state, relative to the start \<open>w0\<close>: outside the temporary
  file only \<open>path\<close> can differ, and there a reader finds either the old file or a complete new one.
\<close>

definition aw_inv :: "string \<Rightarrow> string \<Rightarrow> 'x world \<Rightarrow> string \<Rightarrow> aw_phase \<Rightarrow> 'x world \<Rightarrow> bool" where
  "aw_inv path data w0 tmp ph w \<longleftrightarrow>
     ext w = ext w0 \<and> (\<forall>q. q \<noteq> tmp \<longrightarrow> q \<noteq> path \<longrightarrow> fs w q = fs w0 q) \<and>
     (case ph of
        AwStart \<Rightarrow> w = w0
      | AwCreated t \<Rightarrow> t = tmp \<and> fs w path = fs w0 path \<and> fs w tmp \<noteq> None
      | AwModeSet t \<Rightarrow> t = tmp \<and> fs w path = fs w0 path \<and> fs w tmp \<noteq> None
      | AwOwned t \<Rightarrow> t = tmp \<and> fs w path = fs w0 path \<and> fs w tmp \<noteq> None
      | AwWritten t \<Rightarrow> t = tmp \<and> fs w path = fs w0 path \<and> (\<exists>f. fs w tmp = Some f \<and> f_data f = data)
      | AwClosed t \<Rightarrow> t = tmp \<and> fs w path = fs w0 path \<and> (\<exists>f. fs w tmp = Some f \<and> f_data f = data)
      | AwRemoving t r \<Rightarrow> t = tmp \<and>
          (case r of Inl _ \<Rightarrow> fs w path = fs w0 path
           | Inr _ \<Rightarrow> fs w tmp = None \<and> (\<exists>f. fs w path = Some f \<and> f_data f = data))
      | AwDone r \<Rightarrow>
          (case r of Inl _ \<Rightarrow> fs w path = fs w0 path
           | Inr _ \<Rightarrow> fs w tmp = None \<and> (\<exists>f. fs w path = Some f \<and> f_data f = data)))"

lemma set_file_simps [simp]:
  "ext (set_file p f w) = ext w"
  "fs (set_file p f w) = (fs w)(p := f)"
  by (simp_all add: set_file_def)

lemma upd_file_simps [simp]:
  "ext (upd_file p g w) = ext w"
  "fs (upd_file p g w) = (fs w)(p := map_option g (fs w p))"
  by (simp_all add: upd_file_def)

lemma aw_step_inv:
  assumes "aw_inv path data w0 tmp ph w" "tmp = temp_name os path w0" "tmp \<noteq> path"
  shows "aw_inv path data w0 tmp (fst (aw_step os path data perm (ph, w)))
           (snd (aw_step os path data perm (ph, w)))"
  using assms
  by (cases ph) (auto simp: aw_inv_def Let_def split: option.splits sum.splits)

lemma aw_exec_inv:
  assumes "aw_inv path data w0 tmp ph w" "tmp = temp_name os path w0" "tmp \<noteq> path"
  shows "aw_inv path data w0 tmp (AwDone (fst (aw_exec os path data perm (ph, w))))
           (snd (aw_exec os path data perm (ph, w)))"
  using assms(1)
proof (induction "aw_rank ph" arbitrary: ph w rule: less_induct)
  case less
  show ?case
  proof (cases "aw_rank ph = 0")
    case True
    then obtain r where "ph = AwDone r" by (cases ph) auto
    then show ?thesis using less.prems by (simp add: aw_exec.simps)
  next
    case False
    obtain ph' w' where s: "aw_step os path data perm (ph, w) = (ph', w')" by fastforce
    have "aw_rank ph' < aw_rank ph" using aw_step_rank[OF False] s by (metis fst_conv)
    moreover have "aw_inv path data w0 tmp ph' w'"
      using aw_step_inv[OF less.prems assms(2,3), of perm] s by simp
    moreover have "aw_exec os path data perm (ph, w) = aw_exec os path data perm (ph', w')"
      using s False aw_exec.simps[of os path data perm ph w]
      by (cases ph) (simp_all del: aw_step.simps)
    ultimately show ?thesis using less.hyps by simp
  qed
qed

text \<open>For the content at \<open>path\<close> it is enough that the temporary name is another one.\<close>

lemma temp_fresh_apart: "temp_fresh os path w \<Longrightarrow> temp_name os path w \<noteq> path"
  by (simp add: temp_fresh_def)

lemma atomic_write_inv:
  assumes "temp_name os path w \<noteq> path" "atomic_write os path data perm w = (r, w')"
  shows "aw_inv path data w (temp_name os path w) (AwDone r) w'"
proof -
  have "aw_inv path data w (temp_name os path w) AwStart w"
    by (simp add: aw_inv_def)
  from aw_exec_inv[OF this refl, of perm] show ?thesis
    using assms by (simp add: atomic_write_def)
qed

lemma atomic_write_ext: "atomic_write os path data perm w = (r, w') \<Longrightarrow> temp_fresh os path w \<Longrightarrow> ext w' = ext w"
  using atomic_write_inv[OF temp_fresh_apart, of os path w data perm r w'] by (simp add: aw_inv_def)

lemma atomic_write_ok:
  assumes "temp_fresh os path w" "atomic_write os path data perm w = (Inr u, w')"
  obtains f where "fs w' = (fs w)(path \<mapsto> f)" "f_data f = data"
proof -
  from atomic_write_inv[OF temp_fresh_apart[OF assms(1)] assms(2)] obtain f where f: "fs w' path = Some f" "f_data f = data"
    and rest: "\<forall>q. q \<noteq> temp_name os path w \<longrightarrow> q \<noteq> path \<longrightarrow> fs w' q = fs w q"
    and t: "fs w' (temp_name os path w) = None"
    by (auto simp: aw_inv_def)
  have "fs w' = (fs w)(path \<mapsto> f)"
  proof (rule HOL.ext)
    fix q
    show "fs w' q = ((fs w)(path \<mapsto> f)) q"
      using f(1) rest t assms(1) by (cases "q = temp_name os path w") (auto simp: temp_fresh_def)
  qed
  with f(2) show ?thesis using that by blast
qed

lemma atomic_write_data:
  assumes "temp_name os path w \<noteq> path" "atomic_write os path data perm w = (Inr u, w')" "fs w'' = fs w'"
  shows "\<exists>f. fs w'' path = Some f \<and> f_data f = data"
  using atomic_write_inv[OF assms(1,2)] assms(3) by (auto simp: aw_inv_def)

lemma temp_fresh_after:
  assumes "temp_fresh os path w" "atomic_write os path data perm w = (Inr u, w')"
  shows "temp_fresh os path w'"
  using atomic_write_inv[OF temp_fresh_apart[OF assms(1)] assms(2)] assms(1)
  by (auto simp: aw_inv_def temp_fresh_def temp_name_def)

lemma atomic_write_err:
  assumes "temp_name os path w \<noteq> path" "atomic_write os path data perm w = (Inl e, w')"
  shows "\<forall>q. q \<noteq> temp_name os path w \<longrightarrow> fs w' q = fs w q"
  using atomic_write_inv[OF assms] by (auto simp: aw_inv_def)

text \<open>When every operation it makes succeeds, so does the write.\<close>

lemma atomic_write_succeeds:
  assumes "\<And>op. os_fail os op (ext w) = None"
  shows "fst (atomic_write os path data perm w) = Inr ()"
  using assms
  by (auto simp: atomic_write_def aw_exec.simps Let_def split: option.splits)

subsection \<open>A concrete outside world\<close>

text \<open>
  An operating system on which every call succeeds, and services that answer 200 with an empty body:
  the concrete inputs of the examples are worlds with this one.
\<close>

definition calm_os :: "'x os" where
  "calm_os = \<lparr>os_fail = (\<lambda>op x. None), os_temp = (\<lambda>x. ''tmp''), os_owner = (0, 0),
     os_exec = (\<lambda>c as x. (\<lparr>ro_stdout = [], ro_stderr = [], ro_error = None, ro_deadline = False\<rparr>, x)),
     os_http = (\<lambda>r x. (Inr \<lparr>rs_status = 200, rs_headers = [], rs_body = []\<rparr>, x)),
     os_url = (\<lambda>u. Inr \<lparr>u_host = u, u_path = ''/'', u_query = []\<rparr>),
     os_date = (\<lambda>x. ''2026-01-02''), os_amz_date = (\<lambda>x. ''20260102T030405Z''),
     os_hmac = (\<lambda>k d. k @ d), os_sha256 = (\<lambda>d. d), os_rfc3339 = (\<lambda>s. None), os_now = (\<lambda>x. 0), os_xml = (\<lambda>p b. Inr [])\<rparr>"

lemma calm_reads [simp]: "os_fail calm_os op x = None"
  by (simp add: calm_os_def)

lemma calm_write: "\<exists>w'. atomic_write calm_os path data perm w = (Inr (), w')"
  using atomic_write_succeeds[of calm_os w] by (simp add: prod_eq_iff)

definition plain_file :: "string \<Rightarrow> fnode" where
  "plain_file d = \<lparr>f_data = d, f_mode = 0x1A4, f_uid = 0, f_gid = 0\<rparr>"

definition one_file :: "string \<Rightarrow> string \<Rightarrow> unit world" where
  "one_file p d = \<lparr>fs = [p \<mapsto> plain_file d], ext = ()\<rparr>"

end
