(* ===== verification/Executor.thy ===== *)
theory Executor
  imports GoOs
begin

section \<open>Running external commands (internal/executor)\<close>

text \<open>
  \<^verbatim>\<open>Executor.Execute\<close> over the outside world: the program and its arguments go to \<open>os_exec\<close> as they
  are, never through a shell, and the outcome becomes the two captured streams and an error whose
  text tells a timeout from a failure. The audit log line is not part of the model; the exit code
  it reports is.
\<close>

record executor =
  ex_timeout :: int

definition second :: int where "second = 1000000000"

definition default_timeout :: int where "default_timeout = 30 * second"

definition New_Executor :: executor where
  "New_Executor = \<lparr>ex_timeout = default_timeout\<rparr>"

definition NewWithTimeout :: "int \<Rightarrow> executor" where
  "NewWithTimeout timeout = \<lparr>ex_timeout = timeout\<rparr>"

subsection \<open>Duration.String\<close>

text \<open>The digits of \<open>v\<close> below the decimal point at \<open>prec\<close>, without trailing zeros.\<close>

definition frac_str :: "nat \<Rightarrow> nat \<Rightarrow> string" where
  "frac_str v prec =
     (let r = v mod 10 ^ prec; ds = nat_str r in
      if r = 0 then []
      else CHR ''.'' # trim_right_char (CHR ''0'') (replicate (prec - length ds) (CHR ''0'') @ ds))"

definition duration_str :: "int \<Rightarrow> string" where
  "duration_str d =
     (let u = nat \<bar>d\<bar>; sg = (if d < 0 then ''-'' else []) in
      sg @
      (if u = 0 then ''0s''
       else if u < 1000 then nat_str u @ ''ns''
       else if u < 1000000 then nat_str (u div 1000) @ frac_str u 3 @ [CHR 0xC2, CHR 0xB5, CHR ''s'']
       else if u < 1000000000 then nat_str (u div 1000000) @ frac_str u 6 @ ''ms''
       else
         let s = u div 1000000000; m = s div 60; h = m div 60;
             secs = nat_str (s mod 60) @ frac_str u 9 @ ''s''
         in if m = 0 then secs
            else if h = 0 then nat_str m @ ''m'' @ secs
            else nat_str h @ ''h'' @ nat_str (m mod 60) @ ''m'' @ secs))"

lemma duration_str_default: "duration_str default_timeout = ''30s''"
  by (simp add: duration_str_def default_timeout_def second_def frac_str_def nat_str.simps
      digit_def Let_def char_of_def bit_iff_odd)

subsection \<open>Execute\<close>

definition exit_code :: "run_error option \<Rightarrow> int" where
  "exit_code r = (case r of
      None \<Rightarrow> 0
    | Some (ExitError c _) \<Rightarrow> c
    | Some (RunError _) \<Rightarrow> - 1)"

fun run_error_text :: "run_error \<Rightarrow> string" where
  "run_error_text (ExitError _ t) = t"
| "run_error_text (RunError t) = t"

definition Execute ::
  "executor \<Rightarrow> 'x os \<Rightarrow> string \<Rightarrow> string list \<Rightarrow> 'x world
    \<Rightarrow> (string \<times> string \<times> go_error option) \<times> 'x world" where
  "Execute e os command args w =
     (let (out, x') = os_exec os command args (ext w);
          err = (case ro_error out of
              None \<Rightarrow> None
            | Some re \<Rightarrow>
                if ro_deadline out then
                  Some (Msg (''command timed out after '' @ duration_str (ex_timeout e) @ '': '' @ command))
                else
                  Some (Wrap (''command failed (exit '' @ int_str (exit_code (ro_error out)) @ '')'')
                             (OsErr (run_error_text re))))
      in ((ro_stdout out, ro_stderr out, err), w\<lparr>ext := x'\<rparr>))"

lemma Execute_fs [frame_simps]: "fs (snd (Execute e os command args w)) = fs w"
  by (simp add: Execute_def split: prod.split)

lemma Execute_error_iff:
  "(\<exists>r. fst (Execute e os command args w) = (out, err, Some r)) \<Longrightarrow>
    ro_error (fst (os_exec os command args (ext w))) \<noteq> None"
  by (auto simp: Execute_def split: prod.splits option.splits)

end
