(* ===== verification/S3Types.thy ===== *)
theory S3Types
  imports Complex_Main GoOs
begin

section \<open>The data of the S3 module (internal/modules/s3/types.go, internal/config)\<close>

text \<open>
  The records of the S3 manager and observer and the configuration they read. Percentages are the
  exact rationals that the 64-bit floats of the code stand for; times are nanoseconds since the
  Unix epoch; counters keep their 64-bit width.
\<close>

type_synonym time = int

record s3_config =
  MasterURL :: string
  VolumeURL :: string
  FilerURL :: string
  S3URL :: string
  IAMFile :: string
  WeedS3Service :: string
  NginxBlockedKeysFile :: string
  NginxAccessLog :: string
  NginxAuditLog :: string
  CapacityWarnPct :: rat
  CapacityCriticalPct :: rat
  AdminAccessKey :: string
  AdminSecretKey :: string
  S3Region :: string

subsection \<open>Manager types\<close>

record lifecycle_rule =
  lr_prefix :: string
  lr_expire_days :: int

record bucket_spec =
  bs_bucket_id :: string
  bs_name :: string
  bs_owner_tenant_id :: string
  bs_replication_factor :: int
  bs_lifecycle_rules :: "lifecycle_rule list"

record worm_bucket_spec =
  wb_bucket_id :: string
  wb_name :: string
  wb_owner_tenant_id :: string
  wb_mode :: string
  wb_retention_days :: int

record bucket_acl =
  acl_bucket_id :: string
  acl_permission :: string

record iam_user =
  iu_user_id :: string
  iu_name :: string
  iu_owner_tenant_id :: string
  iu_access_key :: string
  iu_secret_key :: string
  iu_bucket_acls :: "bucket_acl list"

record full_sync_payload =
  fsp_buckets :: "bucket_spec list"
  fsp_iam_users :: "iam_user list"

record reconcile_result =
  rr_buckets_created :: nat
  rr_buckets_deleted :: nat
  rr_iam_created :: nat
  rr_iam_deleted :: nat
  rr_errors :: "go_error list"

definition empty_result :: reconcile_result where
  "empty_result = \<lparr>rr_buckets_created = 0, rr_buckets_deleted = 0,
     rr_iam_created = 0, rr_iam_deleted = 0, rr_errors = []\<rparr>"

text \<open>The defaults of \<^verbatim>\<open>config.Default\<close>, for the concrete examples.\<close>

definition sample_config :: s3_config where
  "sample_config = \<lparr>MasterURL = ''http://127.0.0.1:9333'', VolumeURL = ''http://127.0.0.1:8080'',
     FilerURL = ''http://127.0.0.1:8888'', S3URL = ''http://127.0.0.1:8333'',
     IAMFile = ''/etc/seaweedfs/iam.json'', WeedS3Service = ''weed-s3'',
     NginxBlockedKeysFile = ''/etc/nginx/blocked.conf'', NginxAccessLog = ''/var/log/nginx/s3_access.log'',
     NginxAuditLog = ''/var/log/nginx/s3_audit.log'', CapacityWarnPct = 80, CapacityCriticalPct = 90,
     AdminAccessKey = ''AKADMIN'', AdminSecretKey = ''SKADMIN'', S3Region = ''us-east-1''\<rparr>"

lemma sample_config_simps [simp]:
  "S3URL sample_config = ''http://127.0.0.1:8333''"
  "IAMFile sample_config = ''/etc/seaweedfs/iam.json''"
  "NginxBlockedKeysFile sample_config = ''/etc/nginx/blocked.conf''"
  "AdminAccessKey sample_config = ''AKADMIN''" "AdminSecretKey sample_config = ''SKADMIN''"
  "S3Region sample_config = ''us-east-1''"
  by (simp_all add: sample_config_def)

end
