(* ===== verification/NamedStore.thy ===== *)
theory NamedStore
  imports Prelude
begin

section \<open>The contract of a store of named things\<close>

text \<open>
  Three parts of the agent keep a collection of things found by name: the identities of the IAM
  file, the blocked access keys, and the buckets behind the gateway. What the code that works on
  them relies on is the same: after an addition the name is there, after a deletion it is not, and
  other names are not touched. The locale states that contract on the set of names; the lemmas
  about whole synchronisation passes are proved from it once.
\<close>

lemma length_filter_name:
  assumes "distinct (map f xs)"
  shows "length (filter (\<lambda>x. f x \<notin> A) xs) = card (f ` set xs - A)"
proof -
  let ?ys = "filter (\<lambda>x. f x \<notin> A) xs"
  have "distinct (map f ?ys)" using assms by (simp add: distinct_map_filter)
  then have "length ?ys = card (set (map f ?ys))" by (metis distinct_card length_map)
  also have "set (map f ?ys) = f ` set xs - A" by auto
  finally show ?thesis .
qed

locale named_store =
  fixes names :: "'s \<Rightarrow> string list"
    and inv :: "'s \<Rightarrow> bool"
    and ok :: "'e \<Rightarrow> bool"
    and name_of :: "'e \<Rightarrow> string"
    and add :: "'e \<Rightarrow> 's \<Rightarrow> 's"
    and del :: "string \<Rightarrow> 's \<Rightarrow> 's"
  assumes names_add: "inv s \<Longrightarrow> ok e \<Longrightarrow> name_of e \<notin> set (names s) \<Longrightarrow>
      set (names (add e s)) = insert (name_of e) (set (names s))"
    and names_del: "inv s \<Longrightarrow> n \<in> set (names s) \<Longrightarrow> set (names (del n s)) = set (names s) - {n}"
    and inv_add: "inv s \<Longrightarrow> ok e \<Longrightarrow> name_of e \<notin> set (names s) \<Longrightarrow> inv (add e s)"
    and inv_del: "inv s \<Longrightarrow> n \<in> set (names s) \<Longrightarrow> inv (del n s)"
begin

lemma fold_add:
  "inv s \<Longrightarrow> \<forall>e \<in> set es. ok e \<and> name_of e \<notin> set (names s) \<Longrightarrow> distinct (map name_of es) \<Longrightarrow>
     inv (fold add es s) \<and> set (names (fold add es s)) = name_of ` set es \<union> set (names s)"
proof (induction es arbitrary: s)
  case Nil
  then show ?case by simp
next
  case (Cons e es)
  have "inv (add e s)" "set (names (add e s)) = insert (name_of e) (set (names s))"
    using Cons.prems by (simp_all add: inv_add names_add)
  moreover have "\<forall>x \<in> set es. name_of x \<noteq> name_of e" using Cons.prems(3) by simp (metis image_eqI)
  ultimately show ?case using Cons.IH[of "add e s"] Cons.prems by simp
qed

lemma fold_del:
  "inv s \<Longrightarrow> distinct ns \<Longrightarrow> set ns \<subseteq> set (names s) \<Longrightarrow>
     inv (fold del ns s) \<and> set (names (fold del ns s)) = set (names s) - set ns"
proof (induction ns arbitrary: s)
  case Nil
  then show ?case by simp
next
  case (Cons n ns)
  then have n: "n \<in> set (names s)" by simp
  have "set (names (del n s)) = set (names s) - {n}" "inv (del n s)"
    using Cons.prems(1) n by (simp_all add: names_del inv_del)
  then show ?case using Cons.IH[of "del n s"] Cons.prems by auto
qed

text \<open>
  One synchronisation pass, as reconciliation does it: list, add what is missing, delete what is
  not wanted. When no step fails the store holds exactly the wanted names.
\<close>

definition sync :: "'e list \<Rightarrow> 's \<Rightarrow> 's" where
  "sync es s =
     fold del (filter (\<lambda>n. n \<notin> name_of ` set es) (remdups (names s)))
       (fold add (filter (\<lambda>e. name_of e \<notin> set (names s)) es) s)"

lemma sync_names:
  assumes "inv s" "\<forall>e \<in> set es. ok e" "distinct (map name_of es)"
  shows "set (names (sync es s)) = name_of ` set es" "inv (sync es s)"
proof -
  let ?s1 = "fold add (filter (\<lambda>e. name_of e \<notin> set (names s)) es) s"
  let ?ns = "filter (\<lambda>n. n \<notin> name_of ` set es) (remdups (names s))"
  have a: "inv ?s1"
    "set (names ?s1) = name_of ` set (filter (\<lambda>e. name_of e \<notin> set (names s)) es) \<union> set (names s)"
    using fold_add[OF assms(1), of "filter (\<lambda>e. name_of e \<notin> set (names s)) es"] assms(2,3)
    by (auto simp: distinct_map_filter)
  have d: "inv (fold del ?ns ?s1)" "set (names (fold del ?ns ?s1)) = set (names ?s1) - set ?ns"
    using fold_del[OF a(1), of ?ns] a(2) by auto
  show "inv (sync es s)" using d(1) by (simp add: sync_def)
  show "set (names (sync es s)) = name_of ` set es"
    using d(2) a(2) by (auto simp: sync_def)
qed

text \<open>A second pass has nothing to do.\<close>

lemma sync_idem:
  assumes "inv s" "\<forall>e \<in> set es. ok e" "distinct (map name_of es)"
  shows "sync es (sync es s) = sync es s"
proof -
  let ?t = "sync es s"
  have "set (names ?t) = name_of ` set es" using sync_names[OF assms] by simp
  then have "filter (\<lambda>e. name_of e \<notin> set (names ?t)) es = []"
    "filter (\<lambda>n. n \<notin> name_of ` set es) (remdups (names ?t)) = []"
    by (auto simp: filter_empty_conv)
  then show ?thesis by (simp add: sync_def[of es ?t])
qed

end

subsection \<open>The loops of a pass\<close>

text \<open>
  The four loops of \<^verbatim>\<open>Manager.Reconcile\<close> have one shape: skip the items that need nothing, run the
  operation on the others, count a success, collect an error under a label and go on.
\<close>

fun item_loop ::
  "('a \<Rightarrow> bool) \<Rightarrow> ('a \<Rightarrow> 's \<Rightarrow> unit res \<times> 's) \<Rightarrow> ('a \<Rightarrow> string) \<Rightarrow> 'a list
    \<Rightarrow> nat \<times> go_error list \<times> 's \<Rightarrow> nat \<times> go_error list \<times> 's" where
  "item_loop skip act label [] st = st"
| "item_loop skip act label (x # xs) (n, errs, s) =
     item_loop skip act label xs
       (if skip x then (n, errs, s)
        else (case act x s of
                (Inl e, s') \<Rightarrow> (n, errs @ [Wrap (label x) e], s')
              | (Inr _, s') \<Rightarrow> (Suc n, errs, s')))"

lemma item_loop_skip: "\<forall>x \<in> set xs. sk x \<Longrightarrow> item_loop sk act lab xs st = st"
  by (induction xs arbitrary: st) (auto split: prod.splits)

text \<open>Every item that is not skipped is accounted for, in the counter or in the errors.\<close>

lemma item_loop_accounts:
  "item_loop skip act label xs (n, errs, s) = (n', errs', s') \<Longrightarrow>
    n' + length errs' = n + length errs + length (filter (\<lambda>x. \<not> skip x) xs)"
  by (induction xs arbitrary: n errs s) (auto split: if_splits prod.splits sum.splits)

text \<open>A store whose operations can fail, and do not where the contract's guards hold.\<close>

locale fallible_store =
  named_store names inv ok name_of "\<lambda>e s. snd (add_op e s)" "\<lambda>n s. snd (del_op n s)"
  for names :: "'s \<Rightarrow> string list"
    and inv :: "'s \<Rightarrow> bool"
    and ok :: "'e \<Rightarrow> bool"
    and name_of :: "'e \<Rightarrow> string"
    and add_op :: "'e \<Rightarrow> 's \<Rightarrow> unit res \<times> 's"
    and del_op :: "string \<Rightarrow> 's \<Rightarrow> unit res \<times> 's" +
  assumes add_ok: "inv s \<Longrightarrow> ok e \<Longrightarrow> name_of e \<notin> set (names s) \<Longrightarrow> fst (add_op e s) = Inr ()"
    and del_ok: "inv s \<Longrightarrow> n \<in> set (names s) \<Longrightarrow> fst (del_op n s) = Inr ()"
begin

lemma add_loop:
  "inv s \<Longrightarrow> \<forall>e \<in> set es. ok e \<Longrightarrow> distinct (map name_of es) \<Longrightarrow>
     \<forall>e \<in> set es. skip e \<or> name_of e \<notin> set (names s) \<Longrightarrow>
     item_loop skip add_op label es (n, errs, s)
       = (n + length (filter (\<lambda>e. \<not> skip e) es), errs,
          fold (\<lambda>e s. snd (add_op e s)) (filter (\<lambda>e. \<not> skip e) es) s)"
proof (induction es arbitrary: s n)
  case Nil
  then show ?case by simp
next
  case (Cons e es)
  show ?case
  proof (cases "skip e")
    case True
    then show ?thesis using Cons by simp
  next
    case False
    obtain s' where s': "add_op e s = (Inr (), s')"
      using Cons.prems False add_ok[of s e] by (cases "add_op e s") auto
    then have "inv s'" "set (names s') = insert (name_of e) (set (names s))"
      using Cons.prems False inv_add[of s e] names_add[of s e] by auto
    moreover have "\<forall>x \<in> set es. name_of x \<noteq> name_of e" using Cons.prems(3) by simp (metis image_eqI)
    ultimately show ?thesis using False s' Cons.IH[of s' "Suc n"] Cons.prems by simp
  qed
qed

lemma del_loop:
  "inv s \<Longrightarrow> distinct (map key xs) \<Longrightarrow> \<forall>x \<in> set xs. skip x \<or> key x \<in> set (names s) \<Longrightarrow>
     item_loop skip (\<lambda>x. del_op (key x)) label xs (n, errs, s)
       = (n + length (filter (\<lambda>x. \<not> skip x) xs), errs,
          fold (\<lambda>m s. snd (del_op m s)) (map key (filter (\<lambda>x. \<not> skip x) xs)) s)"
proof (induction xs arbitrary: s n)
  case Nil
  then show ?case by simp
next
  case (Cons x xs)
  show ?case
  proof (cases "skip x")
    case True
    then show ?thesis using Cons by simp
  next
    case False
    obtain s' where s': "del_op (key x) s = (Inr (), s')"
      using Cons.prems False del_ok[of s "key x"] by (cases "del_op (key x) s") auto
    then have "inv s'" "set (names s') = set (names s) - {key x}"
      using Cons.prems False inv_del[of s "key x"] names_del[of s "key x"] by auto
    moreover have "\<forall>y \<in> set xs. key y \<noteq> key x" using Cons.prems(2) by simp (metis image_eqI)
    ultimately show ?thesis using False s' Cons.IH[of s' "Suc n"] Cons.prems by simp
  qed
qed

text \<open>
  One pass, the creations and then the deletions of what \<open>items\<close> lists: no errors, the store holds the
  wanted names, and the counters are the sizes of the two differences.
\<close>

lemma pass:
  assumes "inv s" "\<forall>e \<in> set es. ok e" "distinct (map name_of es)"
    and "map key items = names s" "distinct (names s)"
  shows "\<exists>s1 s2.
     item_loop (\<lambda>e. name_of e \<in> set (names s)) add_op lab es (0, errs, s)
       = (card (name_of ` set es - set (names s)), errs, s1) \<and>
     item_loop (\<lambda>x. key x \<in> name_of ` set es) (\<lambda>x. del_op (key x)) lab' items (0, errs, s1)
       = (card (set (names s) - name_of ` set es), errs, s2) \<and>
     inv s2 \<and> set (names s2) = name_of ` set es"
proof -
  let ?new = "filter (\<lambda>e. name_of e \<notin> set (names s)) es"
  let ?old = "filter (\<lambda>x. key x \<notin> name_of ` set es) items"
  let ?s1 = "fold (\<lambda>e s. snd (add_op e s)) ?new s"
  let ?s2 = "fold (\<lambda>n s. snd (del_op n s)) (map key ?old) ?s1"
  have s1: "inv ?s1" "set (names ?s1) = name_of ` set ?new \<union> set (names s)"
    using fold_add[OF assms(1), of ?new] assms(2,3) by (auto simp: distinct_map_filter)
  have keys: "distinct (map key items)" using assms(4,5) by simp
  have kset: "key ` set items = set (names s)" using assms(4) by (metis set_map)
  then have sub: "set (map key ?old) \<subseteq> set (names ?s1)" using s1(2) by auto
  have s2: "inv ?s2" "set (names ?s2) = set (names ?s1) - set (map key ?old)"
    using fold_del[OF s1(1) distinct_map_filter[OF keys] sub] by blast+
  have "item_loop (\<lambda>e. name_of e \<in> set (names s)) add_op lab es (0, errs, s)
      = (length ?new, errs, ?s1)"
    using add_loop[OF assms(1,2,3), of "\<lambda>e. name_of e \<in> set (names s)" lab 0 errs] by auto
  moreover have "item_loop (\<lambda>x. key x \<in> name_of ` set es) (\<lambda>x. del_op (key x)) lab' items (0, errs, ?s1)
      = (length ?old, errs, ?s2)"
  proof -
    have "\<forall>x \<in> set items. key x \<in> set (names ?s1)" using kset s1(2) by blast
    then show ?thesis
      using del_loop[OF s1(1) keys, of "\<lambda>x. key x \<in> name_of ` set es" lab' 0 errs] by simp
  qed
  moreover have "length ?new = card (name_of ` set es - set (names s))"
    by (rule length_filter_name[OF assms(3)])
  moreover have "length ?old = card (set (names s) - name_of ` set es)"
    using length_filter_name[OF keys] kset by simp
  moreover have "set (names ?s2) = name_of ` set es"
  proof -
    have "set (map key ?old) = set (names s) - name_of ` set es" unfolding kset[symmetric] by auto
    then show ?thesis using s2(2) s1(2) by auto
  qed
  ultimately show ?thesis using s2(1) by metis
qed

end

end
