(* ===== verification/Gateway.thy ===== *)
theory Gateway
  imports Executor S3Types NamedStore
begin

section \<open>Bucket operations on the S3 gateway (internal/modules/s3/signer.go, manager.go)\<close>

text \<open>
  \<^verbatim>\<open>signAWSv4\<close> and the bucket operations of the manager as sequences of requests to \<open>os_http\<close>. Headers are
  an association list under lower-case names; the host that the code stores in \<^verbatim>\<open>req.Host\<close> is the
  header \<^verbatim>\<open>host\<close>.
\<close>

subsection \<open>AWS Signature Version 4\<close>

definition hex_char :: "nat \<Rightarrow> char" where
  "hex_char n = (if n < 10 then char_of (48 + n) else char_of (87 + n))"

definition hex_encode :: "string \<Rightarrow> string" where
  "hex_encode bs = concat (map (\<lambda>c. [hex_char (code c div 16), hex_char (code c mod 16)]) bs)"

definition set_header :: "string \<Rightarrow> string \<Rightarrow> request \<Rightarrow> request" where
  "set_header k v r = r\<lparr>rq_headers := filter (\<lambda>(n, _). n \<noteq> k) (rq_headers r) @ [(k, v)]\<rparr>"

definition awsSHA256Hex :: "'x os \<Rightarrow> string \<Rightarrow> string" where
  "awsSHA256Hex os data = hex_encode (os_sha256 os data)"

definition awsDeriveKey :: "'x os \<Rightarrow> string \<Rightarrow> string \<Rightarrow> string \<Rightarrow> string \<Rightarrow> string" where
  "awsDeriveKey os secret date region service =
     os_hmac os (os_hmac os (os_hmac os (os_hmac os (''AWS4'' @ secret) date) region) service)
       ''aws4_request''"

definition signed_headers :: string where
  "signed_headers = ''host;x-amz-content-sha256;x-amz-date''"

definition canonical_request :: "string \<Rightarrow> url \<Rightarrow> string \<Rightarrow> string \<Rightarrow> string" where
  "canonical_request method u payload_hash datetime =
     join [newline]
       [method,
        if u_path u = [] then ''/'' else u_path u,
        u_query u,
        ''host:'' @ u_host u @ [newline] @ ''x-amz-content-sha256:'' @ payload_hash @ [newline]
          @ ''x-amz-date:'' @ datetime @ [newline],
        signed_headers,
        payload_hash]"

definition cred_scope :: "string \<Rightarrow> string \<Rightarrow> string" where
  "cred_scope date region = date @ ''/'' @ region @ ''/s3/aws4_request''"

definition string_to_sign :: "'x os \<Rightarrow> string \<Rightarrow> string \<Rightarrow> string \<Rightarrow> string \<Rightarrow> string" where
  "string_to_sign os datetime date region creq =
     join [newline] [''AWS4-HMAC-SHA256'', datetime, cred_scope date region, awsSHA256Hex os creq]"

definition auth_header :: "string \<Rightarrow> string \<Rightarrow> string \<Rightarrow> string \<Rightarrow> string" where
  "auth_header ak date region sig =
     ''AWS4-HMAC-SHA256 Credential='' @ ak @ ''/'' @ cred_scope date region @ '',SignedHeaders=''
       @ signed_headers @ '',Signature='' @ sig"

text \<open>
  The date of the scope is the first eight characters of the basic ISO timestamp: both are formatted
  from the same instant.
\<close>

definition signAWSv4 ::
  "'x os \<Rightarrow> string \<Rightarrow> string \<Rightarrow> string \<Rightarrow> string \<Rightarrow> 'x \<Rightarrow> url \<Rightarrow> request \<Rightarrow> request" where
  "signAWSv4 os ak sk region0 body x u req =
     (if ak = [] \<or> sk = [] then req
      else
        let region = (if region0 = [] then ''us-east-1'' else region0);
            datetime = os_amz_date os x;
            date = take 8 datetime;
            hash = awsSHA256Hex os body;
            creq = canonical_request (rq_method req) u hash datetime;
            sts = string_to_sign os datetime date region creq;
            sig = hex_encode (os_hmac os (awsDeriveKey os sk date region ''s3'') sts)
        in set_header ''authorization'' (auth_header ak date region sig)
             (set_header ''x-amz-content-sha256'' hash
               (set_header ''x-amz-date'' datetime (set_header ''host'' (u_host u) req))))"

subsection \<open>doS3\<close>

definition build_request :: "'x os \<Rightarrow> string \<Rightarrow> string \<Rightarrow> string \<Rightarrow> (request \<times> url) res" where
  "build_request os method raw body =
     (case os_url os raw of
        Inl e \<Rightarrow> Inl (Wrap ''building request'' (OsErr e))
      | Inr u \<Rightarrow> Inr (\<lparr>rq_method = method, rq_url = raw, rq_headers = [], rq_body = body\<rparr>, u))"

definition send :: "'x os \<Rightarrow> request \<Rightarrow> 'x world \<Rightarrow> response res \<times> 'x world" where
  "send os req w =
     (case os_http os req (ext w) of
        (Inl e, x') \<Rightarrow> (Inl (OsErr e), w\<lparr>ext := x'\<rparr>)
      | (Inr resp, x') \<Rightarrow> (Inr resp, w\<lparr>ext := x'\<rparr>))"

definition doS3 :: "'x os \<Rightarrow> s3_config \<Rightarrow> string \<Rightarrow> string \<Rightarrow> string \<Rightarrow> 'x world \<Rightarrow> response res \<times> 'x world" where
  "doS3 os cfg method raw body w =
     (case build_request os method raw body of
        Inl e \<Rightarrow> (Inl e, w)
      | Inr (req, u) \<Rightarrow>
          send os (signAWSv4 os (AdminAccessKey cfg) (AdminSecretKey cfg) (S3Region cfg) body (ext w) u req) w)"

text \<open>\<^verbatim>\<open>fmt.Errorf("... HTTP %d", status)\<close>\<close>

definition http_error :: "string \<Rightarrow> int \<Rightarrow> go_error" where
  "http_error what status = Msg (what @ '': HTTP '' @ int_str status)"

definition http_error_body :: "string \<Rightarrow> response \<Rightarrow> go_error" where
  "http_error_body what r = Msg (what @ '': HTTP '' @ int_str (rs_status r) @ '': '' @ rs_body r)"

text \<open>A request of which only the status matters.\<close>

definition expect_ok ::
  "string \<Rightarrow> (response \<Rightarrow> go_error) \<Rightarrow> response res \<times> 'x world \<Rightarrow> unit res \<times> 'x world" where
  "expect_ok what bad r =
     (case r of
        (Inl e, w) \<Rightarrow> (Inl (Wrap what e), w)
      | (Inr resp, w) \<Rightarrow> (if rs_status resp \<ge> 300 then Inl (bad resp) else Inr (), w))"

subsection \<open>The bucket operations\<close>

definition ListBuckets :: "'x os \<Rightarrow> s3_config \<Rightarrow> 'x world \<Rightarrow> string list res \<times> 'x world" where
  "ListBuckets os cfg w =
     (case doS3 os cfg ''GET'' (S3URL cfg @ ''/'') [] w of
        (Inl e, w') \<Rightarrow> (Inl (Wrap ''listing buckets'' e), w')
      | (Inr resp, w') \<Rightarrow>
          (if rs_status resp \<ge> 300 then Inl (http_error ''listing buckets'' (rs_status resp))
           else
             (case os_xml os [''Buckets'', ''Bucket'', ''Name''] (rs_body resp) of
                Inl e \<Rightarrow> Inl (Wrap ''parsing bucket list'' (OsErr e))
              | Inr names \<Rightarrow> Inr names), w'))"

definition CreateBucket :: "'x os \<Rightarrow> s3_config \<Rightarrow> bucket_spec \<Rightarrow> 'x world \<Rightarrow> unit res \<times> 'x world" where
  "CreateBucket os cfg spec w =
     (if bs_name spec = [] then (Inl (Msg ''bucket name is required''), w)
      else
        let what = ''creating bucket '' @ bs_name spec in
        expect_ok what (\<lambda>r. http_error what (rs_status r))
          (doS3 os cfg ''PUT'' (S3URL cfg @ ''/'' @ bs_name spec) [] w))"

definition lifecycle_rule_xml :: "nat \<Rightarrow> lifecycle_rule \<Rightarrow> string" where
  "lifecycle_rule_xml i r =
     ''<Rule><ID>rule-'' @ nat_str (i + 1) @ ''</ID><Filter><Prefix>'' @ lr_prefix r
       @ ''</Prefix></Filter><Status>Enabled</Status><Expiration><Days>'' @ int_str (lr_expire_days r)
       @ ''</Days></Expiration></Rule>''"

definition lifecycle_xml :: "lifecycle_rule list \<Rightarrow> string" where
  "lifecycle_xml rules =
     ''<LifecycleConfiguration>'' @ concat (map (\<lambda>(i, r). lifecycle_rule_xml i r) (List.enumerate 0 rules))
       @ ''</LifecycleConfiguration>''"

definition putLifecycle :: "'x os \<Rightarrow> s3_config \<Rightarrow> string \<Rightarrow> lifecycle_rule list \<Rightarrow> 'x world \<Rightarrow> unit res \<times> 'x world" where
  "putLifecycle os cfg bucket rules w =
     (let what = ''setting lifecycle on '' @ bucket in
      expect_ok what (\<lambda>r. http_error what (rs_status r))
        (doS3 os cfg ''PUT'' (S3URL cfg @ ''/'' @ bucket @ ''?lifecycle'') (lifecycle_xml rules) w))"

definition UpdateBucket :: "'x os \<Rightarrow> s3_config \<Rightarrow> bucket_spec \<Rightarrow> 'x world \<Rightarrow> unit res \<times> 'x world" where
  "UpdateBucket os cfg spec w =
     (if bs_name spec = [] then (Inl (Msg ''bucket name is required''), w)
      else if bs_lifecycle_rules spec = [] then (Inr (), w)
      else putLifecycle os cfg (bs_name spec) (bs_lifecycle_rules spec) w)"

definition object_lock_xml :: "string \<Rightarrow> int \<Rightarrow> string" where
  "object_lock_xml mode days =
     ''<?xml version=\"1.0\" encoding=\"UTF-8\"?>''
       @ ''<ObjectLockConfiguration xmlns=\"http://s3.amazonaws.com/doc/2006-03-01/\">''
       @ ''<ObjectLockEnabled>Enabled</ObjectLockEnabled>''
       @ ''<Rule><DefaultRetention><Mode>'' @ mode @ ''</Mode><Days>'' @ int_str days
       @ ''</Days></DefaultRetention></Rule>'' @ ''</ObjectLockConfiguration>''"

definition putObjectLock :: "'x os \<Rightarrow> s3_config \<Rightarrow> string \<Rightarrow> string \<Rightarrow> int \<Rightarrow> 'x world \<Rightarrow> unit res \<times> 'x world" where
  "putObjectLock os cfg bucket mode days w =
     (let what = ''setting object lock on '' @ bucket in
      expect_ok what (http_error_body what)
        (doS3 os cfg ''PUT'' (S3URL cfg @ ''/'' @ bucket @ ''?object-lock'') (object_lock_xml mode days) w))"

text \<open>The checks \<^verbatim>\<open>CreateWORMBucket\<close> and \<^verbatim>\<open>UpdateWORMBucket\<close> start with.\<close>

definition worm_invalid :: "worm_bucket_spec \<Rightarrow> go_error option" where
  "worm_invalid spec =
     (if wb_name spec = [] then Some (Msg ''bucket name is required'')
      else if wb_mode spec \<noteq> ''COMPLIANCE'' \<and> wb_mode spec \<noteq> ''GOVERNANCE'' then
        Some (MsgQ ''object_lock_mode must be COMPLIANCE or GOVERNANCE, got '' (wb_mode spec) [])
      else if wb_retention_days spec \<le> 0 then Some (Msg ''retention_days must be > 0'')
      else None)"

definition CreateWORMBucket :: "'x os \<Rightarrow> s3_config \<Rightarrow> worm_bucket_spec \<Rightarrow> 'x world \<Rightarrow> unit res \<times> 'x world" where
  "CreateWORMBucket os cfg spec w =
     (case worm_invalid spec of
        Some e \<Rightarrow> (Inl e, w)
      | None \<Rightarrow>
          (case build_request os ''PUT'' (S3URL cfg @ ''/'' @ wb_name spec) [] of
             Inl e \<Rightarrow> (Inl e, w)
           | Inr (req, u) \<Rightarrow>
               let what = ''creating WORM bucket '' @ wb_name spec;
                   req1 = signAWSv4 os (AdminAccessKey cfg) (AdminSecretKey cfg) (S3Region cfg) [] (ext w) u
                            (set_header ''x-amz-bucket-object-lock-enabled'' ''true'' req)
               in (case send os req1 w of
                     (Inl e, w') \<Rightarrow> (Inl (Wrap what e), w')
                   | (Inr resp, w') \<Rightarrow>
                       if rs_status resp \<ge> 300 \<and> rs_status resp \<noteq> 409 then
                         (Inl (http_error what (rs_status resp)), w')
                       else putObjectLock os cfg (wb_name spec) (wb_mode spec) (wb_retention_days spec) w')))"

definition UpdateWORMBucket :: "'x os \<Rightarrow> s3_config \<Rightarrow> worm_bucket_spec \<Rightarrow> 'x world \<Rightarrow> unit res \<times> 'x world" where
  "UpdateWORMBucket os cfg spec w =
     (case worm_invalid spec of
        Some e \<Rightarrow> (Inl e, w)
      | None \<Rightarrow> putObjectLock os cfg (wb_name spec) (wb_mode spec) (wb_retention_days spec) w)"

definition DeleteWORMBucket :: "'x os \<Rightarrow> s3_config \<Rightarrow> string \<Rightarrow> 'x world \<Rightarrow> unit res \<times> 'x world" where
  "DeleteWORMBucket os cfg name w =
     (if name = [] then (Inl (Msg ''bucket name is required''), w)
      else
        let what = ''deleting WORM bucket '' @ name in
        expect_ok what (http_error_body what) (doS3 os cfg ''DELETE'' (S3URL cfg @ ''/'' @ name) [] w))"

fun delete_objects :: "'x os \<Rightarrow> s3_config \<Rightarrow> string \<Rightarrow> string list \<Rightarrow> 'x world \<Rightarrow> unit res \<times> 'x world" where
  "delete_objects os cfg name [] w = (Inr (), w)"
| "delete_objects os cfg name (key # keys) w =
     (case doS3 os cfg ''DELETE'' (S3URL cfg @ ''/'' @ name @ ''/'' @ key) [] w of
        (Inl e, w') \<Rightarrow> (Inl (Wrap (''deleting object '' @ key) e), w')
      | (Inr _, w') \<Rightarrow> delete_objects os cfg name keys w')"

definition emptyBucket :: "'x os \<Rightarrow> s3_config \<Rightarrow> string \<Rightarrow> 'x world \<Rightarrow> unit res \<times> 'x world" where
  "emptyBucket os cfg name w =
     (case doS3 os cfg ''GET'' (S3URL cfg @ ''/'' @ name @ ''?list-type=2'') [] w of
        (Inl e, w') \<Rightarrow> (Inl e, w')
      | (Inr resp, w') \<Rightarrow>
          (case os_xml os [''Contents'', ''Key''] (rs_body resp) of
             Inl e \<Rightarrow> (Inl (Wrap ''listing objects'' (OsErr e)), w')
           | Inr keys \<Rightarrow> delete_objects os cfg name keys w'))"

definition DeleteBucket :: "'x os \<Rightarrow> s3_config \<Rightarrow> string \<Rightarrow> bool \<Rightarrow> 'x world \<Rightarrow> unit res \<times> 'x world" where
  "DeleteBucket os cfg name force w =
     (if name = [] then (Inl (Msg ''bucket name is required''), w)
      else
        (case (if force then emptyBucket os cfg name w else (Inr (), w)) of
           (Inl e, w') \<Rightarrow> (Inl (Wrap (''emptying bucket '' @ name) e), w')
         | (Inr _, w') \<Rightarrow>
             let what = ''deleting bucket '' @ name in
             expect_ok what (\<lambda>r. http_error what (rs_status r))
               (doS3 os cfg ''DELETE'' (S3URL cfg @ ''/'' @ name) [] w')))"

subsection \<open>Requests leave the files alone\<close>

lemma send_fs [frame_simps]: "fs (snd (send os req w)) = fs w"
  by (auto simp: send_def split: prod.splits sum.splits)

lemma doS3_fs [frame_simps]: "fs (snd (doS3 os cfg m u b w)) = fs w"
  by (simp add: doS3_def frame_simps split: sum.split prod.split)

lemma expect_ok_world [simp]: "snd (expect_ok what bad r) = snd r"
  by (simp add: expect_ok_def split: sum.split prod.split)

lemma doS3_world: "doS3 os cfg m u b w = (r, w') \<Longrightarrow> fs w' = fs w"
  using doS3_fs[of os cfg m u b w] by simp

lemma send_world: "send os req w = (r, w') \<Longrightarrow> fs w' = fs w"
  using send_fs[of os req w] by simp

lemma ListBuckets_fs [frame_simps]: "fs (snd (ListBuckets os cfg w)) = fs w"
  by (auto simp: ListBuckets_def split: sum.split prod.split dest: doS3_world)

lemma CreateBucket_fs [frame_simps]: "fs (snd (CreateBucket os cfg spec w)) = fs w"
  by (simp add: CreateBucket_def Let_def frame_simps)

lemma putLifecycle_fs [frame_simps]: "fs (snd (putLifecycle os cfg b rules w)) = fs w"
  by (simp add: putLifecycle_def Let_def frame_simps)

lemma UpdateBucket_fs [frame_simps]: "fs (snd (UpdateBucket os cfg spec w)) = fs w"
  by (simp add: UpdateBucket_def frame_simps)

lemma putObjectLock_fs [frame_simps]: "fs (snd (putObjectLock os cfg b mode days w)) = fs w"
  by (simp add: putObjectLock_def Let_def frame_simps)

lemma CreateWORMBucket_fs [frame_simps]: "fs (snd (CreateWORMBucket os cfg spec w)) = fs w"
  by (auto simp: CreateWORMBucket_def Let_def frame_simps split: sum.split prod.split option.split dest!: send_world)

lemma UpdateWORMBucket_fs [frame_simps]: "fs (snd (UpdateWORMBucket os cfg spec w)) = fs w"
  by (simp add: UpdateWORMBucket_def frame_simps split: option.split)

lemma DeleteWORMBucket_fs [frame_simps]: "fs (snd (DeleteWORMBucket os cfg name w)) = fs w"
  by (simp add: DeleteWORMBucket_def Let_def frame_simps)

lemma delete_objects_fs [frame_simps]: "fs (snd (delete_objects os cfg name keys w)) = fs w"
  by (induction os cfg name keys w rule: delete_objects.induct)
     (auto split: sum.split prod.split dest: doS3_world)

lemma emptyBucket_fs [frame_simps]: "fs (snd (emptyBucket os cfg name w)) = fs w"
  by (auto simp: emptyBucket_def frame_simps split: sum.split prod.split dest: doS3_world)

lemma DeleteBucket_fs [frame_simps]: "fs (snd (DeleteBucket os cfg name force w)) = fs w"
proof -
  obtain r w' where e: "(if force then emptyBucket os cfg name w else (Inr (), w)) = (r, w')" by fastforce
  then have "fs w' = fs w" using emptyBucket_fs[of os cfg name w] by (auto split: if_splits)
  then show ?thesis using e by (simp add: DeleteBucket_def Let_def frame_simps split: sum.split)
qed

subsection \<open>Observing the requests\<close>

text \<open>
  \<open>traced os\<close> is \<open>os\<close> with a log of the requests sent in its outside state. Everything else behaves as
  before, so a statement about the log is a statement about what the code sends.
\<close>

definition traced :: "'x os \<Rightarrow> (request list \<times> 'x) os" where
  "traced os = \<lparr>os_fail = (\<lambda>op (l, x). os_fail os op x), os_temp = (\<lambda>(l, x). os_temp os x),
     os_owner = os_owner os,
     os_exec = (\<lambda>c as (l, x). let (r, x') = os_exec os c as x in (r, (l, x'))),
     os_http = (\<lambda>r (l, x). let (a, x') = os_http os r x in (a, (l @ [r], x'))),
     os_url = os_url os, os_date = (\<lambda>(l, x). os_date os x), os_amz_date = (\<lambda>(l, x). os_amz_date os x),
     os_hmac = os_hmac os, os_sha256 = os_sha256 os, os_rfc3339 = os_rfc3339 os,
     os_now = (\<lambda>(l, x). os_now os x), os_xml = os_xml os\<rparr>"

abbreviation sent :: "(request list \<times> 'x) world \<Rightarrow> request list" where
  "sent w \<equiv> fst (ext w)"

definition summary :: "request \<Rightarrow> string \<times> string \<times> string" where
  "summary r = (rq_method r, rq_url r, rq_body r)"

definition header :: "string \<Rightarrow> request \<Rightarrow> string option" where
  "header k r = map_of (rev (rq_headers r)) k"

lemma map_of_filter_key: "map_of (filter (\<lambda>(n, _). n \<noteq> k') xs) k = (if k = k' then None else map_of xs k)"
  by (induction xs) auto

lemma header_set [simp]:
  "header k (set_header k v r) = Some v"
  "k \<noteq> k' \<Longrightarrow> header k (set_header k' v r) = header k r"
  by (simp_all add: header_def set_header_def rev_filter map_of_filter_key)

lemma set_header_frame [simp]:
  "rq_method (set_header k v r) = rq_method r" "rq_url (set_header k v r) = rq_url r"
  "rq_body (set_header k v r) = rq_body r"
  by (simp_all add: set_header_def)

lemma signAWSv4_frame [simp]:
  "rq_method (signAWSv4 os ak sk region body x u req) = rq_method req"
  "rq_url (signAWSv4 os ak sk region body x u req) = rq_url req"
  "rq_body (signAWSv4 os ak sk region body x u req) = rq_body req"
  "k \<notin> {''authorization'', ''x-amz-content-sha256'', ''x-amz-date'', ''host''} \<Longrightarrow>
     header k (signAWSv4 os ak sk region body x u req) = header k req"
  by (simp_all add: signAWSv4_def Let_def)

text \<open>
  What a server that knows the secret checks: the body matches its declared hash, the host header is
  the host of the URL, and the signature is the one it computes itself from the method, the URL and
  these headers.
\<close>

definition sigv4_valid :: "'x os \<Rightarrow> string \<Rightarrow> string \<Rightarrow> string \<Rightarrow> url \<Rightarrow> request \<Rightarrow> bool" where
  "sigv4_valid os ak sk region u req \<longleftrightarrow>
     (case (header ''x-amz-date'' req, header ''x-amz-content-sha256'' req, header ''host'' req,
            header ''authorization'' req) of
        (Some dt, Some h, Some host, Some auth) \<Rightarrow>
          h = awsSHA256Hex os (rq_body req) \<and> host = u_host u \<and>
          auth = auth_header ak (take 8 dt) region
                   (hex_encode (os_hmac os (awsDeriveKey os sk (take 8 dt) region ''s3'')
                     (string_to_sign os dt (take 8 dt) region
                       (canonical_request (rq_method req) (u\<lparr>u_host := host\<rparr>) h dt))))
      | _ \<Rightarrow> False)"

lemma sign_valid:
  assumes "ak \<noteq> []" "sk \<noteq> []"
  shows "sigv4_valid os ak sk (if region = [] then ''us-east-1'' else region) u
    (signAWSv4 os ak sk region (rq_body req) x u req)"
  using assms by (simp add: sigv4_valid_def signAWSv4_def Let_def)

lemma traced_simps [simp]:
  "os_hmac (traced os) = os_hmac os" "os_url (traced os) = os_url os" "os_xml (traced os) = os_xml os"
  "os_sha256 (traced os) = os_sha256 os"
  by (simp_all add: traced_def)

lemma traced_crypto [simp]:
  "awsSHA256Hex (traced os) d = awsSHA256Hex os d"
  "awsDeriveKey (traced os) k d r v = awsDeriveKey os k d r v"
  "string_to_sign (traced os) dt d r c = string_to_sign os dt d r c"
  by (simp_all add: awsSHA256Hex_def awsDeriveKey_def string_to_sign_def)

lemma send_traced:
  "send (traced os) req w = (r, w') \<Longrightarrow> sent w' = sent w @ [req]"
  by (auto simp: send_def traced_def split: prod.splits sum.splits)

lemma doS3_traced:
  assumes "doS3 (traced os) cfg method raw body w = (r, w')"
  obtains "\<not> is_ok r" "w' = w"
  | req u where "sent w' = sent w @ [req]" "summary req = (method, raw, body)" "os_url os raw = Inr u"
    "AdminAccessKey cfg \<noteq> [] \<and> AdminSecretKey cfg \<noteq> [] \<longrightarrow>
      sigv4_valid os (AdminAccessKey cfg) (AdminSecretKey cfg)
        (if S3Region cfg = [] then ''us-east-1'' else S3Region cfg) u req"
proof (cases "os_url os raw")
  case (Inl e)
  then show ?thesis using assms that(1) by (auto simp: doS3_def build_request_def traced_def)
next
  case (Inr u)
  let ?plain = "\<lparr>rq_method = method, rq_url = raw, rq_headers = [], rq_body = body\<rparr>"
  let ?req = "signAWSv4 (traced os) (AdminAccessKey cfg) (AdminSecretKey cfg) (S3Region cfg) body (ext w) u ?plain"
  have "send (traced os) ?req w = (r, w')"
    using assms Inr by (simp add: doS3_def build_request_def traced_def)
  then have "sent w' = sent w @ [?req]" by (rule send_traced)
  moreover have "summary ?req = (method, raw, body)" by (simp add: summary_def)
  moreover have same: "sigv4_valid (traced os) = sigv4_valid os"
    by (intro ext) (simp add: sigv4_valid_def cong: option.case_cong)
  have "AdminAccessKey cfg \<noteq> [] \<and> AdminSecretKey cfg \<noteq> [] \<longrightarrow>
      sigv4_valid os (AdminAccessKey cfg) (AdminSecretKey cfg)
        (if S3Region cfg = [] then ''us-east-1'' else S3Region cfg) u ?req"
    using sign_valid[of "AdminAccessKey cfg" "AdminSecretKey cfg" "traced os" "S3Region cfg" u ?plain "ext w"]
    by (simp add: same)
  ultimately show ?thesis using that(2)[of ?req u] Inr by blast
qed

lemma expect_ok_simps:
  "expect_ok what bad r = (q, w') \<Longrightarrow> w' = snd r"
  by (auto simp: expect_ok_def split: prod.splits sum.splits)

lemma expect_ok_Inr: "fst (expect_ok what bad r) = Inr () \<longleftrightarrow> (\<exists>resp. fst r = Inr resp \<and> rs_status resp < 300)"
  by (auto simp: expect_ok_def split: prod.splits sum.splits)

text \<open>\<open>asked w w' reqs\<close>: from \<open>w\<close> to \<open>w'\<close> exactly the requests \<open>reqs\<close> were sent.\<close>

definition asked ::
  "(request list \<times> 'x) world \<Rightarrow> (request list \<times> 'x) world \<Rightarrow> (string \<times> string \<times> string) list \<Rightarrow> bool" where
  "asked w w' reqs \<longleftrightarrow> map summary (sent w') = map summary (sent w) @ reqs"

lemma asked_refl [simp]: "asked w w []"
  by (simp add: asked_def)

lemma asked_trans: "asked w w1 r1 \<Longrightarrow> asked w1 w2 r2 \<Longrightarrow> asked w w2 (r1 @ r2)"
  by (simp add: asked_def)

lemma doS3_asked:
  assumes "doS3 (traced os) cfg method raw body w = (r, w')"
  shows "asked w w' [] \<and> \<not> is_ok r \<or> asked w w' [(method, raw, body)]"
  using doS3_traced[OF assms] by (metis (no_types, lifting) asked_def asked_refl list.simps(8,9) map_append)

text \<open>A request built by hand, as \<^verbatim>\<open>CreateWORMBucket\<close> does to add its header before signing.\<close>

lemma send_asked: "send (traced os) req w = (r, w') \<Longrightarrow> asked w w' [summary req]"
  by (drule send_traced) (simp add: asked_def)

lemma delete_objects_asked:
  "delete_objects (traced os) cfg name keys w = (r, w') \<Longrightarrow>
    \<exists>reqs. asked w w' reqs \<and>
      prefix reqs (map (\<lambda>k. (''DELETE'', S3URL cfg @ ''/'' @ name @ ''/'' @ k, [])) keys) \<and>
      (is_ok r \<longrightarrow> reqs = map (\<lambda>k. (''DELETE'', S3URL cfg @ ''/'' @ name @ ''/'' @ k, [])) keys)"
proof (induction keys arbitrary: w)
  case Nil
  then show ?case by auto
next
  case (Cons key keys)
  let ?q = "(''DELETE'', S3URL cfg @ ''/'' @ name @ ''/'' @ key, [])"
  obtain r1 w1 where d: "doS3 (traced os) cfg ''DELETE'' (S3URL cfg @ ''/'' @ name @ ''/'' @ key) [] w = (r1, w1)"
    by fastforce
  note a = doS3_asked[OF d]
  show ?case
  proof (cases r1)
    case (Inl e)
    then have "asked w w' [] \<or> asked w w' [?q]" "\<not> is_ok r"
      using Cons.prems d a by auto
    then show ?thesis by (auto intro: exI[of _ "[]"] exI[of _ "[?q]"])
  next
    case (Inr resp)
    then have "asked w w1 [?q]" using a by simp
    moreover obtain reqs where "asked w1 w' reqs"
        "prefix reqs (map (\<lambda>k. (''DELETE'', S3URL cfg @ ''/'' @ name @ ''/'' @ k, [])) keys)"
        "is_ok r \<longrightarrow> reqs = map (\<lambda>k. (''DELETE'', S3URL cfg @ ''/'' @ name @ ''/'' @ k, [])) keys"
      using Cons Inr d by (auto split: prod.splits)
    ultimately show ?thesis
      using asked_trans[of w w1 "[?q]" w' reqs] by (intro exI[of _ "?q # reqs"]) auto
  qed
qed

subsection \<open>Properties\<close>


lemma putObjectLock_asked:
  assumes "putObjectLock (traced os) cfg b mode days w = (r, w')"
  shows "asked w w' [] \<and> \<not> is_ok r
    \<or> asked w w' [(''PUT'', S3URL cfg @ ''/'' @ b @ ''?object-lock'', object_lock_xml mode days)]"
proof -
  obtain r2 w2 where d: "doS3 (traced os) cfg ''PUT'' (S3URL cfg @ ''/'' @ b @ ''?object-lock'')
      (object_lock_xml mode days) w = (r2, w2)" by fastforce
  have "w' = w2" "is_ok r \<Longrightarrow> is_ok r2"
    using assms d by (auto simp: putObjectLock_def expect_ok_def Let_def split: sum.splits)
  then show ?thesis using doS3_asked[OF d] by auto
qed


definition delete_requests :: "s3_config \<Rightarrow> string \<Rightarrow> string list \<Rightarrow> (string \<times> string \<times> string) list" where
  "delete_requests cfg name keys = map (\<lambda>k. (''DELETE'', S3URL cfg @ ''/'' @ name @ ''/'' @ k, [])) keys"

lemma emptyBucket_asked:
  assumes "emptyBucket (traced os) cfg name w = (r, w')"
  shows "\<exists>keys reqs. asked w w' reqs \<and>
     prefix reqs ((''GET'', S3URL cfg @ ''/'' @ name @ ''?list-type=2'', []) # delete_requests cfg name keys) \<and>
     (is_ok r \<longrightarrow> reqs = (''GET'', S3URL cfg @ ''/'' @ name @ ''?list-type=2'', []) # delete_requests cfg name keys)"
proof -
  let ?q = "(''GET'', S3URL cfg @ ''/'' @ name @ ''?list-type=2'', [])"
  obtain r1 w1 where d: "doS3 (traced os) cfg ''GET'' (S3URL cfg @ ''/'' @ name @ ''?list-type=2'') [] w = (r1, w1)"
    by fastforce
  note a = doS3_asked[OF d]
  show ?thesis
  proof (cases "w' = w1 \<and> \<not> is_ok r")
    case True
    then obtain reqs where "asked w w' reqs" "reqs = [] \<or> reqs = [?q]" using a by blast
    then show ?thesis
      using True by (intro exI[of _ "[]"] exI[of _ reqs]) (auto simp: delete_requests_def)
  next
    case False
    then obtain resp keys where k: "r1 = Inr resp" "delete_objects (traced os) cfg name keys w1 = (r, w')"
      using assms d by (auto simp: emptyBucket_def split: sum.splits)
    then have a1: "asked w w1 [?q]" using a by simp
    obtain reqs where reqs: "asked w1 w' reqs" "prefix reqs (delete_requests cfg name keys)"
        "is_ok r \<longrightarrow> reqs = delete_requests cfg name keys"
      using delete_objects_asked[OF k(2)] unfolding delete_requests_def by blast
    then show ?thesis
      using asked_trans[OF a1 reqs(1)] by (intro exI[of _ keys] exI[of _ "?q # reqs"]) simp
  qed
qed


lemma send_answered: "(\<And>r x. \<exists>resp x'. os_http os r x = (Inr resp, x')) \<Longrightarrow> \<exists>resp w'. send os req w = (Inr resp, w')"
  unfolding send_def by (metis (mono_tags, lifting) case_prod_conv old.sum.simps(6))

lemma delete_objects_answered:
  assumes "\<And>r x. \<exists>resp x'. os_http os r x = (Inr resp, x')" "\<And>u. \<exists>v. os_url os u = Inr v"
  shows "fst (delete_objects os cfg name keys w) = Inr ()"
proof (induction keys arbitrary: w)
  case (Cons key keys)
  obtain v where "os_url os (S3URL cfg @ ''/'' @ name @ ''/'' @ key) = Inr v" using assms(2) by blast
  then obtain resp w1 where "doS3 os cfg ''DELETE'' (S3URL cfg @ ''/'' @ name @ ''/'' @ key) [] w = (Inr resp, w1)"
    using send_answered[OF assms(1)] by (fastforce simp: doS3_def build_request_def)
  then show ?case using Cons.IH by simp
qed simp

text \<open>
  Emptying a bucket ignores what the gateway answers: when no request fails in transport and the
  listing parses, emptyBucket reports success even if every object deletion was refused.
\<close>

theorem emptyBucket_ignores_status:
  assumes "\<And>r x. \<exists>resp x'. os_http os r x = (Inr resp, x') \<and> (rq_method r = ''DELETE'' \<longrightarrow> rs_status resp = 403)"
    and "\<And>u. \<exists>v. os_url os u = Inr v" "\<And>b. \<exists>keys. os_xml os [''Contents'', ''Key''] b = Inr keys"
  shows "fst (emptyBucket os cfg name w) = Inr ()"
proof -
  have http: "\<And>r x. \<exists>resp x'. os_http os r x = (Inr resp, x')" using assms(1) by blast
  obtain v where "os_url os (S3URL cfg @ ''/'' @ name @ ''?list-type=2'') = Inr v" using assms(2) by blast
  then obtain resp w1 where "doS3 os cfg ''GET'' (S3URL cfg @ ''/'' @ name @ ''?list-type=2'') [] w = (Inr resp, w1)"
    using send_answered[OF http] by (fastforce simp: doS3_def build_request_def)
  moreover obtain keys where "os_xml os [''Contents'', ''Key''] (rs_body resp) = Inr keys" using assms(3) by blast
  ultimately show ?thesis
    using delete_objects_answered[OF http assms(2)] by (simp add: emptyBucket_def)
qed

subsection \<open>Examples\<close>

definition quiet_world :: "(request list \<times> unit) world" where
  "quiet_world = \<lparr>fs = (\<lambda>p. None), ext = ([], ())\<rparr>"

definition refusing_os :: "unit os" where
  "refusing_os = calm_os\<lparr>os_http := (\<lambda>r x. (Inr \<lparr>rs_status = if rq_method r = ''DELETE'' then 403 else 200,
       rs_headers = [], rs_body = []\<rparr>, x)), os_xml := (\<lambda>p b. Inr [''a.txt'', ''b.txt''])\<rparr>"

definition sample_worm :: worm_bucket_spec where
  "sample_worm = \<lparr>wb_bucket_id = ''w1'', wb_name = ''w1'', wb_owner_tenant_id = [], wb_mode = ''COMPLIANCE'',
     wb_retention_days = 30\<rparr>"

lemma calm_url: "os_url calm_os u = Inr \<lparr>u_host = u, u_path = ''/'', u_query = []\<rparr>"
  by (simp add: calm_os_def)

lemma calm_send: "fst (send (traced calm_os) req w) = Inr \<lparr>rs_status = 200, rs_headers = [], rs_body = []\<rparr>"
  by (simp add: send_def traced_def calm_os_def split: prod.splits)

lemma calm_doS3: "fst (doS3 (traced calm_os) cfg m raw b w) = Inr \<lparr>rs_status = 200, rs_headers = [], rs_body = []\<rparr>"
  by (simp add: doS3_def build_request_def calm_send calm_url)

lemma calm_expect: "fst (expect_ok what bad (doS3 (traced calm_os) cfg m raw b w)) = Inr ()"
  using calm_doS3[of cfg m raw b w] by (simp add: expect_ok_Inr)




theorem emptyBucket_ignores_status_witness:
  "fst (emptyBucket refusing_os sample_config ''b1'' \<lparr>fs = (\<lambda>p. None), ext = ()\<rparr>) = Inr ()"
  by (rule emptyBucket_ignores_status) (simp_all add: refusing_os_def calm_os_def)

end
