(* ===== verification/Config.thy ===== *)
theory Config
  imports S3Types Executor
begin

section \<open>Configuration (internal/config/config.go)\<close>

text \<open>
  The configuration records, the built-in defaults and \<^verbatim>\<open>Load\<close>. Durations are nanoseconds. The library
  viper, which finds the file and merges it with the defaults and the environment, is the parameter
  \<open>viper\<close>.
\<close>

record nats_config =
  ConnectionType :: string
  NatsURL :: string
  WebSocketURL :: string
  NatsAgentUUID :: string
  NatsAPIKey :: string
  SubjectType :: string
  MaxReconnects :: int
  ReconnectWait :: int

record agent_config =
  AgentType :: string
  HeartbeatInterval :: int
  TelemetryInterval :: int
  AllowedOperations :: "string list"
  AllowedCommands :: "string list"

record iso_config =
  MountPath :: string
  FallbackEnv :: bool

record log_config =
  LogLevel :: string
  LogFormat :: string
  LogFile :: string

record autoheal_config =
  AutohealEnabled :: bool
  RestartDelay :: int

record config =
  cfg_nats :: nats_config
  cfg_agent :: agent_config
  cfg_s3 :: s3_config
  cfg_iso :: iso_config
  cfg_log :: log_config
  cfg_autoheal :: autoheal_config

definition AgentVersion :: string where "AgentVersion = ''1.0.0''"

definition ActiveURL :: "nats_config \<Rightarrow> string" where
  "ActiveURL c = (if ConnectionType c = ''websocket'' then WebSocketURL c else NatsURL c)"

subsection \<open>Defaults\<close>

definition default_operations :: "string list" where
  "default_operations =
     [''agent.allowed_operations'',
      ''services.list'', ''services.get'', ''services.start'', ''services.stop'', ''services.restart'',
      ''services.reload'', ''services.enable'', ''services.disable'',
      ''system.info'', ''system.metrics'', ''system.cpu'', ''system.memory'', ''system.disk'',
      ''system.network'', ''system.update'',
      ''telemetry.set_interval'', ''vm.reboot'', ''vm.shutdown'', ''full_sync'',
      ''bucket_create'', ''bucket_update'', ''bucket_delete'', ''iam_create'', ''iam_delete'', ''reconcile'',
      ''worm_bucket_create'', ''worm_bucket_update'', ''worm_bucket_delete'',
      ''s3.cluster.status'', ''s3.bucket.stats'', ''s3.iam.list'', ''s3.customer.block'',
      ''s3.customer.unblock'', ''s3.blocked.list'']"

definition default_s3 :: s3_config where
  "default_s3 = \<lparr>MasterURL = ''http://localhost:9333'', VolumeURL = ''http://localhost:8080'',
     FilerURL = ''http://localhost:8888'', S3URL = ''http://localhost:8333'',
     IAMFile = ''/etc/seaweedfs/s3.json'', WeedS3Service = ''weed-s3'',
     NginxBlockedKeysFile = ''/etc/nginx/conf.d/s3_blocked_keys.conf'',
     NginxAccessLog = ''/var/log/nginx/s3_access.log'', NginxAuditLog = ''/var/log/nginx/s3_audit.log'',
     CapacityWarnPct = 80, CapacityCriticalPct = 90, AdminAccessKey = [], AdminSecretKey = [],
     S3Region = ''us-east-1''\<rparr>"

definition setDefaults :: config where
  "setDefaults = \<lparr>
     cfg_nats = \<lparr>ConnectionType = ''nats'', NatsURL = ''nats://localhost:4222'',
       WebSocketURL = ''ws://localhost:8080'', NatsAgentUUID = [], NatsAPIKey = [], SubjectType = [],
       MaxReconnects = - 1, ReconnectWait = 5 * second\<rparr>,
     cfg_agent = \<lparr>AgentType = ''storage'', HeartbeatInterval = 30 * second, TelemetryInterval = 30 * second,
       AllowedOperations = default_operations, AllowedCommands = []\<rparr>,
     cfg_s3 = default_s3,
     cfg_iso = \<lparr>MountPath = ''/media/plusclouds-config'', FallbackEnv = True\<rparr>,
     cfg_log = \<lparr>LogLevel = ''info'', LogFormat = ''json'', LogFile = []\<rparr>,
     cfg_autoheal = \<lparr>AutohealEnabled = True, RestartDelay = 10 * second\<rparr>\<rparr>"

subsection \<open>Load\<close>

datatype read_config_error = ConfigFileNotFound | ConfigFileBad string

text \<open>
  \<open>vp_read\<close> is \<^verbatim>\<open>ReadInConfig\<close> with an explicit file or, for the empty name, on the search path;
  \<open>vp_unmarshal\<close> is \<^verbatim>\<open>Unmarshal\<close> after it, with the environment overlay, starting from the defaults.
\<close>

record viper =
  vp_read :: "string \<Rightarrow> read_config_error option"
  vp_unmarshal :: "string \<Rightarrow> config \<Rightarrow> string + config"

definition Load :: "viper \<Rightarrow> string \<Rightarrow> config res" where
  "Load v cfgFile =
     (case vp_read v cfgFile of
        Some (ConfigFileBad e) \<Rightarrow> Inl (Wrap ''reading config file'' (OsErr e))
      | _ \<Rightarrow>
          (case vp_unmarshal v cfgFile setDefaults of
             Inl e \<Rightarrow> Inl (Wrap ''unmarshalling config'' (OsErr e))
           | Inr cfg \<Rightarrow> Inr cfg))"

text \<open>No configuration file: the defaults.\<close>

definition stock_viper :: viper where
  "stock_viper = \<lparr>vp_read = (\<lambda>f. Some ConfigFileNotFound), vp_unmarshal = (\<lambda>f c. Inr c)\<rparr>"

end
