(* ===== verification/Protocol.thy ===== *)
theory Protocol
  imports JsonDecode Gateway Config
begin

section \<open>Messages: the envelope and the NATS client (internal/protocol, internal/nats)\<close>

text \<open>
  The envelope that wraps every message, its identifiers, its JSON form in both directions, and the
  client that filters inbound messages and publishes outbound ones. \<^verbatim>\<open>json.RawMessage\<close> is the JSON
  value it holds (\<open>None\<close> is the nil slice); messages are compact, as \<^verbatim>\<open>json.Marshal\<close> writes them. What a
  NATS connection and the random source do is the record \<open>link\<close>.
\<close>

subsection \<open>Types\<close>

record envelope =
  en_v :: int
  en_id :: string
  en_type :: string
  en_agent_type :: string
  en_agent_uuid :: string
  en_timestamp :: int
  en_reply_to :: string
  en_payload :: "json option"

definition zero_envelope :: envelope where
  "zero_envelope = \<lparr>en_v = 0, en_id = [], en_type = [], en_agent_type = [], en_agent_uuid = [],
     en_timestamp = 0, en_reply_to = [], en_payload = None\<rparr>"

record command_payload =
  cp_operation :: string
  cp_params :: "json option"
  cp_timeout_s :: int

text \<open>The output of a result is any Go value; here what \<^verbatim>\<open>json.Marshal\<close> gives for it, nil being \<open>None\<close>.\<close>

record result_payload =
  rp_command_id :: string
  rp_status :: string
  rp_message :: string
  rp_output :: "(string + json) option"

datatype status = StatusCompleted | StatusFailed | StatusRejected

fun status_str :: "status \<Rightarrow> string" where
  "status_str StatusCompleted = ''completed''"
| "status_str StatusFailed = ''failed''"
| "status_str StatusRejected = ''rejected''"

datatype msg_type = TypeCommand | TypeHeartbeat | TypeTelemetry | TypeDiskHealth | TypeAlert | TypeIPMI
  | TypeResult | TypeCapabilities | TypeS3Telemetry | TypeS3Health | TypeS3Audit

fun type_str :: "msg_type \<Rightarrow> string" where
  "type_str TypeCommand = ''command''"
| "type_str TypeHeartbeat = ''heartbeat''"
| "type_str TypeTelemetry = ''telemetry''"
| "type_str TypeDiskHealth = ''disk_health''"
| "type_str TypeAlert = ''alert''"
| "type_str TypeIPMI = ''ipmi''"
| "type_str TypeResult = ''result''"
| "type_str TypeCapabilities = ''capabilities''"
| "type_str TypeS3Telemetry = ''s3_telemetry''"
| "type_str TypeS3Health = ''s3_health''"
| "type_str TypeS3Audit = ''s3_audit''"

subsection \<open>JSON forms\<close>

definition enc_result :: "result_payload \<Rightarrow> string + json" where
  "enc_result r =
     (let members = [(''command_id'', JStr (rp_command_id r)), (''status'', JStr (rp_status r))] @
            omit_empty (rp_message r = []) ''message'' (JStr (rp_message r))
      in case rp_output r of
           None \<Rightarrow> Inr (JObj members)
         | Some (Inl e) \<Rightarrow> Inl e
         | Some (Inr j) \<Rightarrow> Inr (JObj (members @ [(''output'', j)])))"

definition enc_raw :: "json option \<Rightarrow> json" where
  "enc_raw r = (case r of None \<Rightarrow> JNull | Some j \<Rightarrow> j)"

definition enc_envelope :: "envelope \<Rightarrow> json" where
  "enc_envelope e = JObj
     ([(''v'', enc_int (en_v e)), (''id'', JStr (en_id e)), (''type'', JStr (en_type e)),
       (''agent_type'', JStr (en_agent_type e)), (''agent_uuid'', JStr (en_agent_uuid e)),
       (''timestamp'', enc_int (en_timestamp e))] @
      omit_empty (en_reply_to e = []) ''reply_to'' (JStr (en_reply_to e)) @
      [(''payload'', enc_raw (en_payload e))])"

definition dec_raw_message :: "json option decoder" where
  "dec_raw_message j old = Some (Some j)"

definition dec_envelope :: "envelope decoder" where
  "dec_envelope = dec_struct
     [field ''v'' dec_int en_v en_v_update,
      field ''id'' dec_string en_id en_id_update,
      field ''type'' dec_string en_type en_type_update,
      field ''agent_type'' dec_string en_agent_type en_agent_type_update,
      field ''agent_uuid'' dec_string en_agent_uuid en_agent_uuid_update,
      field ''timestamp'' dec_int en_timestamp en_timestamp_update,
      field ''reply_to'' dec_string en_reply_to en_reply_to_update,
      field ''payload'' dec_raw_message en_payload en_payload_update]"

definition dec_command :: "command_payload decoder" where
  "dec_command = dec_struct
     [field ''operation'' dec_string cp_operation cp_operation_update,
      field ''params'' dec_raw_message cp_params cp_params_update,
      field ''timeout_s'' dec_int cp_timeout_s cp_timeout_s_update]"

text \<open>\<^verbatim>\<open>json.Unmarshal\<close> of a raw message: the nil slice is the empty text, which is a syntax error.\<close>

definition unmarshal_raw :: "'a decoder \<Rightarrow> 'a \<Rightarrow> json option \<Rightarrow> 'a res" where
  "unmarshal_raw d zero r =
     (case r of
        None \<Rightarrow> Inl json_error
      | Some j \<Rightarrow> (case d j zero of None \<Rightarrow> Inl json_error | Some v \<Rightarrow> Inr v))"

definition DecodePayload :: "'a decoder \<Rightarrow> 'a \<Rightarrow> envelope \<Rightarrow> 'a res" where
  "DecodePayload d zero e = unmarshal_raw d zero (en_payload e)"

subsection \<open>Building envelopes\<close>

text \<open>
  \<open>lk_random\<close>: the sixteen bytes of \<^verbatim>\<open>rand.Read\<close>; \<open>lk_publish\<close>: \<^verbatim>\<open>nats.Conn.Publish\<close> on a subject;
  \<open>lk_dial\<close>: \<^verbatim>\<open>nats.Connect\<close> to a URL as a user with a password; \<open>lk_subscribe\<close>: \<^verbatim>\<open>nats.Conn.Subscribe\<close>. \<open>lk_float\<close>, \<open>lk_time\<close> and \<open>lk_quote\<close> are the texts
  that the standard library prints for a float and an instant in JSON and for \<^verbatim>\<open>%q\<close>.
\<close>

record 'x link =
  lk_random :: "'x \<Rightarrow> string \<times> 'x"
  lk_publish :: "string \<Rightarrow> string \<Rightarrow> 'x \<Rightarrow> string option \<times> 'x"
  lk_dial :: "string \<Rightarrow> string \<Rightarrow> string \<Rightarrow> 'x \<Rightarrow> string option \<times> 'x"
  lk_subscribe :: "string \<Rightarrow> 'x \<Rightarrow> string option \<times> 'x"
  lk_float :: "rat \<Rightarrow> string"
  lk_time :: "time \<Rightarrow> string"
  lk_quote :: "string \<Rightarrow> string"

text \<open>\<^verbatim>\<open>err.Error()\<close>\<close>

fun err_text :: "'x link \<Rightarrow> go_error \<Rightarrow> string" where
  "err_text lk (Msg s) = s"
| "err_text lk (MsgQ a q b) = a @ lk_quote lk q @ b"
| "err_text lk (Wrap s e) = s @ '': '' @ err_text lk e"
| "err_text lk (OsErr s) = s"

unbundle bit_operations_syntax

definition uuid_bytes :: "string \<Rightarrow> string" where
  "uuid_bytes b =
     (let b1 = b[6 := char_of ((code (b ! 6) AND 0x0F) OR (0x40 :: nat))]
      in b1[8 := char_of ((code (b1 ! 8) AND 0x3F) OR (0x80 :: nat))])"

definition newUUID :: "string \<Rightarrow> string" where
  "newUUID rnd =
     (let b = uuid_bytes rnd; part = (\<lambda>i j. hex_encode (take (j - i) (drop i b)))
      in part 0 4 @ ''-'' @ part 4 6 @ ''-'' @ part 6 8 @ ''-'' @ part 8 10 @ ''-'' @ part 10 16)"

text \<open>\<open>New\<close> takes what \<^verbatim>\<open>json.Marshal\<close> gives for the payload.\<close>

definition New ::
  "'x os \<Rightarrow> 'x link \<Rightarrow> string \<Rightarrow> string \<Rightarrow> string \<Rightarrow> string + json \<Rightarrow> 'x world \<Rightarrow> envelope res \<times> 'x world" where
  "New os lk agentUUID agentType msgType payload w =
     (case payload of
        Inl e \<Rightarrow> (Inl (Wrap ''marshalling payload'' (OsErr e)), w)
      | Inr raw \<Rightarrow>
          let (rnd, x') = lk_random lk (ext w) in
          (Inr \<lparr>en_v = 1, en_id = newUUID rnd, en_type = msgType, en_agent_type = agentType,
                en_agent_uuid = agentUUID, en_timestamp = os_now os x' div second, en_reply_to = [],
                en_payload = Some raw\<rparr>, w\<lparr>ext := x'\<rparr>))"

definition ResultFor ::
  "'x os \<Rightarrow> 'x link \<Rightarrow> envelope \<Rightarrow> string \<Rightarrow> string \<Rightarrow> status \<Rightarrow> string \<Rightarrow> (string + json) option
    \<Rightarrow> 'x world \<Rightarrow> envelope res \<times> 'x world" where
  "ResultFor os lk src agentUUID agentType st message output w =
     New os lk agentUUID agentType (type_str TypeResult)
       (enc_result \<lparr>rp_command_id = en_id src, rp_status = status_str st, rp_message = message,
                    rp_output = output\<rparr>) w"

subsection \<open>The NATS client\<close>

record nats_client =
  cl_agent_uuid :: string
  cl_agent_type :: string

definition Connect ::
  "'x link \<Rightarrow> nats_config \<Rightarrow> string \<Rightarrow> string \<Rightarrow> string \<Rightarrow> 'x world \<Rightarrow> nats_client res \<times> 'x world" where
  "Connect lk cfg agentUUID agentAPIKey agentType w =
     (let subjectType = (if SubjectType cfg \<noteq> [] then SubjectType cfg else agentType);
          url = ActiveURL cfg
      in (case lk_dial lk url agentUUID agentAPIKey (ext w) of
            (Some e, x') \<Rightarrow>
              (Inl (Wrap (''connecting to NATS ('' @ ConnectionType cfg @ '') at '' @ url) (OsErr e)), w\<lparr>ext := x'\<rparr>)
          | (None, x') \<Rightarrow>
              (Inr \<lparr>cl_agent_uuid = agentUUID, cl_agent_type = subjectType\<rparr>, w\<lparr>ext := x'\<rparr>)))"

definition CmdSubject :: "nats_client \<Rightarrow> string" where
  "CmdSubject c = ''agent.'' @ cl_agent_type c @ ''.'' @ cl_agent_uuid c @ ''.cmd''"

definition EvtSubject :: "nats_client \<Rightarrow> string" where
  "EvtSubject c = ''agent.'' @ cl_agent_type c @ ''.'' @ cl_agent_uuid c @ ''.evt''"

definition TelemetrySubject :: "nats_client \<Rightarrow> string" where
  "TelemetrySubject c = cl_agent_type c @ ''.'' @ cl_agent_uuid c @ ''.telemetry''"

definition Subscribe :: "'x link \<Rightarrow> nats_client \<Rightarrow> 'x world \<Rightarrow> unit res \<times> 'x world" where
  "Subscribe lk c w =
     (case lk_subscribe lk (CmdSubject c) (ext w) of
        (Some e, x') \<Rightarrow> (Inl (Wrap (''subscribing to '' @ CmdSubject c) (OsErr e)), w\<lparr>ext := x'\<rparr>)
      | (None, x') \<Rightarrow> (Inr (), w\<lparr>ext := x'\<rparr>))"

text \<open>The callback of \<^verbatim>\<open>Subscribe\<close>: which messages reach the handler, and as what.\<close>

definition received :: "string \<Rightarrow> envelope option" where
  "received data =
     (case unmarshal dec_envelope zero_envelope data of
        Inl _ \<Rightarrow> None
      | Inr env \<Rightarrow> if en_v env \<noteq> 1 then None else Some env)"

definition PublishToSubject :: "'x link \<Rightarrow> string \<Rightarrow> envelope \<Rightarrow> 'x world \<Rightarrow> unit res \<times> 'x world" where
  "PublishToSubject lk subject env w =
     (case lk_publish lk subject (json_compact (enc_envelope env)) (ext w) of
        (Some e, x') \<Rightarrow> (Inl (Wrap (''publishing to '' @ subject) (OsErr e)), w\<lparr>ext := x'\<rparr>)
      | (None, x') \<Rightarrow> (Inr (), w\<lparr>ext := x'\<rparr>))"

definition Publish :: "'x link \<Rightarrow> nats_client \<Rightarrow> envelope \<Rightarrow> 'x world \<Rightarrow> unit res \<times> 'x world" where
  "Publish lk c env w = PublishToSubject lk (EvtSubject c) env w"

subsection \<open>Identifiers are version 4 UUIDs\<close>

lemma set_version: "(n AND 0x0F) OR 0x40 = n mod 16 + (64 :: nat)"
proof -
  have "n AND 0x0F = n mod 16" using take_bit_eq_mask[of 4 n] by (simp add: take_bit_eq_mod mask_eq_exp_minus_1)
  moreover have "\<forall>m \<in> {0..<16}. m OR 64 = m + (64 :: nat)" by code_simp
  ultimately show ?thesis by simp
qed

lemma set_variant: "(n AND 0x3F) OR 0x80 = n mod 64 + (128 :: nat)"
proof -
  have "n AND 0x3F = n mod 64" using take_bit_eq_mask[of 6 n] by (simp add: take_bit_eq_mod mask_eq_exp_minus_1)
  moreover have "\<forall>m \<in> {0..<64}. m OR 128 = m + (128 :: nat)" by code_simp
  ultimately show ?thesis by simp
qed

text \<open>The shape of RFC 4122: x a hex digit, v the version digit, n the variant digit.\<close>

definition uuid_shape :: string where
  "uuid_shape = ''xxxxxxxx-xxxx-vxxx-nxxx-xxxxxxxxxxxx''"

definition shape_ok :: "char \<Rightarrow> char \<Rightarrow> bool" where
  "shape_ok k c =
     (if k = CHR ''x'' then c \<in> set ''0123456789abcdef''
      else if k = CHR ''v'' then c = CHR ''4''
      else if k = CHR ''n'' then c \<in> set ''89ab''
      else c = k)"

definition uuid_v4 :: "string \<Rightarrow> bool" where
  "uuid_v4 s = list_all2 shape_ok uuid_shape s"

lemma hex_char_digit: "n < 16 \<Longrightarrow> hex_char n \<in> set ''0123456789abcdef''"
proof -
  have "\<forall>n \<in> {0..<16}. hex_char n \<in> set ''0123456789abcdef''" by code_simp
  then show "n < 16 \<Longrightarrow> hex_char n \<in> set ''0123456789abcdef''" by simp
qed

lemma hex_char_in [simp]: "hex_char (n mod 16) \<in> set ''0123456789abcdef''"
  "hex_char (code c div 16) \<in> set ''0123456789abcdef''"
proof -
  have "code c < 256" by simp
  then have "code c div 16 < 16" by linarith
  then show "hex_char (code c div 16) \<in> set ''0123456789abcdef''" by (rule hex_char_digit)
qed (simp only: hex_char_digit mod_less_divisor zero_less_numeral)

lemma version_digit: "hex_char ((n mod 16 + 64) div 16) = CHR ''4''"
proof -
  have "hex_char 4 = CHR ''4''" by code_simp
  moreover have "(n mod 16 + 64) div 16 = (4 :: nat)" by simp
  ultimately show ?thesis by simp
qed

lemma variant_digit: "hex_char ((n mod 64 + 128) div 16) \<in> set ''89ab''"
proof -
  have "\<forall>m \<in> {0..<64}. hex_char ((m + 128) div 16) \<in> set ''89ab''" by code_simp
  then show ?thesis by simp
qed

text \<open>
  C39. Whatever the random source returns, a message identifier has the form of a version 4, variant 1
  UUID: 36 characters, hyphens in their places, lower-case hex digits elsewhere.
\<close>

theorem newUUID_v4:
  assumes "length rnd = 16"
  shows "uuid_v4 (newUUID rnd)"
proof -
  obtain a0 a1 a2 a3 a4 a5 a6 a7 a8 a9 b0 b1 b2 b3 b4 b5
    where "rnd = [a0, a1, a2, a3, a4, a5, a6, a7, a8, a9, b0, b1, b2, b3, b4, b5]"
    using assms by (auto simp: length_Suc_conv numeral_eq_Suc)
  then show ?thesis
    using variant_digit[of "code a8"]
    by (simp add: newUUID_def uuid_bytes_def set_version set_variant Let_def uuid_v4_def uuid_shape_def
        shape_ok_def hex_encode_def version_digit del: list.set set_simps)
qed

theorem newUUID_v4_witness:
  "uuid_v4 (newUUID (replicate 16 (CHR ''s''))) \<and> newUUID (replicate 16 (CHR ''s'')) ! 14 = CHR ''4''"
proof -
  have "uuid_v4 (newUUID (replicate 16 (CHR ''s'')))" by (rule newUUID_v4) simp
  moreover have "newUUID (replicate 16 (CHR ''s'')) ! 14 = CHR ''4''" by code_simp
  ultimately show ?thesis by simp
qed

subsection \<open>What one side publishes the other receives\<close>

text \<open>The envelopes the wire format represents: 64-bit integers, UTF-8 text, a payload within the nesting limit.\<close>

definition sendable :: "envelope \<Rightarrow> bool" where
  "sendable e \<longleftrightarrow>
     - (2 ^ 63) \<le> en_timestamp e \<and> en_timestamp e < 2 ^ 63 \<and>
     (\<forall>s \<in> {en_id e, en_type e, en_agent_type e, en_agent_uuid e, en_reply_to e}. valid_utf8 s) \<and>
     (\<exists>j. en_payload e = Some j \<and> wf_json j \<and> depth j < max_depth)"

lemma dec_enc_envelope:
  assumes "sendable e" "en_v e = 1"
  shows "dec_envelope (enc_envelope e) zero_envelope = Some e"
  using assms by (cases e)
    (auto simp: dec_envelope_def enc_envelope_def sendable_def field_def find_field_def zero_envelope_def
      dec_raw_message_def enc_raw_def omit_empty_def dec_int_enc)

lemma wf_enc_envelope: "sendable e \<Longrightarrow> wf_json (enc_envelope e)"
  by (auto simp: enc_envelope_def sendable_def omit_empty_def enc_raw_def)

lemma depth_enc_envelope: "sendable e \<Longrightarrow> depth (enc_envelope e) \<le> max_depth"
  by (auto simp: enc_envelope_def sendable_def omit_empty_def enc_raw_def enc_int_def)

lemma received_published:
  "sendable e \<Longrightarrow> en_v e = 1 \<Longrightarrow> received (json_compact (enc_envelope e)) = Some e"
  by (simp add: received_def unmarshal_compact wf_enc_envelope depth_enc_envelope dec_enc_envelope)

lemma received_version: "received data = Some env \<Longrightarrow> en_v env = 1"
  by (auto simp: received_def split: sum.splits if_splits)

text \<open>
  C24. An envelope of protocol version 1 that one side publishes is received by the other side's
  subscription exactly as it was, payload included; an envelope of another version never reaches the
  handler.
\<close>

theorem envelope_roundtrip:
  assumes "sendable e"
  shows "received (json_compact (enc_envelope (e\<lparr>en_v := 1\<rparr>))) = Some (e\<lparr>en_v := 1\<rparr>) \<and>
    (\<forall>data env. received data = Some env \<longrightarrow> en_v env = 1)"
proof -
  have "sendable (e\<lparr>en_v := 1\<rparr>)" using assms by (simp add: sendable_def)
  then show ?thesis using received_version by (simp add: received_published)
qed

definition sample_command :: envelope where
  "sample_command = \<lparr>en_v = 1, en_id = ''id-1'', en_type = ''command'', en_agent_type = ''storage'',
     en_agent_uuid = ''u-1'', en_timestamp = 1700000000, en_reply_to = ''_INBOX.1'',
     en_payload = Some (JObj [(''operation'', JStr ''s3.iam.list'')])\<rparr>"

theorem envelope_roundtrip_witness:
  "received (json_compact (enc_envelope sample_command)) = Some sample_command"
proof -
  have "sendable sample_command" by (simp add: sendable_def sample_command_def max_depth_def)
  moreover have "sample_command\<lparr>en_v := 1\<rparr> = sample_command" by (simp add: sample_command_def)
  ultimately show ?thesis using envelope_roundtrip[of sample_command] by simp
qed

end
