(* ===== verification/LogTail.thy ===== *)
theory LogTail
  imports Float64 S3Types Gateway JsonDecode
begin

section \<open>Tailing the Nginx logs (internal/modules/s3/observer.go)\<close>

text \<open>
  The traffic collector and the audit tailer read what a log file has grown by since their last read.
  The first part is that read, with its byte offset, its reset after log rotation and its error
  returns; the rest is what each does with the lines. Counters are 64-bit words.
\<close>

subsection \<open>Reading what is new\<close>

text \<open>
  \<open>tail_read os p offset w\<close>: the new offset and the bytes read (none on any error). The offset is reset when
  the file is shorter than it, and that reset is kept even where the read then fails.
\<close>

definition tail_read :: "'x os \<Rightarrow> string \<Rightarrow> nat \<Rightarrow> 'x world \<Rightarrow> nat \<times> string" where
  "tail_read os p offset w =
     (if os_fail os (OpOpen p) (ext w) \<noteq> None then (offset, [])
      else
        (case fs w p of
           None \<Rightarrow> (offset, [])
         | Some f \<Rightarrow>
             let offset1 = (if os_fail os (OpStat p) (ext w) = None \<and> offset > length (f_data f) then 0 else offset)
             in if os_fail os (OpRead p) (ext w) \<noteq> None then (offset1, [])
                else
                  let data = drop offset1 (f_data f) in
                  if data = [] then (offset1, []) else (offset1 + length data, data)))"

definition log_lines :: "string \<Rightarrow> string list" where
  "log_lines data = split_on newline (trim_right_char newline data)"

subsection \<open>Traffic accounting\<close>

record traffic_stat =
  ts_bucket_name :: string
  ts_bytes_in :: i64
  ts_bytes_out :: i64
  ts_requests :: i64

definition before_char :: "char \<Rightarrow> string \<Rightarrow> string" where
  "before_char c s = (case index_char c s of None \<Rightarrow> s | Some i \<Rightarrow> take i s)"

definition extractBucketFromURI :: "string \<Rightarrow> string" where
  "extractBucketFromURI uri =
     before_char (CHR ''/'') (trim_prefix (before_char (CHR ''?'') uri) ''/'')"

definition int64 :: "int \<Rightarrow> i64" where
  "int64 i = word_of_int i"

definition parseTrafficLine :: "string \<Rightarrow> string \<times> i64 \<times> i64" where
  "parseTrafficLine line =
     (let f = str_fields line in
      if length f < 6 then ([], 0, 0)
      else
        let method = f ! 1; uri = f ! 2;
            status = fst (atoi (f ! 3));
            bytesSent = int64 (fst (parse_int (f ! 4)));
            reqLength = int64 (fst (parse_int (f ! 5)))
        in if status < 200 \<or> status \<ge> 300 then ([], 0, 0)
           else
             let bucket = extractBucketFromURI uri in
             if bucket = [] then ([], 0, 0)
             else if method = ''PUT'' \<or> method = ''POST'' then (bucket, reqLength, 0)
             else if method = ''GET'' then (bucket, 0, bytesSent)
             else (bucket, 0, 0))"

text \<open>
  The accumulation over the lines. The Go map is an association list in the order of first insertion; the
  code hands its entries out in the unspecified order of map iteration, so only statements that do not
  depend on the order are made about the result.
\<close>

fun add_traffic :: "string \<Rightarrow> i64 \<Rightarrow> i64 \<Rightarrow> traffic_stat list \<Rightarrow> traffic_stat list" where
  "add_traffic b i out [] = [\<lparr>ts_bucket_name = b, ts_bytes_in = i, ts_bytes_out = out, ts_requests = 1\<rparr>]"
| "add_traffic b i out (ts # acc) =
     (if ts_bucket_name ts = b then
        ts\<lparr>ts_bytes_in := ts_bytes_in ts + i, ts_bytes_out := ts_bytes_out ts + out,
           ts_requests := ts_requests ts + 1\<rparr> # acc
      else ts # add_traffic b i out acc)"

definition traffic_line :: "string \<Rightarrow> traffic_stat list \<Rightarrow> traffic_stat list" where
  "traffic_line line acc =
     (case parseTrafficLine line of (b, i, out) \<Rightarrow> if b = [] then acc else add_traffic b i out acc)"

definition traffic_of :: "string \<Rightarrow> traffic_stat list" where
  "traffic_of data = fold traffic_line (log_lines data) []"

text \<open>\<^verbatim>\<open>trafficCollector.flush\<close>: a nil result and an empty one are both the empty list here.\<close>

definition flush :: "'x os \<Rightarrow> string \<Rightarrow> nat \<Rightarrow> 'x world \<Rightarrow> nat \<times> traffic_stat list" where
  "flush os path offset w =
     (let (offset', data) = tail_read os path offset w in
      (offset', if data = [] then [] else traffic_of data))"

subsection \<open>Tailing loses and repeats nothing\<close>

text \<open>The file system calls on \<open>p\<close> succeed in the worlds of a list, and the file holds these contents.\<close>

definition log_world :: "'x os \<Rightarrow> string \<Rightarrow> string \<Rightarrow> 'x world \<Rightarrow> bool" where
  "log_world os p data w \<longleftrightarrow>
     os_fail os (OpOpen p) (ext w) = None \<and> os_fail os (OpStat p) (ext w) = None \<and>
     os_fail os (OpRead p) (ext w) = None \<and> (\<exists>f. fs w p = Some f \<and> f_data f = data)"

lemma tail_read_grown:
  assumes "log_world os p (old @ new) w"
  shows "tail_read os p (length old) w = (length (old @ new), new)"
  using assms by (auto simp: tail_read_def log_world_def Let_def)

lemma tail_read_rotated:
  assumes "log_world os p data w" "length data < offset"
  shows "tail_read os p offset w = (length data, data)"
  using assms by (auto simp: tail_read_def log_world_def Let_def)

lemma tail_read_bound:
  "tail_read os p offset w = (offset', data) \<Longrightarrow> data \<noteq> [] \<Longrightarrow>
     \<exists>f. fs w p = Some f \<and> offset' = length (f_data f) \<and> suffix data (f_data f)"
  by (auto simp: tail_read_def Let_def suffix_drop split: if_splits option.splits)

text \<open>
  A log tailer in general: the bytes a poll delivers from an offset, and the contract that a poll of a
  grown file delivers what it has grown by. Any number of polls of a growing file then delivers the file,
  in pieces. \<open>holds c w\<close> says that in world \<open>w\<close> the file can be read and holds \<open>c\<close>.
\<close>

fun polls :: "('w \<Rightarrow> nat \<Rightarrow> nat \<times> string) \<Rightarrow> 'w list \<Rightarrow> nat \<Rightarrow> nat \<times> string list" where
  "polls poll [] off = (off, [])"
| "polls poll (w # ws) off =
     (let (off1, d) = poll w off; (off2, ds) = polls poll ws off1 in (off2, d # ds))"

fun grows :: "(string \<Rightarrow> 'w \<Rightarrow> bool) \<Rightarrow> string \<Rightarrow> string list \<Rightarrow> 'w list \<Rightarrow> bool" where
  "grows holds old [] ws = (ws = [])"
| "grows holds old (c # cs) ws =
     (case ws of [] \<Rightarrow> False | w # ws' \<Rightarrow> holds (old @ c) w \<and> grows holds (old @ c) cs ws')"

locale tailer =
  fixes poll :: "'w \<Rightarrow> nat \<Rightarrow> nat \<times> string"
    and holds :: "string \<Rightarrow> 'w \<Rightarrow> bool"
  assumes poll_grown: "holds (old @ new) w \<Longrightarrow> poll w (length old) = (length (old @ new), new)"
begin

lemma polls_grown:
  "grows holds old cs ws \<Longrightarrow> polls poll ws (length old) = (length (old @ concat cs), cs)"
proof (induction cs arbitrary: old ws)
  case Nil
  then show ?case by simp
next
  case (Cons c cs)
  then obtain w ws' where ws: "ws = w # ws'" "holds (old @ c) w" "grows holds (old @ c) cs ws'"
    by (auto split: list.splits)
  then show ?case using Cons.IH[of "old @ c" ws'] poll_grown[OF ws(2)] by simp
qed

end

interpretation log: tailer "\<lambda>w off. tail_read os p off w" "log_world os p" for os p
  by unfold_locales (rule tail_read_grown)

subsection \<open>Totals of traffic statistics\<close>

text \<open>
  The counters of a bucket: bytes in, bytes out and requests, each wrapping at 64 bits. Tallies are a
  commutative monoid, so the library's sums apply to them.
\<close>

datatype tally = Tally (tl_in: i64) (tl_out: i64) (tl_requests: i64)

instantiation tally :: comm_monoid_add
begin

definition zero_tally :: tally where
  "zero_tally = Tally 0 0 0"

fun plus_tally :: "tally \<Rightarrow> tally \<Rightarrow> tally" where
  "plus_tally (Tally a b c) (Tally d e f) = Tally (a + d) (b + e) (c + f)"

instance
proof
  fix x y z :: tally
  show "x + y + z = x + (y + z)" by (cases x; cases y; cases z) (simp add: add.assoc)
  show "x + y = y + x" by (cases x; cases y) (simp add: add.commute)
  show "0 + x = x" by (cases x) (simp add: zero_tally_def)
qed

end

definition stat_tally :: "traffic_stat \<Rightarrow> tally" where
  "stat_tally ts = Tally (ts_bytes_in ts) (ts_bytes_out ts) (ts_requests ts)"

definition traffic_total :: "string \<Rightarrow> traffic_stat list \<Rightarrow> tally" where
  "traffic_total b sts = sum_list (map stat_tally (filter (\<lambda>ts. ts_bucket_name ts = b) sts))"

definition line_total :: "string \<Rightarrow> string \<Rightarrow> tally" where
  "line_total b l = (case parseTrafficLine l of (b', i, out) \<Rightarrow> if b' \<noteq> [] \<and> b' = b then Tally i out 1 else 0)"

definition lines_total :: "string \<Rightarrow> string list \<Rightarrow> tally" where
  "lines_total b ls = sum_list (map (line_total b) ls)"

lemma total_add: "traffic_total b (add_traffic b' i out acc)
    = (if b = b' then Tally i out 1 else 0) + traffic_total b acc"
proof (induction acc)
  case Nil
  then show ?case by (simp add: traffic_total_def stat_tally_def)
next
  case (Cons ts acc)
  have "stat_tally (ts\<lparr>ts_bytes_in := ts_bytes_in ts + i, ts_bytes_out := ts_bytes_out ts + out,
      ts_requests := ts_requests ts + 1\<rparr>) = Tally i out 1 + stat_tally ts"
    by (simp add: stat_tally_def add.commute)
  then show ?case using Cons by (auto simp: traffic_total_def add.assoc add.left_commute)
qed

lemma total_line: "traffic_total b (traffic_line l acc) = line_total b l + traffic_total b acc"
  by (auto simp: traffic_line_def line_total_def total_add split: prod.splits)

lemma lines_total_append: "lines_total b (xs @ ys) = lines_total b xs + lines_total b ys"
  by (simp add: lines_total_def)

lemma total_fold: "traffic_total b (fold traffic_line ls acc) = lines_total b ls + traffic_total b acc"
  by (induction ls arbitrary: acc) (simp_all add: lines_total_def total_line add.assoc add.left_commute)

lemma empty_line [simp]: "parseTrafficLine [] = ([], 0, 0)"
proof -
  have "str_fields [] = []" by (subst str_fields.simps) (simp add: trim_left_space.simps space_len_def)
  then show ?thesis by (simp add: parseTrafficLine_def)
qed

lemma lines_total_newlines: "lines_total b (split_on newline (d @ replicate n newline)) = lines_total b (split_on newline d)"
proof (induction n)
  case (Suc n)
  have "d @ replicate (Suc n) newline = (d @ replicate n newline) @ newline # []"
    by (simp add: replicate_append_same)
  then have "split_on newline (d @ replicate (Suc n) newline) = split_on newline (d @ replicate n newline) @ [[]]"
    by (simp only: split_on_append_sep) simp
  then show ?case using Suc by (simp add: lines_total_append) (simp add: lines_total_def line_total_def)
qed simp

lemma trim_right_replicate: "\<exists>n. d = trim_right_char c d @ replicate n c"
proof (induction d rule: rev_induct)
  case Nil
  then show ?case by simp
next
  case (snoc x d)
  then show ?case
    by (cases "x = c") (auto simp: trim_right_char_snoc replicate_append_same [symmetric]
        intro: exI[of _ 0] exI[of _ "Suc n" for n])
qed

lemma traffic_of_total: "traffic_total b (traffic_of d) = lines_total b (split_on newline d)"
proof -
  obtain n where n: "d = trim_right_char newline d @ replicate n newline"
    using trim_right_replicate by blast
  have "traffic_total b [] = 0" by (simp add: traffic_total_def)
  then show ?thesis
    using lines_total_newlines[of b "trim_right_char newline d" n] n
    by (simp add: traffic_of_def total_fold log_lines_def)
qed

lemma traffic_of_append:
  "traffic_total b (traffic_of (d @ newline # e)) = traffic_total b (traffic_of (d @ [newline])) + traffic_total b (traffic_of e)"
  using lines_total_newlines[of b d 1]
  by (simp add: traffic_of_total split_on_append_sep lines_total_append)

text \<open>Flushing in successive worlds.\<close>

fun flushes :: "'x os \<Rightarrow> string \<Rightarrow> 'x world list \<Rightarrow> nat \<Rightarrow> nat \<times> traffic_stat list list" where
  "flushes os p [] off = (off, [])"
| "flushes os p (w # ws) off =
     (let (off1, st) = flush os p off w; (off2, sts) = flushes os p ws off1 in (off2, st # sts))"

lemma flushes_polls:
  "flushes os p ws off =
     (case polls (\<lambda>w off. tail_read os p off w) ws off of
        (off', ds) \<Rightarrow> (off', map (\<lambda>d. if d = [] then [] else traffic_of d) ds))"
  by (induction ws arbitrary: off) (auto simp: flush_def Let_def split: prod.splits)

lemma traffic_of_Nil [simp]: "traffic_of [] = []"
  by (simp add: traffic_of_def log_lines_def traffic_line_def)

lemma windows_total:
  assumes "\<forall>c \<in> set cs. c = [] \<or> last c = newline"
  shows "sum_list (map (traffic_total b) (map (\<lambda>d. if d = [] then [] else traffic_of d) cs))
    = traffic_total b (traffic_of (concat cs))"
  using assms
proof (induction cs)
  case Nil
  then show ?case by (simp add: traffic_total_def)
next
  case (Cons c cs)
  show ?case
  proof (cases "c = []")
    case True
    then show ?thesis using Cons by (simp add: traffic_total_def)
  next
    case False
    then obtain d where d: "c = d @ [newline]" using Cons.prems by (metis append_butlast_last_id list.set_intros(1))
    then show ?thesis
      using Cons traffic_of_append[of b d "concat cs"] by (simp add: comp_def)
  qed
qed


lemma names_add_traffic:
  "set (map ts_bucket_name (add_traffic b i out acc)) = insert b (set (map ts_bucket_name acc))"
  by (induction acc) auto

lemma distinct_add_traffic:
  "distinct (map ts_bucket_name acc) \<Longrightarrow> distinct (map ts_bucket_name (add_traffic b i out acc))"
proof (induction acc)
  case (Cons ts acc)
  then show ?case using names_add_traffic[of b i out acc] by auto
qed simp

lemma distinct_traffic_fold:
  "distinct (map ts_bucket_name acc) \<Longrightarrow> distinct (map ts_bucket_name (fold traffic_line ls acc))"
  by (induction ls arbitrary: acc) (auto simp: traffic_line_def distinct_add_traffic split: prod.splits)

lemma lines_total_requests:
  "tl_requests (lines_total b ls) = of_nat (length (filter (\<lambda>l. b \<noteq> [] \<and> fst (parseTrafficLine l) = b) ls))"
proof (induction ls)
  case Nil
  then show ?case by (simp add: lines_total_def zero_tally_def)
next
  case (Cons l ls)
  have "tl_requests (x + y) = tl_requests x + tl_requests y" for x y by (cases x; cases y) simp
  then show ?case using Cons by (auto simp: lines_total_def line_total_def zero_tally_def split: prod.splits)
qed

text \<open>
  What a flush reports: each bucket once, and for each bucket the sums over the lines that
  parseTrafficLine attributes to it, requests being their number.
\<close>

theorem flush_reports:
  assumes "log_world os p data w" "data \<noteq> []"
  shows "flush os p 0 w = (length data, traffic_of data) \<and>
    distinct (map ts_bucket_name (traffic_of data)) \<and>
    traffic_total b (traffic_of data) = lines_total b (split_on newline data) \<and>
    tl_requests (traffic_total b (traffic_of data))
      = of_nat (length (filter (\<lambda>l. b \<noteq> [] \<and> fst (parseTrafficLine l) = b) (split_on newline data)))"
proof -
  have "tail_read os p (length ([] :: string)) w = (length ([] @ data), data)"
    by (rule tail_read_grown) (use assms in simp)
  then have "flush os p 0 w = (length data, traffic_of data)" using assms(2) by (simp add: flush_def)
  moreover have "distinct (map ts_bucket_name (traffic_of data))"
    unfolding traffic_of_def by (rule distinct_traffic_fold) simp
  ultimately show ?thesis by (simp add: traffic_of_total lines_total_requests)
qed

subsection \<open>The audit log\<close>

record audit_event =
  ae_bucket :: string
  ae_object_key :: string
  ae_action :: string
  ae_size_bytes :: i64
  ae_retain_until :: "time option"
  ae_access_key :: string
  ae_client_ip :: string
  ae_performed_at :: time

definition splitBucketKey :: "string \<Rightarrow> string \<times> string" where
  "splitBucketKey uri0 =
     (let uri = trim_prefix (before_char (CHR ''?'') uri0) ''/'' in
      case index_char (CHR ''/'') uri of
        Some i \<Rightarrow> (take i uri, drop (Suc i) uri)
      | None \<Rightarrow> (uri, []))"

definition extractAccessKey :: "string \<Rightarrow> string" where
  "extractAccessKey auth =
     (case index_of auth ''Credential='' of
        None \<Rightarrow> []
      | Some i \<Rightarrow> before_char (CHR ''/'') (drop (i + length ''Credential='') auth))"

text \<open>
  \<^verbatim>\<open>time.Unix(int64(f), int64((f - float64(int64(f))) * 1e9))\<close>, in nanoseconds since the epoch. The
  conversions to \<^verbatim>\<open>int64\<close> are exact truncations for every timestamp below 2^63.
\<close>

definition msec_time :: "string \<Rightarrow> time" where
  "msec_time s =
     (let f = fst (parse_float s); sec = trunc f;
          nsec = trunc (f64 (f64 (f - f64 (of_int sec)) * 1000000000))
      in sec * 1000000000 + nsec)"

definition parseAuditLine :: "string \<Rightarrow> audit_event option" where
  "parseAuditLine line =
     (let parts = split_n 7 (CHR '' '') line in
      if length parts < 7 then None
      else
        let method = parts ! 1 in
        if method \<noteq> ''PUT'' \<and> method \<noteq> ''POST'' \<and> method \<noteq> ''DELETE'' then None
        else
          let status = fst (atoi (parts ! 3)) in
          if status < 200 \<or> status \<ge> 300 then None
          else
            let (bucket, key) = splitBucketKey (parts ! 2) in
            if bucket = [] then None
            else Some \<lparr>ae_bucket = bucket, ae_object_key = key,
                   ae_action = (if method = ''POST'' then ''PUT'' else method),
                   ae_size_bytes = (if method \<noteq> ''DELETE'' then int64 (fst (parse_int (parts ! 4))) else 0),
                   ae_retain_until = None,
                   ae_access_key = extractAccessKey (trim_char quote (parts ! 6)),
                   ae_client_ip = parts ! 5,
                   ae_performed_at = msec_time (parts ! 0)\<rparr>)"

definition readNewLines :: "'x os \<Rightarrow> s3_config \<Rightarrow> nat \<Rightarrow> 'x world \<Rightarrow> nat \<times> string list" where
  "readNewLines os cfg offset w =
     (let (offset', data) = tail_read os (NginxAuditLog cfg) offset w in
      (offset', if data = [] then [] else filter (\<lambda>l. l \<noteq> []) (log_lines data)))"

definition response_header :: "string \<Rightarrow> response \<Rightarrow> string" where
  "response_header k r = (case map_of (rs_headers r) k of None \<Rightarrow> [] | Some v \<Rightarrow> v)"

definition queryRetainUntil ::
  "'x os \<Rightarrow> s3_config \<Rightarrow> string \<Rightarrow> string \<Rightarrow> 'x world \<Rightarrow> time option \<times> 'x world" where
  "queryRetainUntil os cfg bucket key w =
     (case build_request os ''HEAD'' (S3URL cfg @ ''/'' @ bucket @ ''/'' @ key) [] of
        Inl _ \<Rightarrow> (None, w)
      | Inr (req, u) \<Rightarrow>
          (case send os (signAWSv4 os (AdminAccessKey cfg) (AdminSecretKey cfg) (S3Region cfg) [] (ext w) u req) w of
             (Inl _, w') \<Rightarrow> (None, w')
           | (Inr resp, w') \<Rightarrow>
               (if rs_status resp \<noteq> 200 then None
                else
                  let raw = response_header ''x-amz-object-lock-retain-until-date'' resp in
                  if raw = [] then None else os_rfc3339 os raw, w')))"

text \<open>
  The tailer's state: offset, the buffered channel (capacity 512, oldest first) and, as a ghost, the
  events it dropped because the channel was full. The publisher receives from the other end.
\<close>

record audit_tailer =
  at_offset :: nat
  at_ch :: "audit_event list"
  at_dropped :: "audit_event list"

definition audit_capacity :: nat where "audit_capacity = 512"

definition offer :: "audit_event \<Rightarrow> audit_tailer \<Rightarrow> audit_tailer" where
  "offer e t =
     (if length (at_ch t) < audit_capacity then t\<lparr>at_ch := at_ch t @ [e]\<rparr>
      else t\<lparr>at_dropped := at_dropped t @ [e]\<rparr>)"

definition audit_line :: "'x os \<Rightarrow> s3_config \<Rightarrow> string \<Rightarrow> audit_tailer \<times> 'x world \<Rightarrow> audit_tailer \<times> 'x world" where
  "audit_line os cfg line tw =
     (case parseAuditLine line of
        None \<Rightarrow> tw
      | Some evt \<Rightarrow>
          let (t, w) = tw;
              (ru, w') = (if ae_action evt = ''PUT'' \<and> ae_object_key evt \<noteq> []
                          then queryRetainUntil os cfg (ae_bucket evt) (ae_object_key evt) w
                          else (ae_retain_until evt, w))
          in (offer (evt\<lparr>ae_retain_until := ru\<rparr>) t, w'))"

definition audit_poll :: "'x os \<Rightarrow> s3_config \<Rightarrow> audit_tailer \<times> 'x world \<Rightarrow> audit_tailer \<times> 'x world" where
  "audit_poll os cfg tw =
     (let (t, w) = tw; (off, ls) = readNewLines os cfg (at_offset t) w in
      fold (audit_line os cfg) ls (t\<lparr>at_offset := off\<rparr>, w))"

text \<open>The publisher's receive.\<close>

definition audit_recv :: "audit_tailer \<Rightarrow> (audit_event \<times> audit_tailer) option" where
  "audit_recv t = (case at_ch t of [] \<Rightarrow> None | e # es \<Rightarrow> Some (e, t\<lparr>at_ch := es\<rparr>))"

subsection \<open>The audit channel\<close>

lemma offer_take:
  "length (at_ch t) \<le> audit_capacity \<Longrightarrow>
    at_ch (offer e t) = take audit_capacity (at_ch t @ [e]) \<and>
    at_dropped (offer e t) = at_dropped t @ drop audit_capacity (at_ch t @ [e]) \<and>
    at_offset (offer e t) = at_offset t"
  by (auto simp: offer_def)

definition without_retain :: "audit_event \<Rightarrow> audit_event" where
  "without_retain e = e\<lparr>ae_retain_until := None\<rparr>"

lemma parse_retain: "parseAuditLine l = Some e \<Longrightarrow> without_retain e = e"
  by (auto simp: parseAuditLine_def without_retain_def Let_def split: if_splits prod.splits)

lemma without_retain_upd: "parseAuditLine l = Some e \<Longrightarrow> without_retain (e\<lparr>ae_retain_until := ru\<rparr>) = e"
  using parse_retain[of l e] by (simp add: without_retain_def)

lemma audit_lines_spec:
  assumes "fold (audit_line os cfg) ls (t, w) = (t', w')" "length (at_ch t) \<le> audit_capacity"
  shows "\<exists>evs. map without_retain evs = List.map_filter parseAuditLine ls \<and>
    at_ch t' = take audit_capacity (at_ch t @ evs) \<and>
    at_dropped t' = at_dropped t @ drop audit_capacity (at_ch t @ evs) \<and> at_offset t' = at_offset t"
  using assms
proof (induction ls arbitrary: t w)
  case Nil
  then show ?case by simp
next
  case (Cons l ls)
  show ?case
  proof (cases "parseAuditLine l")
    case None
    then show ?thesis using Cons by (simp add: audit_line_def)
  next
    case (Some e)
    obtain ru w1 where q: "(if ae_action e = ''PUT'' \<and> ae_object_key e \<noteq> []
        then queryRetainUntil os cfg (ae_bucket e) (ae_object_key e) w else (ae_retain_until e, w)) = (ru, w1)"
      by fastforce
    let ?e = "e\<lparr>ae_retain_until := ru\<rparr>"
    let ?t = "offer ?e t"
    have "audit_line os cfg l (t, w) = (?t, w1)" using Some q by (simp add: audit_line_def)
    then have "fold (audit_line os cfg) ls (?t, w1) = (t', w')"
      using Cons.prems(1) by simp
    moreover have len: "length (at_ch ?t) \<le> audit_capacity"
      using offer_take[OF Cons.prems(2), of ?e] by simp
    ultimately obtain evs where evs: "map without_retain evs = List.map_filter parseAuditLine ls"
        "at_ch t' = take audit_capacity (at_ch ?t @ evs)"
        "at_dropped t' = at_dropped ?t @ drop audit_capacity (at_ch ?t @ evs)" "at_offset t' = at_offset ?t"
      using Cons.IH by blast
    have o: "at_ch ?t = take audit_capacity (at_ch t @ [?e])"
      "at_dropped ?t = at_dropped t @ drop audit_capacity (at_ch t @ [?e])" "at_offset ?t = at_offset t"
      using offer_take[OF Cons.prems(2), of ?e] by auto
    have "at_ch t' = take audit_capacity (at_ch t @ ?e # evs)"
      "at_dropped t' = at_dropped t @ drop audit_capacity (at_ch t @ ?e # evs)"
      using evs(2,3) o Cons.prems(2)
      by (cases "length (at_ch t) < audit_capacity"; simp)+
    then show ?thesis
      using Some evs(1,4) o(3) without_retain_upd[OF Some] by (intro exI[of _ "?e # evs"]) simp
  qed
qed

text \<open>
  C32. The audit channel is a bounded FIFO that drops the newest: after a poll it holds the first 512 of
  what it held followed by the events of the new lines in log order, the rest are the dropped ones, and the
  offset has moved past the lines. Events are those parseAuditLine accepts, up to the retention date.
\<close>

theorem audit_poll_bounded_fifo:
  assumes "audit_poll os cfg (t, w) = (t', w')" "length (at_ch t) \<le> audit_capacity"
  shows "\<exists>evs. map without_retain evs
       = List.map_filter parseAuditLine (snd (readNewLines os cfg (at_offset t) w)) \<and>
    at_ch t' = take audit_capacity (at_ch t @ evs) \<and>
    at_dropped t' = at_dropped t @ drop audit_capacity (at_ch t @ evs) \<and>
    at_offset t' = fst (readNewLines os cfg (at_offset t) w)"
proof -
  obtain off ls where r: "readNewLines os cfg (at_offset t) w = (off, ls)" by fastforce
  then show ?thesis
    using assms audit_lines_spec[of os cfg ls "t\<lparr>at_offset := off\<rparr>" w t' w'] by (simp add: audit_poll_def)
qed

subsection \<open>What a log line says\<close>

lemma split_n_join:
  "ps \<noteq> [] \<Longrightarrow> \<forall>p \<in> set (butlast ps). c \<notin> set p \<Longrightarrow> split_n (length ps) c (join [c] ps) = ps"
proof (induction ps)
  case (Cons p ps)
  show ?case
  proof (cases ps)
    case (Cons q qs)
    then have "c \<notin> set p" using Cons.prems by simp
    then show ?thesis
      using Cons Cons.IH Cons.prems by (simp add: join_Cons index_char_append)
  qed simp
qed simp

lemma before_char_append: "c \<notin> set u \<Longrightarrow> before_char c (u @ c # v) = u"
  by (simp add: before_char_def index_char_append)

lemma before_char_notin: "c \<notin> set u \<Longrightarrow> before_char c u = u"
  using index_char_None[of c u] by (simp add: before_char_def del: index_char_None)

lemma access_key_of_auth_header:
  assumes "CHR ''/'' \<notin> set ak"
  shows "extractAccessKey (auth_header ak date region sig) = ak"
proof -
  let ?r = "ak @ ''/'' @ cred_scope date region @ '',SignedHeaders='' @ signed_headers @ '',Signature='' @ sig"
  have a: "auth_header ak date region sig = ''AWS4-HMAC-SHA256 '' @ ''Credential='' @ ?r"
    by (simp add: auth_header_def)
  have "index_of (auth_header ak date region sig) ''Credential='' = Some 17"
    unfolding a by (simp add: eval_nat_numeral)
  then show ?thesis
    using before_char_append[OF assms] unfolding a extractAccessKey_def by simp
qed

lemma trim_char_quoted:
  assumes "s \<noteq> []" "hd s \<noteq> c" "last s \<noteq> c"
  shows "trim_char c (c # s @ [c]) = s"
proof -
  have "dropWhile (\<lambda>x. x = c) (s @ [c]) = s @ [c]" using assms by (cases s) auto
  moreover have "trim_right_char c s = s" using assms by (cases s rule: rev_cases) auto
  ultimately show ?thesis by (simp add: trim_char_def)
qed

lemma splitBucketKey_uri:
  assumes "CHR ''?'' \<notin> set b" "CHR ''/'' \<notin> set b" "CHR ''?'' \<notin> set k" "q = [] \<or> hd q = CHR ''?''"
  shows "splitBucketKey (''/'' @ b @ ''/'' @ k @ q) = (b, k)"
proof -
  have "before_char (CHR ''?'') (''/'' @ b @ ''/'' @ k @ q) = ''/'' @ b @ ''/'' @ k"
  proof (cases q)
    case Nil
    then show ?thesis
      using assms before_char_notin[of "CHR ''?''" "''/'' @ b @ ''/'' @ k"] by simp
  next
    case (Cons c r)
    then show ?thesis
      using assms before_char_append[of "CHR ''?''" "''/'' @ b @ ''/'' @ k" r] by simp
  qed
  then show ?thesis
    using assms(2) by (simp add: splitBucketKey_def trim_prefix_def index_char_append)
qed

text \<open>The line the Nginx log format \<open>s3_audit\<close> writes for a request.\<close>

definition audit_log_line :: "string \<Rightarrow> string \<Rightarrow> string \<Rightarrow> int \<Rightarrow> int \<Rightarrow> string \<Rightarrow> string \<Rightarrow> string" where
  "audit_log_line msec method uri status len addr auth =
     join '' '' [msec, method, uri, int_str status, int_str len, addr, quote # auth @ [quote]]"

lemma int_str_no_space: "CHR '' '' \<notin> set (int_str i)"
proof -
  have "\<not> is_digit (CHR '' '')" by (simp add: is_digit_def)
  then have "CHR '' '' \<notin> set (nat_str n)" for n using nat_str_digits by blast
  then show ?thesis by (simp add: int_str_def)
qed

text \<open>
  C36. Parsing inverts the log format: for a successful mutation with a Signature V4 header the event has
  the bucket, the object key without the query, the size, the client address and the access key of the
  request; POST counts as PUT and deletions have no size.
\<close>

theorem parseAuditLine_log_format:
  assumes "method \<in> {''PUT'', ''POST'', ''DELETE''}" "200 \<le> status" "status < 300" "0 \<le> len" "len < 2 ^ 63"
    and "CHR '' '' \<notin> set msec \<union> set b \<union> set k \<union> set q \<union> set addr"
    and "b \<noteq> []" "CHR ''?'' \<notin> set b" "CHR ''/'' \<notin> set b" "CHR ''?'' \<notin> set k" "q = [] \<or> hd q = CHR ''?''"
    and "CHR ''/'' \<notin> set ak" "sig = [] \<or> last sig \<noteq> quote"
  shows "parseAuditLine (audit_log_line msec method (''/'' @ b @ ''/'' @ k @ q) status len addr
       (auth_header ak date region sig)) =
     Some \<lparr>ae_bucket = b, ae_object_key = k, ae_action = (if method = ''POST'' then ''PUT'' else method),
       ae_size_bytes = (if method = ''DELETE'' then 0 else int64 len), ae_retain_until = None,
       ae_access_key = ak, ae_client_ip = addr, ae_performed_at = msec_time msec\<rparr>"
proof -
  let ?auth = "auth_header ak date region sig"
  let ?ps = "[msec, method, ''/'' @ b @ ''/'' @ k @ q, int_str status, int_str len, addr, quote # ?auth @ [quote]]"
  have "\<forall>p \<in> set (butlast ?ps). CHR '' '' \<notin> set p"
    using assms(1,6) int_str_no_space by auto
  then have split: "split_n 7 (CHR '' '') (join '' '' ?ps) = ?ps"
    using split_n_join[of ?ps "CHR '' ''"] by (simp add: eval_nat_numeral del: join.simps)
  have auth: "trim_char quote (quote # ?auth @ [quote]) = ?auth"
    using assms(13) by (intro trim_char_quoted) (auto simp: auth_header_def)
  have nums: "parse_int (int_str status) = (status, None)" "parse_int (int_str len) = (len, None)"
    using assms(2-5) by (simp_all add: parse_int_int_str)
  have "splitBucketKey (''/'' @ b @ ''/'' @ k @ q) = (b, k)"
    by (rule splitBucketKey_uri) (use assms in auto)
  then show ?thesis
    unfolding parseAuditLine_def audit_log_line_def split Let_def
    using assms(1-3,7) nums auth access_key_of_auth_header[OF assms(12)] by auto
qed

text \<open>
  The tailer takes what has been written so far as whole lines: when a poll falls into the middle of a
  line, that line reaches the parser as two fragments, one per poll.
\<close>

theorem tail_splits_partial_line:
  assumes "log_world os (NginxAuditLog cfg) u w1" "log_world os (NginxAuditLog cfg) (u @ v @ [newline]) w2"
    and "u \<noteq> []" "v \<noteq> []" "newline \<notin> set u" "newline \<notin> set v"
  shows "readNewLines os cfg 0 w1 = (length u, [u]) \<and>
    readNewLines os cfg (length u) w2 = (length u + length v + 1, [v])"
proof -
  have "tail_read os (NginxAuditLog cfg) (length ([] :: string)) w1 = (length ([] @ u), u)"
    by (rule tail_read_grown) (use assms(1) in simp)
  moreover have "log_lines u = [u]"
    using assms(5) by (simp add: log_lines_def trim_right_char_id split_on_no_sep)
  moreover have "tail_read os (NginxAuditLog cfg) (length u) w2 = (length (u @ v @ [newline]), v @ [newline])"
    by (rule tail_read_grown[OF assms(2)])
  moreover have "log_lines (v @ [newline]) = [v]"
    using assms(6) by (simp add: log_lines_def trim_right_char_id split_on_no_sep)
  ultimately show ?thesis using assms(3,4) by (simp add: readNewLines_def)
qed

subsection \<open>Examples\<close>

definition put_line :: string where
  "put_line = ''1700000000.250 PUT /b1/a.txt 200 120 4096'' @ [newline]"

definition get_line :: string where
  "get_line = ''1700000001.000 GET /b1/a.txt 200 9000 300'' @ [newline]"

lemma log_world_one_file [simp]: "log_world calm_os p d (one_file p d)"
  by (simp add: log_world_def one_file_def plain_file_def)


theorem flush_reports_witness:
  "flush calm_os ''l'' 0 (one_file ''l'' put_line) = (length put_line, traffic_of put_line)"
  using flush_reports[OF log_world_one_file, of put_line "''l''"] by (simp add: put_line_def)

definition audit_sample :: string where
  "audit_sample = ''1700000000.250 PUT /b1/a.txt?x=1 200 4096 10.0.0.7 -'' @ [newline]"

definition audit_world :: "unit world" where
  "audit_world = one_file (NginxAuditLog sample_config) audit_sample"

theorem audit_poll_bounded_fifo_witness:
  "\<exists>evs. map without_retain evs = List.map_filter parseAuditLine [butlast audit_sample] \<and> length evs = 1 \<and>
    at_ch (fst (audit_poll calm_os sample_config (\<lparr>at_offset = 0, at_ch = [], at_dropped = []\<rparr>, audit_world)))
      = take audit_capacity evs"
proof -
  have r: "snd (readNewLines calm_os sample_config 0 audit_world) = [butlast audit_sample]" by code_simp
  have p: "length (List.map_filter parseAuditLine [butlast audit_sample]) = 1" by code_simp
  show ?thesis
    using audit_poll_bounded_fifo[OF prod.collapse[symmetric], where os = calm_os and cfg = sample_config
        and t = "\<lparr>at_offset = 0, at_ch = [], at_dropped = []\<rparr>" and w = audit_world] r p
    by (simp del: List.map_filter_simps) (metis length_map)
qed

theorem parseAuditLine_log_format_witness:
  "parseAuditLine (audit_log_line ''1700000000.250'' ''POST'' ''/b1/a.txt?uploadId=7'' 200 4096 ''10.0.0.7''
       (auth_header ''AK1'' ''20260102'' ''us-east-1'' ''ab12'')) =
     Some \<lparr>ae_bucket = ''b1'', ae_object_key = ''a.txt'', ae_action = ''PUT'', ae_size_bytes = 4096,
       ae_retain_until = None, ae_access_key = ''AK1'', ae_client_ip = ''10.0.0.7'',
       ae_performed_at = msec_time ''1700000000.250''\<rparr>"
  using parseAuditLine_log_format[of "''POST''" 200 4096 "''1700000000.250''" "''b1''" "''a.txt''" "''?uploadId=7''"
      "''10.0.0.7''" "''AK1''" "''ab12''" "''20260102''" "''us-east-1''"]
  by (simp add: int64_def)

definition half1 :: string where "half1 = ''1.0 PUT /b1/a 2''"

definition half2 :: string where "half2 = ''00 5 ip -''"

theorem tail_splits_partial_line_witness:
  "readNewLines calm_os sample_config 0 (one_file (NginxAuditLog sample_config) half1) = (length half1, [half1]) \<and>
   readNewLines calm_os sample_config (length half1)
     (one_file (NginxAuditLog sample_config) (half1 @ half2 @ [newline])) = (length half1 + length half2 + 1, [half2]) \<and>
   parseAuditLine half1 = None \<and> parseAuditLine half2 = None \<and> parseAuditLine (half1 @ half2) \<noteq> None"
proof -
  have "parseAuditLine half1 = None \<and> parseAuditLine half2 = None \<and> parseAuditLine (half1 @ half2) \<noteq> None"
    by code_simp
  moreover have "half1 \<noteq> []" "half2 \<noteq> []" "newline \<notin> set half1" "newline \<notin> set half2"
    by (simp_all add: half1_def half2_def)
  ultimately show ?thesis
    using tail_splits_partial_line[OF log_world_one_file log_world_one_file] by blast
qed

end
