(* ===== verification/Services.thy ===== *)
theory Services
  imports GoOs
begin

section \<open>Service management (internal/modules/services)\<close>

text \<open>
  The interface \<^verbatim>\<open>services.Manager\<close> and its two implementations. The systemd D-Bus connection is a
  third-party package: the record \<open>bus\<close> holds the calls the code makes, each an error text or a result
  together with the next outside state, and \<open>None\<close> is the nil connection of a host without D-Bus.
  Messages are kept as error values, whose rendering is the message text.
\<close>

datatype service_state = StateActive | StateInactive | StateFailed | StateUnknown

record service_info =
  si_name :: string
  si_description :: string
  si_state :: service_state
  si_sub_state :: string
  si_enabled :: bool
  si_pid :: "32 word"
  si_since :: i64

datatype service_action = ActionStart | ActionStop | ActionRestart | ActionEnable | ActionDisable | ActionReload

record action_result =
  ar_service :: string
  ar_action :: service_action
  ar_success :: bool
  ar_message :: go_error

record unit_status =
  us_name :: string
  us_description :: string
  us_active_state :: string
  us_sub_state :: string

text \<open>
  \<open>bus_job a n\<close> is \<^verbatim>\<open>StartUnitContext\<close>, \<^verbatim>\<open>StopUnitContext\<close>, \<^verbatim>\<open>RestartUnitContext\<close> or \<^verbatim>\<open>ReloadUnitContext\<close> in mode
  "replace": an error, or the job result that arrives on the channel. \<open>bus_unit_files True\<close> enables unit
  files, \<open>bus_unit_files False\<close> disables them; \<open>bus_reload\<close> is the daemon reload.
\<close>

record 'x bus =
  bus_list :: "'x \<Rightarrow> (string + unit_status list) \<times> 'x"
  bus_list_by_names :: "string list \<Rightarrow> 'x \<Rightarrow> (string + unit_status list) \<times> 'x"
  bus_job :: "service_action \<Rightarrow> string \<Rightarrow> 'x \<Rightarrow> (string + string) \<times> 'x"
  bus_unit_files :: "bool \<Rightarrow> string \<Rightarrow> 'x \<Rightarrow> string option \<times> 'x"
  bus_reload :: "'x \<Rightarrow> string option \<times> 'x"

subsection \<open>The Linux manager\<close>

definition ensureServiceSuffix :: "string \<Rightarrow> string" where
  "ensureServiceSuffix name = (if \<not> contains name ''.'' then name @ ''.service'' else name)"

definition unit_state :: "string \<Rightarrow> service_state" where
  "unit_state s =
     (if s = ''active'' then StateActive
      else if s = ''inactive'' then StateInactive
      else if s = ''failed'' then StateFailed
      else StateUnknown)"

definition unitToServiceInfo :: "unit_status \<Rightarrow> service_info" where
  "unitToServiceInfo u = \<lparr>si_name = us_name u, si_description = us_description u,
     si_state = unit_state (us_active_state u), si_sub_state = us_sub_state u,
     si_enabled = False, si_pid = 0, si_since = 0\<rparr>"

definition no_dbus :: go_error where
  "no_dbus = Msg ''systemd D-Bus is not available''"

definition linux_List :: "'x bus option \<Rightarrow> 'x \<Rightarrow> service_info list res \<times> 'x" where
  "linux_List bus x =
     (case bus of
        None \<Rightarrow> (Inl no_dbus, x)
      | Some b \<Rightarrow>
          (case bus_list b x of
             (Inl e, x') \<Rightarrow> (Inl (Wrap ''listing systemd units'' (OsErr e)), x')
           | (Inr units, x') \<Rightarrow>
               (Inr (map unitToServiceInfo (filter (\<lambda>u. has_suffix (us_name u) ''.service'') units)), x')))"

definition linux_Get :: "'x bus option \<Rightarrow> string \<Rightarrow> 'x \<Rightarrow> service_info res \<times> 'x" where
  "linux_Get bus name0 x =
     (case bus of
        None \<Rightarrow> (Inl no_dbus, x)
      | Some b \<Rightarrow>
          let name = ensureServiceSuffix name0 in
          (case bus_list_by_names b [name] x of
             (Inl e, x') \<Rightarrow> (Inl (Wrap (''querying unit '' @ name) (OsErr e)), x')
           | (Inr units, x') \<Rightarrow>
               ((case units of
                   [] \<Rightarrow> Inl (Msg (''unit not found: '' @ name))
                 | u # _ \<Rightarrow> Inr (unitToServiceInfo u)), x')))"

definition failResult :: "string \<Rightarrow> service_action \<Rightarrow> go_error \<Rightarrow> action_result" where
  "failResult name action err =
     \<lparr>ar_service = name, ar_action = action, ar_success = False, ar_message = err\<rparr>"

fun action_verb :: "service_action \<Rightarrow> string" where
  "action_verb ActionStart = ''start''"
| "action_verb ActionStop = ''stop''"
| "action_verb ActionRestart = ''restart''"
| "action_verb ActionEnable = ''enable''"
| "action_verb ActionDisable = ''disable''"
| "action_verb ActionReload = ''reload''"

fun action_past :: "service_action \<Rightarrow> string" where
  "action_past ActionStart = ''started''"
| "action_past ActionStop = ''stopped''"
| "action_past ActionRestart = ''restarted''"
| "action_past ActionEnable = ''enabled''"
| "action_past ActionDisable = ''disabled''"
| "action_past ActionReload = ''reloaded''"

definition okResult :: "string \<Rightarrow> service_action \<Rightarrow> action_result" where
  "okResult name action = \<lparr>ar_service = name, ar_action = action, ar_success = True,
     ar_message = Msg (''Service '' @ name @ '' '' @ action_past action @ '' successfully.'')\<rparr>"

text \<open>\<^verbatim>\<open>Start\<close>, \<^verbatim>\<open>Stop\<close>, \<^verbatim>\<open>Restart\<close> and \<^verbatim>\<open>Reload\<close>: queue a job and wait for its result.\<close>

definition linux_job :: "service_action \<Rightarrow> 'x bus option \<Rightarrow> string \<Rightarrow> 'x \<Rightarrow> action_result \<times> 'x" where
  "linux_job a bus name0 x =
     (case bus of
        None \<Rightarrow> (failResult name0 a no_dbus, x)
      | Some b \<Rightarrow>
          let name = ensureServiceSuffix name0 in
          (case bus_job b a name x of
             (Inl e, x') \<Rightarrow> (failResult name a (Wrap (action_verb a @ '' failed'') (OsErr e)), x')
           | (Inr result, x') \<Rightarrow>
               (if result \<noteq> ''done'' then failResult name a (Msg (''job result: '' @ result))
                else okResult name a, x')))"

text \<open>\<^verbatim>\<open>Enable\<close> and \<^verbatim>\<open>Disable\<close>: change the unit files, then reload; a failed reload is only logged.\<close>

definition linux_unit_files :: "service_action \<Rightarrow> 'x bus option \<Rightarrow> string \<Rightarrow> 'x \<Rightarrow> action_result \<times> 'x" where
  "linux_unit_files a bus name0 x =
     (case bus of
        None \<Rightarrow> (failResult name0 a no_dbus, x)
      | Some b \<Rightarrow>
          let name = ensureServiceSuffix name0 in
          (case bus_unit_files b (a = ActionEnable) name x of
             (Some e, x') \<Rightarrow> (failResult name a (Wrap (action_verb a @ '' failed'') (OsErr e)), x')
           | (None, x') \<Rightarrow> (okResult name a, snd (bus_reload b x'))))"

fun linux_act :: "'x bus option \<Rightarrow> service_action \<Rightarrow> string \<Rightarrow> 'x \<Rightarrow> action_result \<times> 'x" where
  "linux_act bus ActionEnable = linux_unit_files ActionEnable bus"
| "linux_act bus ActionDisable = linux_unit_files ActionDisable bus"
| "linux_act bus a = linux_job a bus"

subsection \<open>The Windows stub\<close>

definition errNotSupported :: go_error where
  "errNotSupported = Msg ''service management is not yet supported on Windows''"

definition windows_act :: "service_action \<Rightarrow> string \<Rightarrow> 'x \<Rightarrow> action_result \<times> 'x" where
  "windows_act a name x = (failResult name a errNotSupported, x)"

definition windows_List :: "'x \<Rightarrow> service_info list res \<times> 'x" where
  "windows_List x = (Inl errNotSupported, x)"

definition windows_Get :: "string \<Rightarrow> 'x \<Rightarrow> service_info res \<times> 'x" where
  "windows_Get name x = (Inl errNotSupported, x)"

subsection \<open>The interface\<close>

datatype 'x manager = LinuxManager "'x bus option" | WindowsManager

fun svc_List :: "'x manager \<Rightarrow> 'x \<Rightarrow> service_info list res \<times> 'x" where
  "svc_List (LinuxManager bus) = linux_List bus"
| "svc_List WindowsManager = windows_List"

fun svc_Get :: "'x manager \<Rightarrow> string \<Rightarrow> 'x \<Rightarrow> service_info res \<times> 'x" where
  "svc_Get (LinuxManager bus) = linux_Get bus"
| "svc_Get WindowsManager = windows_Get"

fun svc_act :: "'x manager \<Rightarrow> service_action \<Rightarrow> string \<Rightarrow> 'x \<Rightarrow> action_result \<times> 'x" where
  "svc_act (LinuxManager bus) = linux_act bus"
| "svc_act WindowsManager = windows_act"

text \<open>
  What the callers of \<^verbatim>\<open>services.Manager\<close> rely on, for any implementation: an action result names the
  action asked for and the unit asked for, possibly completed with a suffix; the confirmation text
  appears exactly with success; only service units are listed.
\<close>

locale service_manager =
  fixes act :: "service_action \<Rightarrow> string \<Rightarrow> 'x \<Rightarrow> action_result \<times> 'x"
    and list_units :: "'x \<Rightarrow> service_info list res \<times> 'x"
  assumes act_action: "ar_action (fst (act a n x)) = a"
    and act_service: "ar_service (fst (act a n x)) = n \<or> ar_service (fst (act a n x)) = n @ ''.service''"
    and act_success: "ar_success (fst (act a n x)) \<Longrightarrow>
      fst (act a n x) = okResult (ar_service (fst (act a n x))) a"
    and listed: "fst (list_units x) = Inr us \<Longrightarrow> \<forall>u \<in> set us. has_suffix (si_name u) ''.service''"
begin

lemma act_unique: "ar_success (fst (act a n x)) \<Longrightarrow> ar_success (fst (act a' n' x')) \<Longrightarrow>
    ar_service (fst (act a n x)) = ar_service (fst (act a' n' x')) \<Longrightarrow> a = a' \<Longrightarrow>
    fst (act a n x) = fst (act a' n' x')"
  by (metis act_success)

end

interpretation linux: service_manager "linux_act bus" "linux_List bus" for bus
proof (unfold_locales, goal_cases)
  case (1 a n x)
  show ?case
    by (cases a) (auto simp: linux_job_def linux_unit_files_def failResult_def okResult_def Let_def
        split: option.splits sum.splits prod.splits)
next
  case (2 a n x)
  show ?case
    by (cases a) (auto simp: linux_job_def linux_unit_files_def failResult_def okResult_def Let_def
        ensureServiceSuffix_def split: option.splits sum.splits prod.splits)
next
  case (3 a n x)
  then show ?case
    by (cases a) (auto simp: linux_job_def linux_unit_files_def failResult_def okResult_def Let_def
        split: option.splits sum.splits prod.splits if_splits)
next
  case (4 x us)
  then show ?case
    by (auto simp: linux_List_def unitToServiceInfo_def split: option.splits sum.splits prod.splits)
qed

interpretation windows: service_manager windows_act windows_List
  by unfold_locales (simp_all add: windows_act_def windows_List_def failResult_def)

interpretation manager: service_manager "svc_act m" "svc_List m" for m
  by (cases m) (use linux.service_manager_axioms windows.service_manager_axioms in simp_all)

subsection \<open>Lemmas\<close>

lemma suffix_has_dot: "contains (ensureServiceSuffix n) ''.''"
  using contains_mid[of n "''.''" "''service''"] by (simp add: ensureServiceSuffix_def)

text \<open>The unit name is completed once.\<close>

lemma ensureServiceSuffix_idem [simp]: "ensureServiceSuffix (ensureServiceSuffix n) = ensureServiceSuffix n"
  using suffix_has_dot[of n] by (simp add: ensureServiceSuffix_def[of "ensureServiceSuffix n"])

subsection \<open>Properties\<close>

text \<open>
  On every platform an action result names the action and the unit asked for, at most completed by
  ".service", and a success carries exactly the confirmation text of that action on that unit.
\<close>

theorem svc_act_result:
  "ar_action (fst (svc_act m a n x)) = a \<and>
   ar_service (fst (svc_act m a n x)) \<in> {n, n @ ''.service''} \<and>
   (ar_success (fst (svc_act m a n x)) \<longrightarrow>
      fst (svc_act m a n x) = okResult (ar_service (fst (svc_act m a n x))) a \<and> m \<noteq> WindowsManager)"
  using manager.act_action[of m a n x] manager.act_service[of m a n x] manager.act_success[of m a n x]
  by (cases m) (auto simp: windows_act_def failResult_def)

text \<open>
  C40. On Linux an action succeeds exactly when D-Bus is there and systemd reports the job as done (or
  accepts the unit-file change): a queued job that ends as "failed", "canceled" or otherwise is a failure,
  and a failed daemon reload after enable or disable is not.
\<close>

theorem linux_act_success:
  "ar_success (fst (svc_act (LinuxManager bus) a n x)) \<longleftrightarrow>
     (\<exists>b. bus = Some b \<and>
       (if a \<in> {ActionEnable, ActionDisable}
        then fst (bus_unit_files b (a = ActionEnable) (ensureServiceSuffix n) x) = None
        else fst (bus_job b a (ensureServiceSuffix n) x) = Inr ''done''))"
  by (cases a; cases bus)
    (auto simp: linux_job_def linux_unit_files_def failResult_def okResult_def Let_def
      split: sum.splits option.splits prod.splits)

theorem svc_act_result_witness:
  "fst (svc_act (LinuxManager (None :: unit bus option)) ActionStart ''nginx'' ()) = failResult ''nginx'' ActionStart no_dbus
   \<and> ar_action (fst (svc_act (LinuxManager (None :: unit bus option)) ActionStart ''nginx'' ())) = ActionStart"
  using svc_act_result[of "LinuxManager (None :: unit bus option)" ActionStart "''nginx''" "()"]
  by (simp add: linux_job_def)

end
