(* ===== verification/Observer.thy ===== *)
theory Observer
  imports LogTail Services "HOL-Library.Multiset"
begin

section \<open>The cluster observer (internal/modules/s3/observer.go)\<close>

text \<open>
  The five component polls, the per-bucket statistics and the change detection of \<^verbatim>\<open>Observer\<close>. The
  service manager is optional, as the nil interface is in the code. A Go panic is the value \<open>None\<close> of
  an option: the gateway poll ignores the error of \<^verbatim>\<open>http.NewRequestWithContext\<close> and hands a nil
  request to the client. Goroutines and the ticker of \<^verbatim>\<open>Watch\<close> are a list of observations, one per
  tick.
\<close>

subsection \<open>The observed state\<close>

record service_health =
  sh_name :: string
  sh_active :: bool
  sh_sub_state :: string

record master_component =
  mc_reachable :: bool
  mc_is_leader :: bool
  mc_peers :: nat
  mc_checked_at :: time
  mc_service :: service_health

record volume_component =
  vc_reachable :: bool
  vc_total :: nat
  vc_writable :: nat
  vc_degraded :: nat
  vc_readonly :: nat
  vc_bytes_total :: u64
  vc_bytes_used :: u64
  vc_capacity_pct :: rat
  vc_checked_at :: time
  vc_service :: service_health

record filer_component =
  fc_reachable :: bool
  fc_checked_at :: time
  fc_service :: service_health

record s3_component =
  gc_reachable :: bool
  gc_bucket_count :: nat
  gc_checked_at :: time
  gc_service :: service_health

record nginx_component =
  nc_service :: service_health
  nc_checked_at :: time

record cluster_components =
  cc_master :: master_component
  cc_volume :: volume_component
  cc_filer :: filer_component
  cc_s3 :: s3_component
  cc_nginx :: nginx_component

record bucket_stat =
  bu_name :: string
  bu_object_count :: i64
  bu_size_bytes :: i64
  bu_replica_health :: string

subsection \<open>Helpers\<close>

definition serviceHealth :: "'x manager option \<Rightarrow> string \<Rightarrow> 'x world \<Rightarrow> service_health \<times> 'x world" where
  "serviceHealth svc name w =
     (let h = \<lparr>sh_name = name, sh_active = False, sh_sub_state = []\<rparr> in
      case svc of
        None \<Rightarrow> (h, w)
      | Some m \<Rightarrow>
          (case svc_Get m name (ext w) of
             (Inl _, x') \<Rightarrow> (h, w\<lparr>ext := x'\<rparr>)
           | (Inr info, x') \<Rightarrow>
               (h\<lparr>sh_active := (si_state info = StateActive), sh_sub_state := si_sub_state info\<rparr>,
                w\<lparr>ext := x'\<rparr>)))"

definition getBody :: "'x os \<Rightarrow> string \<Rightarrow> 'x world \<Rightarrow> string res \<times> 'x world" where
  "getBody os url w =
     (case os_url os url of
        Inl e \<Rightarrow> (Inl (OsErr e), w)
      | Inr _ \<Rightarrow>
          (case send os \<lparr>rq_method = ''GET'', rq_url = url, rq_headers = [], rq_body = []\<rparr> w of
             (Inl e, w') \<Rightarrow> (Inl e, w')
           | (Inr resp, w') \<Rightarrow>
               (if rs_status resp \<ge> 400
                then Inl (Msg (''HTTP '' @ int_str (rs_status resp) @ '' from '' @ url))
                else Inr (rs_body resp), w')))"

definition getJSON :: "'x os \<Rightarrow> string \<Rightarrow> 'x world \<Rightarrow> string res \<times> 'x world" where
  "getJSON os url w = getBody os url w"

definition head_ok :: "'x os \<Rightarrow> string \<Rightarrow> 'x world \<Rightarrow> bool \<times> 'x world" where
  "head_ok os url w =
     (case build_request os ''HEAD'' url [] of
        Inl e \<Rightarrow> (False, w)
      | Inr (req, _) \<Rightarrow>
          (case send os req w of
             (Inl e, w') \<Rightarrow> (False, w')
           | (Inr resp, w') \<Rightarrow> (rs_status resp < 400, w')))"

subsection \<open>Component polls\<close>

record master_resp =
  mr_is_leader :: bool
  mr_leader :: string
  mr_peers :: "string slice"

definition dec_master :: "master_resp decoder" where
  "dec_master = dec_struct
     [field ''IsLeader'' dec_bool mr_is_leader mr_is_leader_update,
      field ''Leader'' dec_string mr_leader mr_leader_update,
      field ''Peers'' (dec_slice [] dec_string) mr_peers mr_peers_update]"

definition pollMaster ::
  "'x os \<Rightarrow> s3_config \<Rightarrow> 'x manager option \<Rightarrow> time \<Rightarrow> 'x world \<Rightarrow> master_component \<times> 'x world" where
  "pollMaster os cfg svc now w =
     (let (h, w1) = serviceHealth svc ''weed-master'' w;
          (r, w2) = getJSON os (MasterURL cfg @ ''/cluster/status'') w1;
          down = \<lparr>mc_reachable = False, mc_is_leader = False, mc_peers = 0, mc_checked_at = now, mc_service = h\<rparr>
      in (case r of
            Inl _ \<Rightarrow> down
          | Inr body \<Rightarrow>
              (case unmarshal dec_master \<lparr>mr_is_leader = False, mr_leader = [], mr_peers = None\<rparr> body of
                 Inl _ \<Rightarrow> down
               | Inr mr \<Rightarrow> down\<lparr>mc_reachable := True, mc_is_leader := mr_is_leader mr,
                                mc_peers := length (elems (mr_peers mr))\<rparr>),
          w2))"

record volume_info =
  vi_read_only :: bool
  vi_replica_count :: int
  vi_size :: u64
  vi_max :: u64

record disk_status =
  ds_dir :: string
  ds_total :: u64
  ds_used :: u64
  ds_free :: u64
  ds_percent_free :: rat
  ds_percent_used :: rat

record volume_resp =
  vr_version :: string
  vr_volumes :: "volume_info slice"
  vr_disks :: "disk_status slice"

definition zero_volume :: volume_info where
  "zero_volume = \<lparr>vi_read_only = False, vi_replica_count = 0, vi_size = 0, vi_max = 0\<rparr>"

definition zero_disk :: disk_status where
  "zero_disk = \<lparr>ds_dir = [], ds_total = 0, ds_used = 0, ds_free = 0, ds_percent_free = 0, ds_percent_used = 0\<rparr>"

definition dec_volume_info :: "volume_info decoder" where
  "dec_volume_info = dec_struct
     [field ''readOnly'' dec_bool vi_read_only vi_read_only_update,
      field ''replicaCount'' dec_int vi_replica_count vi_replica_count_update,
      field ''size'' dec_u64 vi_size vi_size_update,
      field ''max'' dec_u64 vi_max vi_max_update]"

definition dec_disk_status :: "disk_status decoder" where
  "dec_disk_status = dec_struct
     [field ''Dir'' dec_string ds_dir ds_dir_update,
      field ''Total'' dec_u64 ds_total ds_total_update,
      field ''Used'' dec_u64 ds_used ds_used_update,
      field ''Free'' dec_u64 ds_free ds_free_update,
      field ''PercentFree'' dec_float ds_percent_free ds_percent_free_update,
      field ''PercentUsed'' dec_float ds_percent_used ds_percent_used_update]"

definition dec_volume_resp :: "volume_resp decoder" where
  "dec_volume_resp = dec_struct
     [field ''Version'' dec_string vr_version vr_version_update,
      field ''Volumes'' (dec_slice zero_volume dec_volume_info) vr_volumes vr_volumes_update,
      field ''DiskStatuses'' (dec_slice zero_disk dec_disk_status) vr_disks vr_disks_update]"

text \<open>The counting loop: read-only, degraded (fewer than two replicas) and writable volumes.\<close>

fun count_volumes :: "volume_info list \<Rightarrow> nat \<times> nat \<times> nat \<Rightarrow> nat \<times> nat \<times> nat" where
  "count_volumes [] c = c"
| "count_volumes (v # vs) (writable, degraded, readonly) =
     count_volumes vs
       (if vi_read_only v then (writable, degraded, Suc readonly)
        else if vi_replica_count v < 2 then (writable, Suc degraded, readonly)
        else (Suc writable, degraded, readonly))"

fun add_disks :: "disk_status list \<Rightarrow> u64 \<times> u64 \<Rightarrow> u64 \<times> u64" where
  "add_disks [] c = c"
| "add_disks (d # ds) (tot, used) = add_disks ds (tot + ds_total d, used + ds_used d)"

text \<open>\<^verbatim>\<open>float64(capUsed) / float64(capTotal) * 100\<close>: each conversion and operation rounds.\<close>

definition capacity_pct :: "u64 \<Rightarrow> u64 \<Rightarrow> rat" where
  "capacity_pct used tot =
     (if 0 < tot
      then f64 (f64 (f64 (of_nat (unat used)) / f64 (of_nat (unat tot))) * 100)
      else 0)"

definition volume_report :: "volume_resp \<Rightarrow> volume_component \<Rightarrow> volume_component" where
  "volume_report vr down =
     (let (writable, degraded, readonly) = count_volumes (elems (vr_volumes vr)) (0, 0, 0);
          (tot, used) = add_disks (elems (vr_disks vr)) (0, 0)
      in down\<lparr>vc_reachable := True, vc_total := length (elems (vr_volumes vr)), vc_writable := writable,
              vc_degraded := degraded, vc_readonly := readonly, vc_bytes_total := tot,
              vc_bytes_used := used, vc_capacity_pct := capacity_pct used tot\<rparr>)"

definition volume_down :: "time \<Rightarrow> service_health \<Rightarrow> volume_component" where
  "volume_down now h = \<lparr>vc_reachable = False, vc_total = 0, vc_writable = 0, vc_degraded = 0, vc_readonly = 0,
     vc_bytes_total = 0, vc_bytes_used = 0, vc_capacity_pct = 0, vc_checked_at = now, vc_service = h\<rparr>"

definition pollVolume ::
  "'x os \<Rightarrow> s3_config \<Rightarrow> 'x manager option \<Rightarrow> time \<Rightarrow> 'x world \<Rightarrow> volume_component \<times> 'x world" where
  "pollVolume os cfg svc now w =
     (let (h, w1) = serviceHealth svc ''weed-volume'' w;
          (r, w2) = getJSON os (VolumeURL cfg @ ''/status'') w1
      in (case r of
            Inl _ \<Rightarrow> volume_down now h
          | Inr body \<Rightarrow>
              (case unmarshal dec_volume_resp \<lparr>vr_version = [], vr_volumes = None, vr_disks = None\<rparr> body of
                 Inl _ \<Rightarrow> volume_down now h
               | Inr vr \<Rightarrow> volume_report vr (volume_down now h)),
          w2))"

definition pollFiler ::
  "'x os \<Rightarrow> s3_config \<Rightarrow> 'x manager option \<Rightarrow> time \<Rightarrow> 'x world \<Rightarrow> filer_component \<times> 'x world" where
  "pollFiler os cfg svc now w =
     (let (h, w1) = serviceHealth svc ''weed-filer'' w;
          (ok, w2) = head_ok os (FilerURL cfg @ ''/'') w1
      in (\<lparr>fc_reachable = ok, fc_checked_at = now, fc_service = h\<rparr>, w2))"

text \<open>Any HTTP response means that the gateway is up; an unusable URL is a nil request and panics.\<close>

definition pollS3Gateway ::
  "'x os \<Rightarrow> s3_config \<Rightarrow> 'x manager option \<Rightarrow> time \<Rightarrow> 'x world \<Rightarrow> (s3_component \<times> 'x world) option" where
  "pollS3Gateway os cfg svc now w =
     (let (h, w1) = serviceHealth svc ''weed-s3'' w in
      case build_request os ''HEAD'' (S3URL cfg @ ''/'') [] of
        Inl _ \<Rightarrow> None
      | Inr (req, _) \<Rightarrow>
          let (r, w2) = send os req w1 in
          Some (\<lparr>gc_reachable = is_ok r, gc_bucket_count = 0, gc_checked_at = now, gc_service = h\<rparr>, w2))"

definition pollNginx :: "'x manager option \<Rightarrow> time \<Rightarrow> 'x world \<Rightarrow> nginx_component \<times> 'x world" where
  "pollNginx svc now w =
     (let (h, w1) = serviceHealth svc ''nginx'' w in (\<lparr>nc_service = h, nc_checked_at = now\<rparr>, w1))"

definition PollCluster ::
  "'x os \<Rightarrow> s3_config \<Rightarrow> 'x manager option \<Rightarrow> 'x world \<Rightarrow> (cluster_components \<times> 'x world) option" where
  "PollCluster os cfg svc w0 =
     (let now = os_now os (ext w0);
          (master, w1) = pollMaster os cfg svc now w0;
          (volume, w2) = pollVolume os cfg svc now w1;
          (filer, w3) = pollFiler os cfg svc now w2
      in case pollS3Gateway os cfg svc now w3 of
           None \<Rightarrow> None
         | Some (s3gw, w4) \<Rightarrow>
             let (nginx, w5) = pollNginx svc now w4 in
             Some (\<lparr>cc_master = master, cc_volume = volume, cc_filer = filer, cc_s3 = s3gw, cc_nginx = nginx\<rparr>, w5))"

subsection \<open>Bucket statistics\<close>

record filer_entry =
  fe_full_path :: string

record volume_row =
  vw_collection :: string
  vw_size :: i64
  vw_file_count :: i64
  vw_delete_count :: i64
  vw_read_only :: bool

record collection_stat =
  cs_object_count :: i64
  cs_size_bytes :: i64
  cs_degraded :: bool

definition zero_stat :: collection_stat where
  "zero_stat = \<lparr>cs_object_count = 0, cs_size_bytes = 0, cs_degraded = False\<rparr>"

definition zero_row :: volume_row where
  "zero_row = \<lparr>vw_collection = [], vw_size = 0, vw_file_count = 0, vw_delete_count = 0, vw_read_only = False\<rparr>"

text \<open>\<^verbatim>\<open>int64\<close> fields: decoded as integers in range, kept at their width.\<close>

definition dec_i64 :: "i64 decoder" where
  "dec_i64 j old = map_option word_of_int (dec_int j (sint old))"

definition dec_volume_row :: "volume_row decoder" where
  "dec_volume_row = dec_struct
     [field ''Collection'' dec_string vw_collection vw_collection_update,
      field ''Size'' dec_i64 vw_size vw_size_update,
      field ''FileCount'' dec_i64 vw_file_count vw_file_count_update,
      field ''DeleteCount'' dec_i64 vw_delete_count vw_delete_count_update,
      field ''ReadOnly'' dec_bool vw_read_only vw_read_only_update]"

record data_centers =
  dc_map :: "(string \<times> json) list"

record vol_status =
  vs_volumes :: data_centers

definition dec_vol_status :: "vol_status decoder" where
  "dec_vol_status = dec_struct
     [field ''Volumes''
        (dec_struct [field ''DataCenters'' (dec_map JNull dec_raw) dc_map dc_map_update])
        vs_volumes vs_volumes_update]"

text \<open>
  The loop body: the entry of the volume's collection is read (zero where there is none), changed and
  stored. The result map is a function with the zero value as the default, as reading a Go map is.
\<close>

definition add_volume ::
  "volume_row \<Rightarrow> (string \<Rightarrow> collection_stat) \<Rightarrow> string \<Rightarrow> collection_stat" where
  "add_volume v result =
     (let cs = result (vw_collection v) in
      result(vw_collection v :=
        cs\<lparr>cs_object_count := cs_object_count cs + (vw_file_count v - vw_delete_count v),
           cs_size_bytes := cs_size_bytes cs + vw_size v,
           cs_degraded := (if vw_read_only v then True else cs_degraded cs)\<rparr>))"

text \<open>The nested loops; a data centre or rack that does not decode is skipped.\<close>

definition add_node :: "(string \<times> volume_row slice) \<Rightarrow> (string \<Rightarrow> collection_stat) \<Rightarrow> string \<Rightarrow> collection_stat" where
  "add_node nv = fold add_volume (elems (snd nv))"

definition add_rack :: "(string \<times> json) \<Rightarrow> (string \<Rightarrow> collection_stat) \<Rightarrow> string \<Rightarrow> collection_stat" where
  "add_rack rj result =
     (case dec_map None (dec_slice zero_row dec_volume_row) (snd rj) [] of
        None \<Rightarrow> result
      | Some nodes \<Rightarrow> fold add_node nodes result)"

definition add_center :: "(string \<times> json) \<Rightarrow> (string \<Rightarrow> collection_stat) \<Rightarrow> string \<Rightarrow> collection_stat" where
  "add_center dj result =
     (case dec_map JNull dec_raw (snd dj) [] of
        None \<Rightarrow> result
      | Some racks \<Rightarrow> fold add_rack racks result)"

definition collection_stats :: "string \<Rightarrow> string \<Rightarrow> collection_stat" where
  "collection_stats body =
     (case unmarshal dec_vol_status \<lparr>vs_volumes = \<lparr>dc_map = []\<rparr>\<rparr> body of
        Inl _ \<Rightarrow> (\<lambda>_. zero_stat)
      | Inr st \<Rightarrow> fold add_center (dc_map (vs_volumes st)) (\<lambda>_. zero_stat))"

definition volumeStatsByCollection ::
  "'x os \<Rightarrow> s3_config \<Rightarrow> 'x world \<Rightarrow> (string \<Rightarrow> collection_stat) \<times> 'x world" where
  "volumeStatsByCollection os cfg w =
     (let (r, w') = getJSON os (MasterURL cfg @ ''/vol/status'') w in
      ((case r of Inl _ \<Rightarrow> (\<lambda>_. zero_stat) | Inr body \<Rightarrow> collection_stats body), w'))"

definition bucket_name_of :: "string \<Rightarrow> string" where
  "bucket_name_of p = (if length p > 9 then drop 9 p else p)"

definition bucket_stat_of :: "(string \<Rightarrow> collection_stat) \<Rightarrow> filer_entry \<Rightarrow> bucket_stat" where
  "bucket_stat_of stats e =
     (let name = bucket_name_of (fe_full_path e); cs = stats name in
      \<lparr>bu_name = name, bu_object_count = cs_object_count cs, bu_size_bytes = cs_size_bytes cs,
       bu_replica_health = (if cs_degraded cs then ''degraded'' else ''ok'')\<rparr>)"

record filer_resp =
  fr_entries :: "filer_entry slice"

definition dec_filer_resp :: "filer_resp decoder" where
  "dec_filer_resp = dec_struct
     [field ''Entries''
        (dec_slice \<lparr>fe_full_path = []\<rparr>
           (dec_struct [field ''FullPath'' dec_string fe_full_path fe_full_path_update]))
        fr_entries fr_entries_update]"

definition BucketStats :: "'x os \<Rightarrow> s3_config \<Rightarrow> 'x world \<Rightarrow> bucket_stat list res \<times> 'x world" where
  "BucketStats os cfg w =
     (case build_request os ''GET'' (FilerURL cfg @ ''/buckets/'') [] of
        Inl e \<Rightarrow> (Inl e, w)
      | Inr (req, _) \<Rightarrow>
          (case send os (set_header ''Accept'' ''application/json'' req) w of
             (Inl e, w1) \<Rightarrow> (Inl (Wrap ''querying filer buckets'' e), w1)
           | (Inr resp, w1) \<Rightarrow>
               (case decode_stream dec_filer_resp \<lparr>fr_entries = None\<rparr> (rs_body resp) of
                  Inl e \<Rightarrow> (Inl (Wrap ''parsing bucket list'' e), w1)
                | Inr fr \<Rightarrow>
                    let (stats, w2) = volumeStatsByCollection os cfg w1 in
                    (Inr (map (bucket_stat_of stats) (elems (fr_entries fr))), w2))))"

subsection \<open>Change detection\<close>

definition changed :: "bool \<Rightarrow> bool \<Rightarrow> string \<Rightarrow> string \<Rightarrow> string option" where
  "changed old new up down = (if old \<noteq> new then Some (if new then up else down) else None)"

text \<open>The checks of \<^verbatim>\<open>detectChange\<close> in the order of the code; the first one that fires gives the reason.\<close>

definition volume_checks :: "s3_config \<Rightarrow> volume_component \<Rightarrow> volume_component \<Rightarrow> string option list" where
  "volume_checks cfg p c =
     [changed (vc_reachable p) (vc_reachable c) ''volume_recovered'' ''volume_unreachable'',
      changed (sh_active (vc_service p)) (sh_active (vc_service c))
        ''weed-volume_service_started'' ''weed-volume_service_stopped'',
      (if vc_degraded p = 0 \<and> vc_degraded c > 0
       then Some (''volumes_degraded_'' @ nat_str (vc_degraded c)) else None),
      (if vc_degraded p > 0 \<and> vc_degraded c = 0 then Some ''volumes_recovered'' else None),
      (if vc_capacity_pct c \<ge> CapacityCriticalPct cfg \<and> vc_capacity_pct p < CapacityCriticalPct cfg
       then Some (''capacity_critical_'' @ fixed1 (vc_capacity_pct c) @ ''_pct'') else None),
      (if vc_capacity_pct c \<ge> CapacityWarnPct cfg \<and> vc_capacity_pct p < CapacityWarnPct cfg
       then Some (''capacity_warn_'' @ fixed1 (vc_capacity_pct c) @ ''_pct'') else None)]"

definition change_checks :: "s3_config \<Rightarrow> cluster_components \<Rightarrow> cluster_components \<Rightarrow> string option list" where
  "change_checks cfg p c =
     [changed (mc_reachable (cc_master p)) (mc_reachable (cc_master c)) ''master_recovered'' ''master_unreachable'',
      changed (sh_active (mc_service (cc_master p))) (sh_active (mc_service (cc_master c)))
        ''weed-master_service_started'' ''weed-master_service_stopped''] @
     volume_checks cfg (cc_volume p) (cc_volume c) @
     [changed (fc_reachable (cc_filer p)) (fc_reachable (cc_filer c)) ''filer_recovered'' ''filer_unreachable'',
      changed (sh_active (fc_service (cc_filer p))) (sh_active (fc_service (cc_filer c)))
        ''weed-filer_service_started'' ''weed-filer_service_stopped'',
      changed (gc_reachable (cc_s3 p)) (gc_reachable (cc_s3 c)) ''s3_gateway_recovered'' ''s3_gateway_unreachable'',
      changed (sh_active (gc_service (cc_s3 p))) (sh_active (gc_service (cc_s3 c)))
        ''weed-s3_service_started'' ''weed-s3_service_stopped'',
      changed (sh_active (nc_service (cc_nginx p))) (sh_active (nc_service (cc_nginx c)))
        ''nginx_service_started'' ''nginx_service_stopped'']"

fun first_reason :: "string option list \<Rightarrow> string" where
  "first_reason [] = []"
| "first_reason (Some r # _) = r"
| "first_reason (None # rs) = first_reason rs"

definition detectChange :: "s3_config \<Rightarrow> cluster_components option \<Rightarrow> cluster_components \<Rightarrow> string" where
  "detectChange cfg prev cur =
     (case prev of None \<Rightarrow> [] | Some p \<Rightarrow> first_reason (change_checks cfg p cur))"

text \<open>
  \<^verbatim>\<open>Watch\<close>: one poll compares with the previous observation, reports, and remembers what it saw. The run
  takes what the polls observed; it returns the calls of the callback in order.
\<close>

definition watch_poll ::
  "s3_config \<Rightarrow> cluster_components \<Rightarrow> cluster_components option
    \<Rightarrow> (cluster_components \<times> string) option \<times> cluster_components option" where
  "watch_poll cfg cur prev =
     (let reason = detectChange cfg prev cur in
      (if reason \<noteq> [] then Some (cur, reason) else None, Some cur))"

fun Watch :: "s3_config \<Rightarrow> cluster_components option \<Rightarrow> cluster_components list \<Rightarrow> (cluster_components \<times> string) list" where
  "Watch cfg prev [] = []"
| "Watch cfg prev (cur # obs) =
     (let (ev, prev') = watch_poll cfg cur prev in
      (case ev of None \<Rightarrow> [] | Some e \<Rightarrow> [e]) @ Watch cfg prev' obs)"

subsection \<open>Which changes are significant\<close>

text \<open>
  The specification of change detection, without the order of the checks: two observations agree when
  no component or service went up or down, the volumes are degraded in both or in neither, and the
  capacity did not rise to a threshold.
\<close>

definition same_volume :: "s3_config \<Rightarrow> volume_component \<Rightarrow> volume_component \<Rightarrow> bool" where
  "same_volume cfg p c \<longleftrightarrow>
     vc_reachable p = vc_reachable c \<and> sh_active (vc_service p) = sh_active (vc_service c) \<and>
     (vc_degraded p = 0 \<longleftrightarrow> vc_degraded c = 0) \<and>
     (\<forall>t \<in> {CapacityCriticalPct cfg, CapacityWarnPct cfg}. \<not> (vc_capacity_pct p < t \<and> t \<le> vc_capacity_pct c))"

definition same_health :: "s3_config \<Rightarrow> cluster_components \<Rightarrow> cluster_components \<Rightarrow> bool" where
  "same_health cfg p c \<longleftrightarrow>
     mc_reachable (cc_master p) = mc_reachable (cc_master c) \<and>
     fc_reachable (cc_filer p) = fc_reachable (cc_filer c) \<and>
     gc_reachable (cc_s3 p) = gc_reachable (cc_s3 c) \<and>
     (\<forall>svc \<in> {\<lambda>s. mc_service (cc_master s), \<lambda>s. fc_service (cc_filer s),
              \<lambda>s. gc_service (cc_s3 s), \<lambda>s. nc_service (cc_nginx s)}.
        sh_active (svc p) = sh_active (svc c)) \<and>
     same_volume cfg (cc_volume p) (cc_volume c)"

lemma first_reason_empty:
  "Some [] \<notin> set rs \<Longrightarrow> first_reason rs = [] \<longleftrightarrow> set rs \<subseteq> {None}"
  by (induction rs rule: first_reason.induct) auto

lemma changed_empty: "Some [] = changed old new up down \<longleftrightarrow> old \<noteq> new \<and> (if new then up else down) = []"
  by (auto simp: changed_def)

lemma changed_None: "changed old new up down = None \<longleftrightarrow> old = new"
  by (auto simp: changed_def)

lemma volume_checks_None: "set (volume_checks cfg p c) \<subseteq> {None} \<longleftrightarrow> same_volume cfg p c"
  by (simp add: volume_checks_def changed_None same_volume_def not_le)

lemma change_checks_None: "set (change_checks cfg p c) \<subseteq> {None} \<longleftrightarrow> same_health cfg p c"
  by (simp add: change_checks_def volume_checks_None changed_None same_health_def) satx

lemma change_checks_text: "Some [] \<notin> set (change_checks cfg p c)"
  by (simp add: change_checks_def volume_checks_def changed_empty)

lemma detectChange_None_iff: "detectChange cfg (Some p) c = [] \<longleftrightarrow> same_health cfg p c"
  using first_reason_empty[OF change_checks_text] by (simp add: detectChange_def change_checks_None)

lemma Watch_from:
  "map fst (Watch cfg (Some p) obs) = map snd (filter (\<lambda>(a, b). \<not> same_health cfg a b) (zip (p # obs) obs))"
  by (induction obs arbitrary: p) (auto simp: watch_poll_def detectChange_None_iff)


lemma PollCluster_None: "PollCluster os cfg svc w = None \<longleftrightarrow> (\<exists>e. os_url os (S3URL cfg @ ''/'') = Inl e)"
  by (auto simp: PollCluster_def pollS3Gateway_def build_request_def Let_def
      split: prod.splits sum.splits option.splits)

text \<open>
  A poll of the cluster either returns all five components or panics, and it panics exactly when the
  configured gateway address is not a URL: the one request whose construction error is ignored. Every
  other failure (unreachable component, error status, undecodable body, no service manager) is reported
  as a component that is down.
\<close>

theorem PollCluster_panics:
  "PollCluster os cfg svc w = None \<longleftrightarrow> (\<exists>e. os_url os (S3URL cfg @ ''/'') = Inl e)"
  by (rule PollCluster_None)

subsection \<open>Volume counts and capacity\<close>

lemma count_volumes_total:
  "count_volumes vs (a, b, c) = (a', b', c') \<Longrightarrow> a' + b' + c' = a + b + c + length vs"
  by (induction vs arbitrary: a b c) (auto split: if_splits)

lemma add_disks_sum:
  "unat t + sum_list (map (\<lambda>d. unat (ds_total d)) ds) < 2 ^ 64 \<Longrightarrow>
   \<forall>d \<in> set ds. ds_used d \<le> ds_total d \<Longrightarrow> u \<le> t \<Longrightarrow> add_disks ds (t, u) = (t', u') \<Longrightarrow>
   unat t' = unat t + sum_list (map (\<lambda>d. unat (ds_total d)) ds) \<and>
   unat u' = unat u + sum_list (map (\<lambda>d. unat (ds_used d)) ds) \<and> unat u' \<le> unat t'"
proof (induction ds arbitrary: t u)
  case Nil
  then show ?case by (simp add: word_le_nat_alt)
next
  case (Cons d ds)
  from Cons.prems have "unat t + unat (ds_total d) < 2 ^ 64" "unat u \<le> unat t" "unat (ds_used d) \<le> unat (ds_total d)"
    by (auto simp: word_le_nat_alt)
  then have t: "unat (t + ds_total d) = unat t + unat (ds_total d)"
    and u: "unat (u + ds_used d) = unat u + unat (ds_used d)"
    by (simp_all add: unat_word_ariths)
  show ?case
    using Cons.IH[of "t + ds_total d" "u + ds_used d"] Cons.prems
      \<open>unat u \<le> unat t\<close> \<open>unat (ds_used d) \<le> unat (ds_total d)\<close>
    by (simp add: t u word_le_nat_alt)
qed

lemma ratio_pct_bound:
  assumes "n \<le> m" "0 < m" "m < 2 ^ 53"
  shows "0 \<le> f64 (f64 (f64 (of_nat n) / f64 (of_nat m)) * 100) \<and> f64 (f64 (f64 (of_nat n) / f64 (of_nat m)) * 100) \<le> 100"
proof -
  let ?q = "rat_of_nat n / of_nat m"
  have "0 \<le> ?q" "?q \<le> of_nat 1" using assms by simp_all
  then have "0 \<le> f64 ?q" "f64 ?q \<le> of_nat 1" using f64_nonneg f64_le_nat[of ?q 1] by simp_all
  then have "0 \<le> f64 (f64 ?q * 100)" "f64 (f64 ?q * 100) \<le> of_nat 100"
    using f64_nonneg[of "f64 ?q * 100"] f64_le_nat[of "f64 ?q * 100" 100] by simp_all
  then show ?thesis using assms by (simp add: f64_of_nat)
qed

lemma capacity_pct_bound:
  assumes "unat used \<le> unat tot" "unat tot < 2 ^ 53"
  shows "0 \<le> capacity_pct used tot \<and> capacity_pct used tot \<le> 100"
proof (cases "0 < tot")
  case True
  then have "0 < unat tot" by (simp add: word_less_nat_alt)
  then show ?thesis
    using True ratio_pct_bound[OF assms(1) _ assms(2)] by (simp only: capacity_pct_def if_True)
qed (simp add: capacity_pct_def)

text \<open>
  C34. The report of the volume server counts every volume in exactly one of the three classes; and where
  no disk reports more used than total bytes and the totals stay below 2^53, the 64-bit sums do not wrap
  and the floating-point percentage is between 0 and 100.
\<close>

theorem volume_report_bounds:
  assumes "\<forall>d \<in> set (elems (vr_disks vr)). ds_used d \<le> ds_total d"
    and "sum_list (map (\<lambda>d. unat (ds_total d)) (elems (vr_disks vr))) < 2 ^ 53"
  shows "vc_writable (volume_report vr c) + vc_degraded (volume_report vr c) + vc_readonly (volume_report vr c)
           = vc_total (volume_report vr c) \<and>
         unat (vc_bytes_total (volume_report vr c)) = sum_list (map (\<lambda>d. unat (ds_total d)) (elems (vr_disks vr))) \<and>
         unat (vc_bytes_used (volume_report vr c)) = sum_list (map (\<lambda>d. unat (ds_used d)) (elems (vr_disks vr))) \<and>
         0 \<le> vc_capacity_pct (volume_report vr c) \<and> vc_capacity_pct (volume_report vr c) \<le> 100"
proof -
  obtain a b d where n: "count_volumes (elems (vr_volumes vr)) (0, 0, 0) = (a, b, d)" by (metis prod_cases3)
  obtain t u where s: "add_disks (elems (vr_disks vr)) (0, 0) = (t, u)" by fastforce
  from add_disks_sum[of 0 "elems (vr_disks vr)" 0 t u] s assms
  have "unat t = sum_list (map (\<lambda>d. unat (ds_total d)) (elems (vr_disks vr)))"
    "unat u = sum_list (map (\<lambda>d. unat (ds_used d)) (elems (vr_disks vr)))" "unat u \<le> unat t"
    by simp_all
  then show ?thesis
    using count_volumes_total[OF n] capacity_pct_bound[of u t] assms(2)
    by (simp add: volume_report_def n s)
qed

subsection \<open>Per-collection statistics\<close>

definition rack_rows :: "string \<times> json \<Rightarrow> volume_row list" where
  "rack_rows rj =
     (case dec_map None (dec_slice zero_row dec_volume_row) (snd rj) [] of
        None \<Rightarrow> []
      | Some nodes \<Rightarrow> concat (map (\<lambda>nv. elems (snd nv)) nodes))"

definition center_rows :: "string \<times> json \<Rightarrow> volume_row list" where
  "center_rows dj =
     (case dec_map JNull dec_raw (snd dj) [] of
        None \<Rightarrow> []
      | Some racks \<Rightarrow> concat (map rack_rows racks))"

text \<open>All volumes that the topology reports, wherever they are.\<close>

definition reported_rows :: "string \<Rightarrow> volume_row list" where
  "reported_rows body =
     (case unmarshal dec_vol_status \<lparr>vs_volumes = \<lparr>dc_map = []\<rparr>\<rparr> body of
        Inl _ \<Rightarrow> []
      | Inr st \<Rightarrow> concat (map center_rows (dc_map (vs_volumes st))))"

definition stat_of :: "volume_row list \<Rightarrow> collection_stat" where
  "stat_of vs = \<lparr>cs_object_count = sum_list (map (\<lambda>v. vw_file_count v - vw_delete_count v) vs),
     cs_size_bytes = sum_list (map vw_size vs), cs_degraded = (\<exists>v \<in> set vs. vw_read_only v)\<rparr>"

lemma fold_concat: "fold (\<lambda>x. fold f (g x)) xs s = fold f (concat (map g xs)) s"
  by (induction xs arbitrary: s) simp_all

lemma add_rack_rows: "add_rack rj = fold add_volume (rack_rows rj)"
  by (rule HOL.ext) (simp add: add_rack_def rack_rows_def add_node_def[abs_def] fold_concat split: option.split)

lemma add_center_rows: "add_center dj = fold add_volume (center_rows dj)"
  by (rule HOL.ext) (simp add: add_center_def center_rows_def add_rack_rows[abs_def] fold_concat split: option.split)

lemma collection_stats_rows: "collection_stats body = fold add_volume (reported_rows body) (\<lambda>_. zero_stat)"
  by (simp add: collection_stats_def reported_rows_def add_center_rows[abs_def] fold_concat split: sum.split)

definition add_stat :: "collection_stat \<Rightarrow> collection_stat \<Rightarrow> collection_stat" where
  "add_stat a b = \<lparr>cs_object_count = cs_object_count a + cs_object_count b,
     cs_size_bytes = cs_size_bytes a + cs_size_bytes b, cs_degraded = (cs_degraded a \<or> cs_degraded b)\<rparr>"

lemma fold_add_volume:
  "fold add_volume vs st b = add_stat (st b) (stat_of (filter (\<lambda>v. vw_collection v = b) vs))"
proof (induction vs arbitrary: st)
  case Nil
  then show ?case by (simp add: add_stat_def stat_of_def)
next
  case (Cons v vs)
  then show ?case by (simp add: add_volume_def add_stat_def stat_of_def Let_def add.assoc)
qed

lemma stat_of_mset: "mset vs = mset vs' \<Longrightarrow> stat_of vs = stat_of vs'"
proof -
  assume m: "mset vs = mset vs'"
  have s: "sum_list (map f vs) = sum_list (map f vs')" for f :: "volume_row \<Rightarrow> i64"
    using m by (metis mset_map sum_mset_sum_list)
  show ?thesis using s mset_eq_setD[OF m] by (simp add: stat_of_def)
qed

text \<open>
  C35. The statistics of a bucket are the sums over all volumes of its collection, whatever data centre,
  rack and node they are reported under, and in whatever order the maps of the topology are walked; a
  bucket is degraded exactly when one of its volumes is read-only.
\<close>

theorem collection_stats_totals:
  assumes "mset rows = mset (reported_rows body)"
  shows "collection_stats body b = stat_of (filter (\<lambda>v. vw_collection v = b) rows)"
proof -
  have "mset (filter (\<lambda>v. vw_collection v = b) rows) = mset (filter (\<lambda>v. vw_collection v = b) (reported_rows body))"
    using assms by simp
  from stat_of_mset[OF this] show ?thesis
    by (simp add: collection_stats_rows fold_add_volume add_stat_def zero_stat_def stat_of_def)
qed

subsection \<open>Examples\<close>

definition sample_topology :: json where
  "sample_topology =
     JObj [(''Volumes'', JObj [(''DataCenters'', JObj [
       (''dc1'', JObj [(''r1'', JObj [(''n1'', JArr [
          JObj [(''Collection'', JStr ''b1''), (''ReadOnly'', JBool True)]])])]),
       (''dc2'', JObj [(''r2'', JObj [(''n2'', JArr [JObj [(''Collection'', JStr ''b1'')], JObj []])])])])])]"

definition sample_rows :: "volume_row list" where
  "sample_rows = [zero_row\<lparr>vw_collection := ''b1''\<rparr>, zero_row, zero_row\<lparr>vw_collection := ''b1'', vw_read_only := True\<rparr>]"

lemma sample_topology_decodes:
  "unmarshal dec_vol_status z (json_compact sample_topology) =
     (case dec_vol_status sample_topology z of None \<Rightarrow> Inl json_error | Some v \<Rightarrow> Inr v)"
proof -
  have "wf_json sample_topology" "depth sample_topology \<le> max_depth"
    by (simp_all add: sample_topology_def max_depth_def)
  then show ?thesis by (simp add: unmarshal_def json_parse_compact)
qed

lemma sample_topology_rows:
  "reported_rows (json_compact sample_topology) =
     [zero_row\<lparr>vw_collection := ''b1'', vw_read_only := True\<rparr>, zero_row\<lparr>vw_collection := ''b1''\<rparr>, zero_row]"
  by (simp add: reported_rows_def sample_topology_decodes)
    (simp add: sample_topology_def dec_vol_status_def field_def find_field_def dec_map_def dec_raw_def
      center_rows_def rack_rows_def dec_slice_def dec_volume_row_def dec_string_def dec_bool_def zero_row_def)

theorem collection_stats_totals_witness:
  "collection_stats (json_compact sample_topology) ''b1'' =
     stat_of (filter (\<lambda>v. vw_collection v = ''b1'') sample_rows)"
  by (rule collection_stats_totals) (simp add: sample_topology_rows sample_rows_def)

definition sample_volumes :: volume_resp where
  "sample_volumes = \<lparr>vr_version = ''3.0'',
     vr_volumes = Some [zero_volume\<lparr>vi_read_only := True\<rparr>, zero_volume, zero_volume\<lparr>vi_replica_count := 2\<rparr>],
     vr_disks = Some [zero_disk\<lparr>ds_total := 8, ds_used := 7\<rparr>, zero_disk\<lparr>ds_total := 8, ds_used := 3\<rparr>]\<rparr>"

definition sample_down :: volume_component where
  "sample_down = volume_down 0 \<lparr>sh_name = ''weed-volume'', sh_active = False, sh_sub_state = []\<rparr>"

theorem volume_report_bounds_witness:
  "vc_degraded (volume_report sample_volumes sample_down) = 1 \<and> unat (vc_bytes_total (volume_report sample_volumes sample_down)) = 16 \<and>
   vc_capacity_pct (volume_report sample_volumes sample_down) \<le> 100"
proof -
  have "\<forall>d \<in> set (elems (vr_disks sample_volumes)). ds_used d \<le> ds_total d"
    "sum_list (map (\<lambda>d. unat (ds_total d)) (elems (vr_disks sample_volumes))) < 2 ^ 53"
    by (simp_all add: sample_volumes_def)
  from volume_report_bounds[OF this, of sample_down] show ?thesis
    by (simp add: sample_volumes_def volume_report_def zero_volume_def)
qed

end
