(* ===== verification/System.thy ===== *)
theory System
  imports GoOs Float64 Config
begin

section \<open>System metrics (internal/modules/system)\<close>

text \<open>
  The metrics module over the library gopsutil, whose calls are the record \<open>gops\<close>. The state is the
  previous I/O snapshot with its instant, replaced under the mutex by every disk query. Counters are
  64-bit words whose differences wrap; floats are the rationals they stand for, and every operation on
  them rounds (NaN and infinities do not arise from finite operands of these sizes).
\<close>

subsection \<open>What gopsutil reports\<close>

record host_info =
  hi_hostname :: string
  hi_platform :: string
  hi_platform_version :: string
  hi_kernel_version :: string
  hi_kernel_arch :: string
  hi_uptime :: u64
  hi_boot_time :: u64

record partition =
  pt_device :: string
  pt_mountpoint :: string
  pt_fstype :: string

record usage =
  ug_total :: u64
  ug_used :: u64
  ug_used_percent :: rat

record io_counters =
  io_read_count :: u64
  io_write_count :: u64
  io_read_bytes :: u64
  io_write_bytes :: u64
  io_time :: u64

record net_counters =
  nt_name :: string
  nt_bytes_sent :: u64
  nt_bytes_recv :: u64

record interface =
  if_name :: string
  if_flags :: "string list"

type_synonym io_snapshot = "(string \<Rightarrow> io_counters option) option"

text \<open>
  Each call gives an error text or a result and the next outside state. \<open>gp_percent per\<close> is \<^verbatim>\<open>cpu.Percent\<close>,
  overall or per core; \<open>gp_io\<close> is \<^verbatim>\<open>disk.IOCounters\<close> without its error, \<open>None\<close> being the nil map.
\<close>

record 'x gops =
  gp_host :: "'x \<Rightarrow> (string + host_info) \<times> 'x"
  gp_percent :: "bool \<Rightarrow> 'x \<Rightarrow> (string + rat list) \<times> 'x"
  gp_counts :: "'x \<Rightarrow> (string + int) \<times> 'x"
  gp_load :: "'x \<Rightarrow> (string + rat \<times> rat \<times> rat) \<times> 'x"
  gp_memory :: "'x \<Rightarrow> (string + usage) \<times> 'x"
  gp_partitions :: "'x \<Rightarrow> (string + partition list) \<times> 'x"
  gp_io :: "'x \<Rightarrow> io_snapshot \<times> 'x"
  gp_usage :: "string \<Rightarrow> 'x \<Rightarrow> (string + usage) \<times> 'x"
  gp_net :: "'x \<Rightarrow> (string + net_counters list) \<times> 'x"
  gp_interfaces :: "'x \<Rightarrow> (string + interface list) \<times> 'x"

subsection \<open>Results\<close>

record system_info =
  sy_hostname :: string
  sy_os :: string
  sy_kernel_version :: string
  sy_architecture :: string
  sy_uptime :: i64
  sy_boot_time :: i64
  sy_vm_id :: string
  sy_tenant_id :: string

record core_stat =
  co_id :: nat
  co_usage_pct :: rat

record cpu_stats =
  cu_usage_pct :: rat
  cu_core_count :: int
  cu_load_avg :: "rat \<times> rat \<times> rat"
  cu_cores :: "core_stat list"

record memory_stats =
  me_total_bytes :: u64
  me_used_bytes :: u64
  me_usage_pct :: rat

record disk_io =
  dio_read_bytes_per_s :: rat
  dio_write_bytes_per_s :: rat
  dio_read_iops :: rat
  dio_write_iops :: rat
  dio_util_pct :: rat

record disk_entry =
  de_device :: string
  de_mountpoint :: string
  de_total_bytes :: u64
  de_used_bytes :: u64
  de_usage_pct :: rat
  de_io :: "disk_io option"

record network_entry =
  ne_interface :: string
  ne_bytes_sent :: u64
  ne_bytes_recv :: u64
  ne_is_up :: bool

record system_metrics =
  sx_cpu :: cpu_stats
  sx_memory :: memory_stats
  sx_disks :: "disk_entry list"
  sx_network :: "network_entry list"

text \<open>The module: the VM id of the config drive, and the previous snapshot (\<open>None\<close>: no query yet).\<close>

record sys_module =
  sm_iso :: "(string \<times> string) option"
  sm_prev_io :: io_snapshot
  sm_prev_at :: "time option"

definition New_Module :: "(string \<times> string) option \<Rightarrow> sys_module" where
  "New_Module md = \<lparr>sm_iso = md, sm_prev_io = None, sm_prev_at = None\<rparr>"

subsection \<open>Host, CPU and memory\<close>

definition GetInfo :: "'x gops \<Rightarrow> sys_module \<Rightarrow> 'x \<Rightarrow> system_info res \<times> 'x" where
  "GetInfo gp m x =
     (case gp_host gp x of
        (Inl e, x') \<Rightarrow> (Inl (Wrap ''getting host info'' (OsErr e)), x')
      | (Inr h, x') \<Rightarrow>
          (Inr \<lparr>sy_hostname = hi_hostname h, sy_os = hi_platform h @ '' '' @ hi_platform_version h,
                sy_kernel_version = hi_kernel_version h, sy_architecture = hi_kernel_arch h,
                sy_uptime = hi_uptime h, sy_boot_time = hi_boot_time h,
                sy_vm_id = (case sm_iso m of None \<Rightarrow> [] | Some (vm, _) \<Rightarrow> vm),
                sy_tenant_id = (case sm_iso m of None \<Rightarrow> [] | Some (_, tenant) \<Rightarrow> tenant)\<rparr>, x'))"

definition GetCPU :: "'x gops \<Rightarrow> 'x \<Rightarrow> cpu_stats res \<times> 'x" where
  "GetCPU gp x0 =
     (case gp_percent gp False x0 of
        (Inl e, x1) \<Rightarrow> (Inl (Wrap ''cpu.Percent (overall)'' (OsErr e)), x1)
      | (Inr overall, x1) \<Rightarrow>
          (case gp_counts gp x1 of
             (Inl e, x2) \<Rightarrow> (Inl (Wrap ''cpu.Counts'' (OsErr e)), x2)
           | (Inr n, x2) \<Rightarrow>
               let (per, x3) = gp_percent gp True x2;
                   (avg, x4) = gp_load gp x3
               in (Inr \<lparr>cu_usage_pct = (case overall of [] \<Rightarrow> 0 | p # _ \<Rightarrow> p), cu_core_count = n,
                        cu_load_avg = (case avg of Inl _ \<Rightarrow> (0, 0, 0) | Inr a \<Rightarrow> a),
                        cu_cores = (case per of Inl _ \<Rightarrow> []
                          | Inr ps \<Rightarrow> map (\<lambda>(i, p). \<lparr>co_id = i, co_usage_pct = p\<rparr>) (enumerate 0 ps))\<rparr>, x4)))"

definition GetMemory :: "'x gops \<Rightarrow> 'x \<Rightarrow> memory_stats res \<times> 'x" where
  "GetMemory gp x =
     (case gp_memory gp x of
        (Inl e, x') \<Rightarrow> (Inl (Wrap ''mem.VirtualMemory'' (OsErr e)), x')
      | (Inr u, x') \<Rightarrow>
          (Inr \<lparr>me_total_bytes = ug_total u, me_used_bytes = ug_used u, me_usage_pct = ug_used_percent u\<rparr>, x'))"

subsection \<open>Disks\<close>

definition pseudoFS :: "string list" where
  "pseudoFS = [''tmpfs'', ''devtmpfs'', ''proc'', ''sysfs'', ''devpts'', ''cgroup'', ''cgroup2'', ''pstore'',
     ''hugetlbfs'', ''mqueue'', ''debugfs'', ''tracefs'', ''securityfs'', ''fusectl'', ''configfs'', ''bpf'',
     ''overlay'', ''squashfs'', ''efivarfs'']"

text \<open>\<^verbatim>\<open>Duration.Seconds\<close> and the conversion of a 64-bit counter.\<close>

definition seconds_of :: "int \<Rightarrow> rat" where
  "seconds_of d = f64 (f64 (of_int (go_div d second)) + f64 (f64 (of_int (go_mod d second)) / 1000000000))"

definition float_of :: "u64 \<Rightarrow> rat" where
  "float_of c = f64 (of_nat (unat c))"

definition disk_rates :: "rat \<Rightarrow> io_counters \<Rightarrow> io_counters \<Rightarrow> disk_io" where
  "disk_rates elapsed cur old =
     (let elapsedMs = f64 (elapsed * 1000);
          util = (if elapsedMs > 0
                  then let u = f64 (f64 (float_of (io_time cur - io_time old) / elapsedMs) * 100)
                       in if u > 100 then 100 else u
                  else 0);
          rate = (\<lambda>c. f64 (float_of (c cur - c old) / elapsed))
      in \<lparr>dio_read_bytes_per_s = rate io_read_bytes, dio_write_bytes_per_s = rate io_write_bytes,
          dio_read_iops = rate io_read_count, dio_write_iops = rate io_write_count, dio_util_pct = util\<rparr>)"

definition entry_io :: "rat \<Rightarrow> io_snapshot \<Rightarrow> io_snapshot \<Rightarrow> string \<Rightarrow> disk_io option" where
  "entry_io elapsed prev cur device =
     (case (prev, cur) of
        (Some p, Some c) \<Rightarrow>
          if elapsed > 0 then
            let devName = trim_prefix device ''/dev/'' in
            (case c devName of
               None \<Rightarrow> None
             | Some now \<Rightarrow> (case p devName of None \<Rightarrow> None | Some old \<Rightarrow> Some (disk_rates elapsed now old)))
          else None
      | _ \<Rightarrow> None)"

fun disk_entries ::
  "'x gops \<Rightarrow> rat \<Rightarrow> io_snapshot \<Rightarrow> io_snapshot \<Rightarrow> partition list \<Rightarrow> 'x \<Rightarrow> disk_entry list \<times> 'x" where
  "disk_entries gp elapsed prev cur [] x = ([], x)"
| "disk_entries gp elapsed prev cur (p # ps) x =
     (if pt_fstype p \<in> set pseudoFS then disk_entries gp elapsed prev cur ps x
      else
        (case gp_usage gp (pt_mountpoint p) x of
           (Inl _, x') \<Rightarrow> disk_entries gp elapsed prev cur ps x'
         | (Inr u, x') \<Rightarrow>
             let (es, x'') = disk_entries gp elapsed prev cur ps x' in
             (\<lparr>de_device = pt_device p, de_mountpoint = pt_mountpoint p, de_total_bytes = ug_total u,
               de_used_bytes = ug_used u, de_usage_pct = ug_used_percent u,
               de_io = entry_io elapsed prev cur (pt_device p)\<rparr> # es, x'')))"

definition GetDisk ::
  "'x os \<Rightarrow> 'x gops \<Rightarrow> sys_module \<times> 'x \<Rightarrow> disk_entry list res \<times> sys_module \<times> 'x" where
  "GetDisk os gp mx =
     (let (m, x0) = mx in
      case gp_partitions gp x0 of
        (Inl e, x1) \<Rightarrow> (Inl (Wrap ''disk.Partitions'' (OsErr e)), m, x1)
      | (Inr ps, x1) \<Rightarrow>
          let now = os_now os x1;
              (io, x2) = gp_io gp x1;
              elapsed = (case sm_prev_at m of None \<Rightarrow> 0 | Some t \<Rightarrow> seconds_of (now - t));
              (es, x3) = disk_entries gp elapsed (sm_prev_io m) io ps x2
          in (Inr es, m\<lparr>sm_prev_io := io, sm_prev_at := Some now\<rparr>, x3))"

subsection \<open>Network\<close>

definition isVirtualInterface :: "string \<Rightarrow> bool" where
  "isVirtualInterface name \<longleftrightarrow>
     name = ''lo'' \<or> has_prefix name ''docker'' \<or> has_prefix name ''veth'' \<or> has_prefix name ''br-'' \<or>
     has_prefix name ''virbr'' \<or> has_prefix name ''vlan''"

text \<open>The interface map keeps the last entry of a name.\<close>

definition interface_map :: "interface list \<Rightarrow> string \<Rightarrow> interface option" where
  "interface_map ifs = fold (\<lambda>i m. m(if_name i \<mapsto> i)) ifs (\<lambda>_. None)"

definition network_entry_of :: "(string \<Rightarrow> interface option) \<Rightarrow> net_counters \<Rightarrow> network_entry" where
  "network_entry_of im c =
     \<lparr>ne_interface = nt_name c, ne_bytes_sent = nt_bytes_sent c, ne_bytes_recv = nt_bytes_recv c,
      ne_is_up = (case im (nt_name c) of None \<Rightarrow> False | Some i \<Rightarrow> ''up'' \<in> set (if_flags i))\<rparr>"

definition GetNetwork :: "'x gops \<Rightarrow> 'x \<Rightarrow> network_entry list res \<times> 'x" where
  "GetNetwork gp x0 =
     (case gp_net gp x0 of
        (Inl e, x1) \<Rightarrow> (Inl (Wrap ''net.IOCounters'' (OsErr e)), x1)
      | (Inr cs, x1) \<Rightarrow>
          (case gp_interfaces gp x1 of
             (Inl e, x2) \<Rightarrow> (Inl (Wrap ''net.Interfaces'' (OsErr e)), x2)
           | (Inr ifs, x2) \<Rightarrow>
               (Inr (map (network_entry_of (interface_map ifs))
                      (filter (\<lambda>c. \<not> isVirtualInterface (nt_name c)) cs)), x2)))"

subsection \<open>The full snapshot\<close>

definition GetMetrics ::
  "'x os \<Rightarrow> 'x gops \<Rightarrow> sys_module \<times> 'x \<Rightarrow> system_metrics res \<times> sys_module \<times> 'x" where
  "GetMetrics os gp mx =
     (let (m, x0) = mx in
      case GetCPU gp x0 of
        (Inl e, x1) \<Rightarrow> (Inl (Wrap ''collecting CPU metrics'' e), m, x1)
      | (Inr cpu, x1) \<Rightarrow>
     (case GetMemory gp x1 of
        (Inl e, x2) \<Rightarrow> (Inl (Wrap ''collecting memory metrics'' e), m, x2)
      | (Inr mem, x2) \<Rightarrow>
     (case GetDisk os gp (m, x2) of
        (Inl e, m', x3) \<Rightarrow> (Inl (Wrap ''collecting disk metrics'' e), m', x3)
      | (Inr disks, m', x3) \<Rightarrow>
     (case GetNetwork gp x3 of
        (Inl e, x4) \<Rightarrow> (Inl (Wrap ''collecting network metrics'' e), m', x4)
      | (Inr net, x4) \<Rightarrow>
          (Inr \<lparr>sx_cpu = cpu, sx_memory = mem, sx_disks = disks, sx_network = net\<rparr>, m', x4)))))"

subsection \<open>Lemmas\<close>

lemma float_of_nonneg [simp]: "0 \<le> float_of c"
  unfolding float_of_def by (rule f64_nonneg[OF of_nat_0_le_iff])

lemma disk_rates_bounds:
  assumes "0 < elapsed"
  shows "0 \<le> dio_read_bytes_per_s (disk_rates elapsed cur old) \<and> 0 \<le> dio_write_bytes_per_s (disk_rates elapsed cur old) \<and>
    0 \<le> dio_read_iops (disk_rates elapsed cur old) \<and> 0 \<le> dio_write_iops (disk_rates elapsed cur old) \<and>
    0 \<le> dio_util_pct (disk_rates elapsed cur old) \<and> dio_util_pct (disk_rates elapsed cur old) \<le> 100"
  using assms by (simp add: disk_rates_def Let_def f64_nonneg)

lemma entry_io_Some:
  "entry_io elapsed prev cur d = Some io \<Longrightarrow> 0 < elapsed \<and> prev \<noteq> None \<and> (\<exists>now old. io = disk_rates elapsed now old)"
  by (auto simp: entry_io_def Let_def split: option.splits if_splits)

lemma disk_entries_source:
  "disk_entries gp elapsed prev cur ps x = (es, x') \<Longrightarrow> e \<in> set es \<Longrightarrow>
    de_io e = entry_io elapsed prev cur (de_device e) \<and>
    (\<exists>p \<in> set ps. pt_fstype p \<notin> set pseudoFS \<and> pt_device p = de_device e \<and> pt_mountpoint p = de_mountpoint e)"
  by (induction gp elapsed prev cur ps x arbitrary: es x' rule: disk_entries.induct)
    (fastforce split: if_splits sum.splits prod.splits)+

text \<open>
  Counters restart when a device is detached and attached again: the difference wraps and is reported as
  a rate near 2^64 per second instead of being left out.
\<close>

lemma counter_reset_rate:
  assumes "io_read_bytes now < io_read_bytes old"
  shows "dio_read_bytes_per_s (disk_rates elapsed now old) =
    f64 (f64 (of_nat (2 ^ 64 - (unat (io_read_bytes old) - unat (io_read_bytes now)))) / elapsed)"
proof -
  have "unat (io_read_bytes now - io_read_bytes old) = 2 ^ 64 - (unat (io_read_bytes old) - unat (io_read_bytes now))"
    using assms by (subst unat_sub_if_size) (auto simp: word_size word_le_nat_alt word_less_nat_alt)
  then show ?thesis by (simp only: disk_rates_def float_of_def Let_def disk_io.simps)
qed

subsection \<open>Properties\<close>

text \<open>
  C38. A disk query reports only partitions of real file systems; an I/O section appears only after an
  earlier query has set a baseline, and in it every rate is non-negative and the utilisation lies between
  0 and 100 percent, whatever the counters and the clock did in between.
\<close>

theorem GetDisk_io_bounds:
  assumes "GetDisk os gp (m, x) = (Inr es, m', x')" "e \<in> set es"
  shows "(\<exists>ps x1. gp_partitions gp x = (Inr ps, x1) \<and>
            (\<exists>p \<in> set ps. pt_fstype p \<notin> set pseudoFS \<and> pt_device p = de_device e)) \<and>
    (case de_io e of
       None \<Rightarrow> True
     | Some io \<Rightarrow> sm_prev_at m \<noteq> None \<and> 0 \<le> dio_read_bytes_per_s io \<and> 0 \<le> dio_write_bytes_per_s io \<and>
         0 \<le> dio_read_iops io \<and> 0 \<le> dio_write_iops io \<and> 0 \<le> dio_util_pct io \<and> dio_util_pct io \<le> 100)"
proof -
  obtain ps x1 io x2 where p: "gp_partitions gp x = (Inr ps, x1)"
    and d: "disk_entries gp (case sm_prev_at m of None \<Rightarrow> 0 | Some t \<Rightarrow> seconds_of (os_now os x1 - t))
              (sm_prev_io m) io ps x2 = (es, x')"
    using assms(1) by (auto simp: GetDisk_def Let_def split: sum.splits prod.splits)
  note src = disk_entries_source[OF d assms(2)]
  show ?thesis
  proof (cases "de_io e")
    case (Some i)
    then have "entry_io (case sm_prev_at m of None \<Rightarrow> 0 | Some t \<Rightarrow> seconds_of (os_now os x1 - t))
        (sm_prev_io m) io (de_device e) = Some i" using src by simp
    from entry_io_Some[OF this] show ?thesis
      using src p Some by (auto simp: disk_rates_bounds split: option.splits)
  qed (use src p in auto)
qed

subsection \<open>Example\<close>

definition sample_io :: "nat \<Rightarrow> io_snapshot" where
  "sample_io n = Some [''sda'' \<mapsto> \<lparr>io_read_count = of_nat n, io_write_count = of_nat n, io_read_bytes = of_nat n,
     io_write_bytes = of_nat n, io_time = of_nat n\<rparr>]"

definition sample_gops :: "unit gops" where
  "sample_gops = \<lparr>gp_host = Pair (Inl ''none''), gp_percent = (\<lambda>_. Pair (Inr [12])), gp_counts = Pair (Inr 4),
     gp_load = Pair (Inl ''none''), gp_memory = Pair (Inr \<lparr>ug_total = 8, ug_used = 4, ug_used_percent = 50\<rparr>),
     gp_partitions = Pair (Inr [\<lparr>pt_device = ''/dev/sda'', pt_mountpoint = ''/'', pt_fstype = ''ext4''\<rparr>,
       \<lparr>pt_device = ''tmpfs'', pt_mountpoint = ''/run'', pt_fstype = ''tmpfs''\<rparr>]),
     gp_io = Pair (sample_io 5), gp_usage = (\<lambda>_. Pair (Inr \<lparr>ug_total = 8, ug_used = 4, ug_used_percent = 50\<rparr>)),
     gp_net = Pair (Inr []), gp_interfaces = Pair (Inr [])\<rparr>"

definition sample_module :: sys_module where
  "sample_module = \<lparr>sm_iso = None, sm_prev_io = sample_io 3, sm_prev_at = Some (- second)\<rparr>"

definition sample_disks :: "disk_entry list" where
  "sample_disks = [\<lparr>de_device = ''/dev/sda'', de_mountpoint = ''/'', de_total_bytes = 8, de_used_bytes = 4,
     de_usage_pct = 50, de_io = entry_io (seconds_of second) (sample_io 3) (sample_io 5) ''/dev/sda''\<rparr>]"

theorem GetDisk_io_bounds_witness:
  "GetDisk calm_os sample_gops (sample_module, ()) =
     (Inr sample_disks, sample_module\<lparr>sm_prev_io := sample_io 5, sm_prev_at := Some 0\<rparr>, ()) \<and>
   (case de_io (hd sample_disks) of None \<Rightarrow> False | Some io \<Rightarrow> dio_util_pct io \<le> 100)"
proof -
  have run: "GetDisk calm_os sample_gops (sample_module, ()) =
     (Inr sample_disks, sample_module\<lparr>sm_prev_io := sample_io 5, sm_prev_at := Some 0\<rparr>, ())"
    by (simp add: GetDisk_def sample_gops_def sample_module_def sample_disks_def calm_os_def pseudoFS_def)
  have "0 < seconds_of second" by code_simp
  then have "de_io (hd sample_disks) \<noteq> None"
    by (simp add: sample_disks_def entry_io_def sample_io_def trim_prefix_def has_prefix_def)
  moreover have "hd sample_disks \<in> set sample_disks" by (simp add: sample_disks_def)
  ultimately show ?thesis
    using run GetDisk_io_bounds[OF run, of "hd sample_disks"] by (auto split: option.splits)
qed

end
