(* ===== verification/JsonWf.thy ===== *)
theory JsonWf
  imports JsonDecode
begin

section \<open>What the JSON parser returns\<close>

text \<open>
  The parser accepts any bytes, but the tree it returns is always well formed: invalid UTF-8 and lone
  surrogates have become U+FFFD in every string, every number is a literal of the grammar, and the
  nesting is within the limit. So a tree that came from a file or a message can be printed and read
  back, and the string fields that the decoders take from it are valid UTF-8. The later theories use
  this to drop such hypotheses about their inputs.
\<close>

named_theorems utf8_intros

subsection \<open>UTF-8\<close>

lemma valid_utf8_step: "rune_len s \<noteq> 0 \<Longrightarrow> valid_utf8 s = valid_utf8 (drop (rune_len s) s)"
  by (subst valid_utf8.simps) auto

lemma valid_utf8_append: "valid_utf8 u \<Longrightarrow> valid_utf8 (u @ v) = valid_utf8 v"
proof (induction u rule: valid_utf8.induct)
  case (1 u)
  show ?case
  proof (cases "u = []")
    case False
    with "1.prems" have n: "rune_len u \<noteq> 0" "valid_utf8 (drop (rune_len u) u)"
      by (simp_all add: valid_utf8.simps[of u] split: if_splits)
    then have "rune_len (u @ v) = rune_len u" "drop (rune_len u) (u @ v) = drop (rune_len u) u @ v"
      using rune_len_le[of u] by (simp_all add: rune_len_append)
    then have "valid_utf8 (u @ v) = valid_utf8 (drop (rune_len u) u @ v)"
      using n valid_utf8_step[of "u @ v"] by simp
    then show ?thesis using "1.IH"[OF False n] by simp
  qed simp
qed

lemma valid_utf8_appendI [utf8_intros]: "valid_utf8 u \<Longrightarrow> valid_utf8 v \<Longrightarrow> valid_utf8 (u @ v)"
  by (simp add: valid_utf8_append)

lemma valid_utf8_rune [utf8_intros]: "valid_utf8 (take (rune_len s) s)"
proof (cases "rune_len s = 0")
  case False
  then show ?thesis
    using rune_len_take[of s "rune_len s"] by (subst valid_utf8_step) simp_all
qed simp

lemma valid_utf8_replacement [utf8_intros]: "valid_utf8 replacement"
  by code_simp

lemma valid_utf8_encode_rune [utf8_intros]: "valid_utf8 (encode_rune r)"
proof -
  consider "r < 0x80" | "0x80 \<le> r \<and> r < 0x800"
    | "0x800 \<le> r \<and> (0xD800 \<le> r \<and> r \<le> 0xDFFF \<or> 0x10FFFF < r)"
    | "0x800 \<le> r \<and> r < 0x10000 \<and> \<not> (0xD800 \<le> r \<and> r \<le> 0xDFFF)"
    | "0x10000 \<le> r \<and> r \<le> 0x10FFFF"
    by linarith
  then show ?thesis
  proof cases
    case 1
    then show ?thesis by (simp add: encode_rune_def)
  next
    case 2
    then have "2 \<le> r div 64" "r div 64 < 32" by linarith+
    then have "rune_len (encode_rune r) = 2"
      using 2 by (simp add: encode_rune_def rune_len.simps(2) lead_len_def second_ok_def is_cont_def)
    then show ?thesis using 2 by (subst valid_utf8_step) (simp_all add: encode_rune_def)
  next
    case 3
    then show ?thesis by (auto simp: encode_rune_def valid_utf8_replacement)
  next
    case 4
    have b: "r div 4096 < 16" using 4 by linarith
    have d: "r div 64 mod 64 < 64" "r div 64 = 64 * (r div 4096) + r div 64 mod 64"
      using mult_div_mod_eq[of 64 "r div 64"] div_mult2_eq[of r 64 64] by simp_all
    have lo: "r div 4096 = 0 \<Longrightarrow> 0x20 \<le> r div 64 mod 64"
    proof -
      have "0x20 \<le> r div 64" using 4 by linarith
      then show "r div 4096 = 0 \<Longrightarrow> 0x20 \<le> r div 64 mod 64" using d by simp
    qed
    have hi: "r div 4096 = 0xD \<Longrightarrow> r div 64 mod 64 < 0x20"
    proof (rule ccontr)
      assume a: "r div 4096 = 0xD" "\<not> r div 64 mod 64 < 0x20"
      then have "0x360 \<le> r div 64" "r div 64 < 0x380" using d by linarith+
      then have "0xD800 \<le> r" "r < 0xE000" by linarith+
      then show False using 4 by auto
    qed
    have "rune_len (encode_rune r) = 3"
      using 4 b d lo hi
      by (auto simp: encode_rune_def rune_len.simps(2) lead_len_def second_ok_def is_cont_def)
    then show ?thesis using 4 by (subst valid_utf8_step) (auto simp add: encode_rune_def)
  next
    case 5
    have b: "r div 262144 \<le> 4" using 5 by linarith
    have d: "r div 4096 mod 64 < 64"
        "r div 4096 = 64 * (r div 262144) + r div 4096 mod 64"
      using mult_div_mod_eq[of 64 "r div 4096"] div_mult2_eq[of r 4096 64] by simp_all
    have lo: "r div 262144 = 0 \<Longrightarrow> 0x10 \<le> r div 4096 mod 64"
    proof -
      have "0x10 \<le> r div 4096" using 5 by linarith
      then show "r div 262144 = 0 \<Longrightarrow> 0x10 \<le> r div 4096 mod 64" using d by simp
    qed
    have hi: "r div 262144 = 4 \<Longrightarrow> r div 4096 mod 64 < 0x10"
    proof -
      have "r div 4096 < 0x110" using 5 by linarith
      then show "r div 262144 = 4 \<Longrightarrow> r div 4096 mod 64 < 0x10" using d by linarith
    qed
    have "rune_len (encode_rune r) = 4"
      using 5 b d lo hi
      by (auto simp: encode_rune_def rune_len.simps(2) lead_len_def second_ok_def is_cont_def)
    then show ?thesis using 5 by (subst valid_utf8_step) (auto simp add: encode_rune_def)
  qed
qed

subsection \<open>String literals\<close>

definition esc_char :: "char \<Rightarrow> bool" where
  "esc_char e \<longleftrightarrow> e \<in> set ''/bfnrtu'' \<or> e = quote \<or> e = bslash"

fun raw_ok :: "string \<Rightarrow> bool" where
  "raw_ok [] = True"
| "raw_ok [c] = (c \<noteq> bslash)"
| "raw_ok (c # e # r) = (if c = bslash then esc_char e \<and> raw_ok r else raw_ok (e # r))"

lemma raw_ok_Cons: "c \<noteq> bslash \<Longrightarrow> raw_ok (c # r) = raw_ok r"
  by (cases r) simp_all

lemma raw_ok_plain: "bslash \<notin> set u \<Longrightarrow> raw_ok (u @ r) = raw_ok r"
  by (induction u) (auto simp: raw_ok_Cons)

lemma lex_raw_ok: "lex_raw s = Some (w, t) \<Longrightarrow> raw_ok w"
proof (induction s arbitrary: w t rule: lex_raw.induct)
  case (2 c cs)
  then show ?case
    by (fastforce split: if_splits list.splits simp: raw_cons_Some raw_ok_Cons esc_char_def)
qed simp

lemma getu4_drop:
  assumes "getu4 r = Some u"
  shows "raw_ok (drop 4 r) = raw_ok r"
proof -
  obtain a b c d t where r: "r = a # b # c # d # t"
    and "hex_val a \<noteq> None" "hex_val b \<noteq> None" "hex_val c \<noteq> None" "hex_val d \<noteq> None"
    using assms by (auto simp: getu4_def split: list.splits option.splits)
  moreover have "hex_val bslash = None" by (simp add: hex_val_def)
  ultimately have "bslash \<notin> set [a, b, c, d]" by auto
  then show ?thesis using raw_ok_plain[of "[a, b, c, d]" t] r by simp
qed

lemma unesc_ascii: "esc_char e \<Longrightarrow> code (unesc e) < 0x80"
proof -
  assume e: "esc_char e"
  have "list_all (\<lambda>e. code (unesc e) < 0x80) (quote # bslash # ''/bfnrtu'')" by code_simp
  moreover have "e \<in> set (quote # bslash # ''/bfnrtu'')" using e by (auto simp: esc_char_def)
  ultimately show ?thesis unfolding list_all_iff by blast
qed

lemma raw_ok_rune:
  assumes "raw_ok (c # cs)" "c \<noteq> bslash"
  shows "raw_ok (drop (rune_len (c # cs)) (c # cs))"
proof (cases "code c < 0x80")
  case True
  then show ?thesis using assms by (simp add: raw_ok_Cons)
next
  case False
  let ?n = "rune_len (c # cs)"
  have "bslash \<notin> set (take ?n (c # cs))" using rune_len_high[OF False] by fastforce
  then show ?thesis using raw_ok_plain[of "take ?n (c # cs)" "drop ?n (c # cs)"] assms(1) by simp
qed

lemma valid_utf8_unquote: "raw_ok s \<Longrightarrow> valid_utf8 (unquote s)"
proof (induction s rule: unquote.induct)
  case (1 s)
  show ?case
  proof (cases s)
    case Nil
    then show ?thesis by (simp add: unquote.simps)
  next
    case (Cons c cs)
    show ?thesis
    proof (cases "c = bslash")
      case False
      have "valid_utf8 (unquote s)" if "rune_len s = 0"
        using "1.IH"(5)[OF Cons False that] "1.prems" Cons False that
        by (subst unquote.simps) (simp add: raw_ok_Cons utf8_intros)
      moreover have "valid_utf8 (unquote s)" if "rune_len s \<noteq> 0"
        using "1.IH"(6)[OF Cons False that] "1.prems" Cons False that raw_ok_rune[of c cs]
        by (subst unquote.simps) (auto intro!: utf8_intros)
      ultimately show ?thesis by blast
    next
      case bs: True
      then obtain e r where cs: "cs = e # r" and e: "esc_char e" and r: "raw_ok r"
        using "1.prems" Cons by (cases cs) auto
      have rec: "unquote s = (if e = CHR ''u'' then
                 (case getu4 r of
                    None \<Rightarrow> []
                  | Some u \<Rightarrow>
                      if 0xD800 \<le> u \<and> u < 0xE000 then
                        (case (if take 2 (drop 4 r) = [bslash, CHR ''u'']
                               then Option.bind (getu4 (drop 6 r)) (surrogate_pair u) else None) of
                           Some p \<Rightarrow> encode_rune p @ unquote (drop 10 r)
                         | None \<Rightarrow> replacement @ unquote (drop 4 r))
                      else encode_rune u @ unquote (drop 4 r))
               else unesc e # unquote r)"
        using Cons cs bs by (subst unquote.simps) simp
      show ?thesis
      proof (cases "e = CHR ''u''")
        case False
        then show ?thesis
          using "1.IH"(4)[OF Cons bs cs False r] unesc_ascii[OF e] unfolding rec by simp
      next
        case u: True
        show ?thesis
        proof (cases "getu4 r")
          case None
          then show ?thesis using u unfolding rec by simp
        next
          case (Some v)
          have r4: "raw_ok (drop 4 r)" using getu4_drop[OF Some] r by simp
          show ?thesis
          proof (cases "0xD800 \<le> v \<and> v < 0xE000")
            case False
            then show ?thesis
              using "1.IH"(3)[OF Cons bs cs u Some False r4] False u Some unfolding rec
              by (auto intro: utf8_intros)
          next
            case sur: True
            show ?thesis
            proof (cases "if take 2 (drop 4 r) = [bslash, CHR ''u'']
                then Option.bind (getu4 (drop 6 r)) (surrogate_pair v) else None")
              case None
              then have "unquote s = replacement @ unquote (drop 4 r)" using u Some sur by (auto simp: rec)
              then show ?thesis
                using "1.IH"(1)[OF Cons bs cs u Some sur None r4] by (simp add: utf8_intros)
            next
              case p: (Some p)
              then obtain v' where t2: "take 2 (drop 4 r) = [bslash, CHR ''u'']" and v': "getu4 (drop 6 r) = Some v'"
                by (cases "getu4 (drop 6 r)") (auto split: if_splits)
              have "drop 4 r = take 2 (drop 4 r) @ drop 6 r"
                using append_take_drop_id[of 2 "drop 4 r"] by simp
              then have "raw_ok (drop 6 r)" using r4 t2 by simp
              then have r10: "raw_ok (drop 10 r)" using getu4_drop[OF v'] by simp
              have "unquote s = encode_rune p @ unquote (drop 10 r)" using u Some sur p t2 by (auto simp: rec)
              then show ?thesis
                using "1.IH"(2)[OF Cons bs cs u Some sur p r10] by (simp add: utf8_intros)
            qed
          qed
        qed
      qed
    qed
  qed
qed

lemma lex_raw_utf8: "lex_raw s = Some (w, t) \<Longrightarrow> valid_utf8 (unquote w)"
  by (rule valid_utf8_unquote[OF lex_raw_ok])

subsection \<open>Number literals\<close>

lemma digits_split:
  assumes "dropWhile is_digit u = d @ t"
  shows "takeWhile is_digit (takeWhile is_digit u @ d) = takeWhile is_digit u"
    and "dropWhile is_digit (takeWhile is_digit u @ d) = d"
proof -
  have "d = [] \<or> \<not> is_digit (hd d)"
    using assms hd_dropWhile[of is_digit u] by (cases d) auto
  then have d: "takeWhile is_digit d = []" "dropWhile is_digit d = d" by (cases d; simp)+
  have p: "\<forall>c \<in> set (takeWhile is_digit u). is_digit c" by (auto dest: set_takeWhileD)
  show "takeWhile is_digit (takeWhile is_digit u @ d) = takeWhile is_digit u"
    using p d(1) by (simp add: takeWhile_append2)
  show "dropWhile is_digit (takeWhile is_digit u @ d) = d"
    using p d(2) by (simp add: dropWhile_append2)
qed

lemma lex_exp_split:
  assumes "lex_exp acc s = Some (l, t)"
  obtains d where "s = d @ t" "l = acc @ d" "\<And>a. lex_exp a d = Some (a @ d, [])"
proof (cases s)
  case Nil
  then show ?thesis using assms that[of "[]"] by (simp add: lex_exp_def)
next
  case (Cons c u)
  show ?thesis
  proof (cases "c = CHR ''e'' \<or> c = CHR ''E''")
    case False
    then show ?thesis using assms Cons that[of "[]"] by (simp add: lex_exp_def)
  next
    case e: True
    define sg where "sg = (if u \<noteq> [] \<and> (hd u = CHR ''+'' \<or> hd u = CHR ''-'') then [hd u] else [])"
    define v where "v = drop (length sg) u"
    have v: "takeWhile is_digit v \<noteq> []" "l = acc @ c # sg @ takeWhile is_digit v" "t = dropWhile is_digit v"
      using assms Cons e by (auto simp: lex_exp_def Let_def sg_def[symmetric] v_def[symmetric] split: if_splits)
    have u: "u = sg @ v" by (auto simp: sg_def v_def drop_Suc)
    let ?d = "c # sg @ takeWhile is_digit v"
    have "takeWhile is_digit (takeWhile is_digit v @ []) = takeWhile is_digit v"
      "dropWhile is_digit (takeWhile is_digit v @ []) = []"
      using digits_split[of v "[]" t] v(3) by auto
    moreover have "takeWhile is_digit v = a # r \<Longrightarrow> a \<noteq> CHR ''+'' \<and> a \<noteq> CHR ''-''" for a r
      using set_takeWhileD[of a is_digit v] by (auto simp: is_digit_def)
    ultimately have "lex_exp a ?d = Some (a @ ?d, [])" for a
      using e v(1) by (cases "takeWhile is_digit v") (auto simp: lex_exp_def sg_def)
    then show ?thesis using that[of ?d] Cons u v by simp
  qed
qed

lemma lex_frac_split:
  assumes "lex_frac acc s = Some (l, t)"
  obtains d where "s = d @ t" "l = acc @ d" "\<And>a. lex_frac a d = Some (a @ d, [])"
proof (cases s)
  case Nil
  then show ?thesis using assms that[of "[]"] by (simp add: lex_frac_def)
next
  case (Cons c u)
  show ?thesis
  proof (cases "c = CHR ''.''")
    case True
    then have n: "takeWhile is_digit u \<noteq> []"
      and x: "lex_exp (acc @ c # takeWhile is_digit u) (dropWhile is_digit u) = Some (l, t)"
      using assms Cons by (auto simp: lex_frac_def Let_def split: if_splits)
    obtain d where d: "dropWhile is_digit u = d @ t" "l = acc @ c # takeWhile is_digit u @ d"
      "\<And>a. lex_exp a d = Some (a @ d, [])"
      using lex_exp_split[OF x] by force
    let ?d = "c # takeWhile is_digit u @ d"
    have "lex_frac a ?d = Some (a @ ?d, [])" for a
      using True n d(3) by (simp add: lex_frac_def Let_def digits_split[OF d(1)])
    moreover have "u = takeWhile is_digit u @ d @ t" using d(1) takeWhile_dropWhile_id[of is_digit u] by simp
    ultimately show ?thesis using that[of ?d] Cons d(2) by simp
  next
    case False
    then have x: "lex_exp acc s = Some (l, t)" using assms Cons by (simp add: lex_frac_def)
    obtain d where d: "s = d @ t" "l = acc @ d" "\<And>a. lex_exp a d = Some (a @ d, [])"
      using lex_exp_split[OF x] by blast
    have "lex_frac a d = Some (a @ d, [])" for a
      using d(1,3) False Cons by (cases d) (auto simp: lex_frac_def)
    then show ?thesis using that d(1,2) by blast
  qed
qed

lemma lex_num_literal:
  assumes "lex_num s = Some (l, t)"
  shows "lex_num l = Some (l, [])"
proof -
  define sg where "sg = (if s \<noteq> [] \<and> hd s = CHR ''-'' then ''-'' else [])"
  obtain c u where cu: "drop (length sg) s = c # u"
    using assms by (cases "drop (length sg) s") (simp_all add: lex_num_def Let_def sg_def[symmetric])
  show ?thesis
  proof (cases "c = CHR ''0''")
    case True
    then have "lex_frac (sg @ [c]) u = Some (l, t)"
      using assms cu by (simp add: lex_num_def Let_def sg_def[symmetric])
    then obtain d where "l = sg @ c # d" "\<And>a. lex_frac a d = Some (a @ d, [])"
      by (elim lex_frac_split) simp
    then show ?thesis using True by (auto simp: lex_num_def Let_def sg_def)
  next
    case False
    then have dg: "is_digit c"
      and "lex_frac (sg @ takeWhile is_digit (c # u)) (dropWhile is_digit (c # u)) = Some (l, t)"
      using assms cu by (auto simp: lex_num_def Let_def sg_def[symmetric] split: if_splits)
    then obtain d where d: "dropWhile is_digit u = d @ t" "l = sg @ c # takeWhile is_digit u @ d"
        "\<And>a. lex_frac a d = Some (a @ d, [])"
      by (elim lex_frac_split) simp
    have "c \<noteq> CHR ''-''" using dg by (auto simp: is_digit_def)
    then show ?thesis
      using False dg d(2,3) by (auto simp: lex_num_def Let_def sg_def digits_split[OF d(1)])
  qed
qed

subsection \<open>Tokens and trees\<close>

fun tok_ok :: "token \<Rightarrow> bool" where
  "tok_ok (TStr s) = valid_utf8 s"
| "tok_ok (TNum l) = (lex_num l = Some (l, []))"
| "tok_ok _ = True"

lemma tok_cons_ok: "tok_cons t r = Some ts \<Longrightarrow> (\<exists>us. r = Some us \<and> ts = t # us)"
  by (auto simp: tok_cons_def)

text \<open>One round of the lexer: at most one token, and the rest of the input.\<close>

definition lex_round :: "string \<Rightarrow> token list \<Rightarrow> bool" where
  "lex_round s ts \<longleftrightarrow> (\<exists>u r us. list_all tok_ok u \<and> length r < length s \<and> json_lex r = Some us \<and> ts = u @ us)"

lemma lex_round_tok:
  "tok_cons t (json_lex r) = Some ts \<Longrightarrow> tok_ok t \<Longrightarrow> length r < length s \<Longrightarrow> lex_round s ts"
  unfolding lex_round_def by (rule exI[of _ "[t]"]) (auto simp: tok_cons_def)

lemma lex_round_space: "json_lex r = Some ts \<Longrightarrow> length r < length s \<Longrightarrow> lex_round s ts"
  unfolding lex_round_def by (rule exI[of _ "[]"]) auto

lemma lex_round_str:
  assumes "(case lex_raw cs of None \<Rightarrow> None | Some (w, t) \<Rightarrow> tok_cons (TStr (unquote w)) (json_lex t)) = Some ts"
  shows "lex_round (c # cs) ts"
proof -
  obtain w t where "lex_raw cs = Some (w, t)" "tok_cons (TStr (unquote w)) (json_lex t) = Some ts"
    using assms by (auto split: option.splits)
  then show ?thesis using lex_raw_utf8 lex_raw_shorter by (intro lex_round_tok) fastforce+
qed

lemma lex_round_num:
  assumes "(case lex_num s of None \<Rightarrow> None | Some (l, t) \<Rightarrow> tok_cons (TNum l) (json_lex t)) = Some ts"
  shows "lex_round s ts"
proof -
  obtain l t where "lex_num s = Some (l, t)" "tok_cons (TNum l) (json_lex t) = Some ts"
    using assms by (auto split: option.splits)
  then show ?thesis using lex_num_literal lex_num_shorter by (intro lex_round_tok) fastforce+
qed

lemma json_lex_round:
  assumes "json_lex (c # cs) = Some ts"
  shows "lex_round (c # cs) ts"
proof -
  have tk: "lex_round (c # cs) ts" if "tok_cons t (json_lex (drop n cs)) = Some ts" "tok_ok t" for t n
    by (rule lex_round_tok[OF that]) simp
  note tk0 = tk[where n = 0, unfolded drop_0]
  note kw = tk[where n = 3] tk[where n = 4]
  show ?thesis
    using assms[unfolded json_lex.simps[of "c # cs"] list.case]
    by (simp only: lex_round_space[of cs] tk0 kw lex_round_str lex_round_num tok_ok.simps
        lessI list.size(4) split: if_splits) (erule lex_round_tok; simp)+
qed

lemma json_lex_ok: "json_lex s = Some ts \<Longrightarrow> list_all tok_ok ts"
proof (induction s arbitrary: ts rule: length_induct)
  case (1 s)
  show ?case
  proof (cases s)
    case Nil
    then show ?thesis using "1.prems" by (subst (asm) json_lex.simps) simp
  next
    case (Cons c cs)
    then obtain u r us where "list_all tok_ok u" "length r < length s" "json_lex r = Some us" "ts = u @ us"
      using "1.prems" json_lex_round[of c cs ts] by (auto simp: lex_round_def)
    then show ?thesis using "1.IH" by auto
  qed
qed

text \<open>
  The machine keeps this invariant: every value it holds is well formed and leaves room for the frames
  around it, and there are never more open frames than the limit.
\<close>

definition fits :: "nat \<Rightarrow> json \<Rightarrow> bool" where
  "fits n v \<longleftrightarrow> wf_json v \<and> depth v + n \<le> max_depth"

fun frame_ok :: "nat \<Rightarrow> frame \<Rightarrow> bool" where
  "frame_ok n (FArr vs) = (\<forall>v \<in> set vs. fits n v)"
| "frame_ok n (FObj m k) = (valid_utf8 k \<and> (\<forall>x \<in> set m. valid_utf8 (fst x) \<and> fits n (snd x)))"

fun frames_ok :: "frame list \<Rightarrow> bool" where
  "frames_ok [] = True"
| "frames_ok (f # fr) = (length fr < max_depth \<and> frame_ok (Suc (length fr)) f \<and> frames_ok fr)"

fun state_ok :: "pstate \<Rightarrow> bool" where
  "state_ok (PVal fr) = frames_ok fr"
| "state_ok (PArr0 fr) = (length fr < max_depth \<and> frames_ok fr)"
| "state_ok (PObj0 fr) = (length fr < max_depth \<and> frames_ok fr)"
| "state_ok (PKey m fr) = frames_ok (FObj m [] # fr)"
| "state_ok (PColon m k fr) = frames_ok (FObj m k # fr)"
| "state_ok (PAfter v fr) = (fits (length fr) v \<and> frames_ok fr)"

lemma foldr_max_less: "0 < n \<Longrightarrow> \<forall>x \<in> set xs. x < n \<Longrightarrow> foldr max xs (0::nat) < n"
  by (induction xs) auto

lemma fits_arr:
  assumes "n < max_depth" "\<forall>v \<in> set vs. fits (Suc n) v"
  shows "fits n (JArr vs)"
proof -
  have "foldr max (map depth vs) 0 < max_depth - n"
    using assms by (intro foldr_max_less) (auto simp: fits_def)
  then show ?thesis using assms by (auto simp: fits_def)
qed

lemma fits_obj:
  assumes "n < max_depth" "\<forall>x \<in> set ms. valid_utf8 (fst x) \<and> fits (Suc n) (snd x)"
  shows "fits n (JObj ms)"
proof -
  have "foldr max (map (\<lambda>(k, v). depth v) ms) 0 < max_depth - n"
    using assms by (intro foldr_max_less) (force simp: fits_def)+
  then show ?thesis using assms by (auto simp: fits_def)
qed

lemma fits_leaf [simp]:
  "n \<le> max_depth \<Longrightarrow> fits n JNull" "n \<le> max_depth \<Longrightarrow> fits n (JBool b)"
  "n \<le> max_depth \<Longrightarrow> fits n (JNum l) = (lex_num l = Some (l, []))"
  "n \<le> max_depth \<Longrightarrow> fits n (JStr s) = valid_utf8 s"
  by (auto simp: fits_def)

lemma frames_length: "frames_ok fr \<Longrightarrow> length fr \<le> max_depth"
  by (cases fr) auto

lemma start_value_ok: "start_value fr t = Some st \<Longrightarrow> frames_ok fr \<Longrightarrow> tok_ok t \<Longrightarrow> state_ok st"
  by (cases t) (auto simp: frames_length split: if_splits)

lemma pstep_ok: "pstep st t = Some st' \<Longrightarrow> state_ok st \<Longrightarrow> tok_ok t \<Longrightarrow> state_ok st'"
  by (induction st t rule: pstep.induct)
    (auto split: if_splits intro!: fits_arr fits_obj elim!: start_value_ok, fastforce+)

lemma run_parser_ok: "run_parser st ts = Some st' \<Longrightarrow> state_ok st \<Longrightarrow> list_all tok_ok ts \<Longrightarrow> state_ok st'"
  by (induction ts arbitrary: st) (auto split: option.splits dest: pstep_ok)

lemma json_parse_wf:
  assumes "json_parse s = Some j"
  shows "wf_json j" "depth j \<le> max_depth"
proof -
  obtain ts where ts: "json_lex s = Some ts" "run_parser (PVal []) ts = Some (PAfter j [])"
    using assms by (auto simp: json_parse_def split: option.splits pstate.splits list.splits)
  have "state_ok (PAfter j [])" by (rule run_parser_ok[OF ts(2) _ json_lex_ok[OF ts(1)]]) simp
  then show "wf_json j" "depth j \<le> max_depth" by (simp_all add: fits_def)
qed

subsection \<open>What the decoders keep\<close>

text \<open>
  A decoder keeps a predicate when it holds of the result for every well-formed value and every old
  content of the target that satisfies it.
\<close>

definition keeps :: "('a \<Rightarrow> bool) \<Rightarrow> 'a decoder \<Rightarrow> bool" where
  "keeps P d \<longleftrightarrow> (\<forall>j old v. wf_json j \<longrightarrow> P old \<longrightarrow> d j old = Some v \<longrightarrow> P v)"

named_theorems keeps_intros

lemma keepsD: "keeps P d \<Longrightarrow> d j old = Some v \<Longrightarrow> wf_json j \<Longrightarrow> P old \<Longrightarrow> P v"
  by (auto simp: keeps_def)

lemma keeps_string [keeps_intros]: "keeps valid_utf8 dec_string"
  by (auto simp: keeps_def dec_string_def split: json.splits)

lemma keeps_raw: "keeps wf_json dec_raw"
  by (simp add: keeps_def dec_raw_def)

lemma keeps_any [keeps_intros]: "keeps (\<lambda>_. True) d"
  by (simp add: keeps_def)

lemma keeps_elems:
  "keeps P d \<Longrightarrow> P zero \<Longrightarrow> dec_elems zero d js old = Some vs \<Longrightarrow> \<forall>j \<in> set js. wf_json j \<Longrightarrow>
    \<forall>x \<in> set old. P x \<Longrightarrow> \<forall>v \<in> set vs. P v"
proof (induction js arbitrary: old vs)
  case (Cons j js)
  from Cons.prems(3) obtain v ws where v: "d j (if old = [] then zero else hd old) = Some v"
      "dec_elems zero d js (tl old) = Some ws" "vs = v # ws"
    by (auto split: option.splits)
  have "P (if old = [] then zero else hd old)" using Cons.prems by auto
  then have "P v" using keepsD[OF Cons.prems(1) v(1)] Cons.prems(4) by auto
  moreover have "\<forall>x \<in> set (tl old). P x" using Cons.prems(5) by (cases old) auto
  ultimately show ?case using Cons.IH[OF Cons.prems(1,2) v(2)] Cons.prems(4) v(3) by simp
qed simp

lemma keeps_slice [keeps_intros]:
  "keeps P d \<Longrightarrow> P zero \<Longrightarrow> keeps (\<lambda>s. \<forall>x \<in> set (elems s). P x) (dec_slice zero d)"
  by (auto simp: keeps_def[of _ "dec_slice zero d"] dec_slice_def split: json.splits dest: keeps_elems)

lemma keeps_members:
  "list_all (\<lambda>x. keeps P (snd x)) fs \<Longrightarrow> dec_members fs ms s = Some s' \<Longrightarrow>
    \<forall>(k, j) \<in> set ms. wf_json j \<Longrightarrow> P s \<Longrightarrow> P s'"
proof (induction fs ms s rule: dec_members.induct)
  case (2 fs k j ms s)
  show ?case
  proof (cases "find_field fs k")
    case None
    then show ?thesis using 2 by auto
  next
    case (Some d)
    then obtain s1 where s1: "d j s = Some s1" "dec_members fs ms s1 = Some s'"
      using "2.prems" by (auto split: option.splits)
    have "\<exists>n. (n, d) \<in> set fs"
      using Some by (auto simp: find_field_def split: option.splits dest!: map_of_SomeD)
    then have "keeps P d" using "2.prems"(1) by (auto simp: list_all_iff)
    then have "P s1" using keepsD[of P d j s s1] s1(1) "2.prems" by auto
    then show ?thesis using "2.IH"(2)[OF Some s1(1)] "2.prems" s1(2) by auto
  qed
qed simp

lemma keeps_struct [keeps_intros]: "list_all (\<lambda>x. keeps P (snd x)) fs \<Longrightarrow> keeps P (dec_struct fs)"
  unfolding keeps_def[of _ "dec_struct fs"]
proof (intro allI impI)
  fix j old v
  assume k: "list_all (\<lambda>x. keeps P (snd x)) fs" and j: "wf_json j" "P old" "dec_struct fs j old = Some v"
  have m: "\<And>ms. dec_members fs ms old = Some v \<Longrightarrow> \<forall>(k, j) \<in> set ms. wf_json j \<Longrightarrow> P v"
    using keeps_members[OF k] j(2) by blast
  show "P v" using j m by (auto simp: dec_struct_def split: json.splits)
qed

lemma keeps_field:
  assumes "keeps Q d" "\<And>s. P s \<Longrightarrow> Q (get s)" "\<And>s v. P s \<Longrightarrow> Q v \<Longrightarrow> P (upd (\<lambda>_. v) s)"
  shows "keeps P (snd (field n d get upd))"
proof -
  have "P (upd (\<lambda>_. v) s)" if "wf_json j" "P s" "d j (get s) = Some v" for j s v
    by (rule assms(3)[OF that(2) keepsD[OF assms(1) that(3,1) assms(2)[OF that(2)]]])
  then show ?thesis by (auto simp: field_def keeps_def)
qed

lemma unmarshal_keeps:
  "keeps P d \<Longrightarrow> P zero \<Longrightarrow> unmarshal d zero s = Inr v \<Longrightarrow> P v"
  by (auto simp: unmarshal_def split: option.splits dest: json_parse_wf keepsD)

lemma first_value_parses: "first_value s = Some j \<Longrightarrow> \<exists>u. json_parse u = Some j"
proof -
  assume "first_value s = Some j"
  then have "Some j \<in> set (filter (\<lambda>v. v \<noteq> None) (map (\<lambda>n. json_parse (take n s)) [0..<Suc (length s)]))"
    unfolding first_value_def by (cases "filter (\<lambda>v. v \<noteq> None) (map (\<lambda>n. json_parse (take n s)) [0..<Suc (length s)])") simp_all
  then have "Some j \<in> set (map (\<lambda>n. json_parse (take n s)) [0..<Suc (length s)])" unfolding set_filter by blast
  then show ?thesis unfolding set_map by (metis imageE)
qed

lemma decode_stream_keeps:
  "keeps P d \<Longrightarrow> P zero \<Longrightarrow> decode_stream d zero s = Inr v \<Longrightarrow> P v"
  by (auto simp: decode_stream_def split: option.splits dest!: first_value_parses dest: json_parse_wf keepsD)

end
