(* ===== verification/Iam.thy ===== *)
theory Iam
  imports JsonWf Executor S3Types NamedStore
begin

section \<open>The IAM identities of SeaweedFS (internal/modules/s3/manager.go)\<close>

text \<open>
  \<^verbatim>\<open>EnsureAdmin\<close>, \<^verbatim>\<open>ListIAM\<close>, \<^verbatim>\<open>CreateIAMUser\<close> and \<^verbatim>\<open>DeleteIAMUser\<close> read the identities file, change the
  decoded struct and write it back through \<^verbatim>\<open>atomicWrite\<close>. The structs keep the difference between a
  nil and an empty slice, because it shows in the JSON text. The lemmas give the round trip of the
  file through its JSON text, so that every operation is a function on the identity list.
\<close>

record iam_credential =
  ic_access_key :: string
  ic_secret_key :: string

record iam_identity =
  id_name :: string
  id_credentials :: "iam_credential slice"
  id_actions :: "string slice"

record iam_file =
  if_identities :: "iam_identity slice"

definition empty_iam :: iam_file where
  "empty_iam = \<lparr>if_identities = None\<rparr>"

subsection \<open>The JSON form\<close>

definition enc_credential :: "iam_credential \<Rightarrow> json" where
  "enc_credential c = JObj [(''accessKey'', JStr (ic_access_key c)), (''secretKey'', JStr (ic_secret_key c))]"

definition enc_identity :: "iam_identity \<Rightarrow> json" where
  "enc_identity i = JObj [(''name'', JStr (id_name i)),
     (''credentials'', enc_slice enc_credential (id_credentials i)),
     (''actions'', enc_slice JStr (id_actions i))]"

definition enc_iam :: "iam_file \<Rightarrow> json" where
  "enc_iam f = JObj [(''identities'', enc_slice enc_identity (if_identities f))]"

definition zero_credential :: iam_credential where
  "zero_credential = \<lparr>ic_access_key = [], ic_secret_key = []\<rparr>"

definition dec_credential :: "iam_credential decoder" where
  "dec_credential = dec_struct
     [field ''accessKey'' dec_string ic_access_key ic_access_key_update,
      field ''secretKey'' dec_string ic_secret_key ic_secret_key_update]"

definition zero_identity :: iam_identity where
  "zero_identity = \<lparr>id_name = [], id_credentials = None, id_actions = None\<rparr>"

definition dec_identity :: "iam_identity decoder" where
  "dec_identity = dec_struct
     [field ''name'' dec_string id_name id_name_update,
      field ''credentials'' (dec_slice zero_credential dec_credential) id_credentials id_credentials_update,
      field ''actions'' (dec_slice [] dec_string) id_actions id_actions_update]"

definition dec_iam :: "iam_file decoder" where
  "dec_iam = dec_struct
     [field ''identities'' (dec_slice zero_identity dec_identity) if_identities if_identities_update]"

subsection \<open>Reading and writing the file\<close>

definition readIAM :: "'x os \<Rightarrow> s3_config \<Rightarrow> 'x world \<Rightarrow> iam_file res" where
  "readIAM os cfg w =
     (case read_file os (IAMFile cfg) w of
        RdNotExist \<Rightarrow> Inr empty_iam
      | RdError e \<Rightarrow> Inl (Wrap (''reading '' @ IAMFile cfg) (OsErr e))
      | RdData d \<Rightarrow>
          (case unmarshal dec_iam empty_iam d of
             Inl e \<Rightarrow> Inl (Wrap (''parsing '' @ IAMFile cfg) e)
           | Inr f \<Rightarrow> Inr f))"

definition writeIAM :: "'x os \<Rightarrow> s3_config \<Rightarrow> iam_file \<Rightarrow> 'x world \<Rightarrow> unit res \<times> 'x world" where
  "writeIAM os cfg f w = atomic_write os (IAMFile cfg) (json_indent (enc_iam f)) 0x1A0 w"

definition reloadWeedS3 :: "executor \<Rightarrow> 'x os \<Rightarrow> s3_config \<Rightarrow> 'x world \<Rightarrow> unit res \<times> 'x world" where
  "reloadWeedS3 e os cfg w =
     (let ((_, _, err), w') = Execute e os ''systemctl'' [''restart'', WeedS3Service cfg] w in
      (case err of None \<Rightarrow> Inr () | Some x \<Rightarrow> Inl (Wrap (''restarting '' @ WeedS3Service cfg) x), w'))"

text \<open>The tail every changing operation shares: write the file, then restart the service.\<close>

definition write_reload :: "executor \<Rightarrow> 'x os \<Rightarrow> s3_config \<Rightarrow> iam_file \<Rightarrow> 'x world \<Rightarrow> unit res \<times> 'x world" where
  "write_reload e os cfg f w =
     (case writeIAM os cfg f w of
        (Inl x, w') \<Rightarrow> (Inl x, w')
      | (Inr _, w') \<Rightarrow> reloadWeedS3 e os cfg w')"

subsection \<open>The operations\<close>

definition has_access_key :: "string \<Rightarrow> iam_identity \<Rightarrow> bool" where
  "has_access_key k i \<longleftrightarrow> (\<exists>c \<in> set (elems (id_credentials i)). ic_access_key c = k)"

definition admin_identity :: "s3_config \<Rightarrow> iam_identity" where
  "admin_identity cfg = \<lparr>id_name = ''plusclouds-s3-admin'',
     id_credentials = Some [\<lparr>ic_access_key = AdminAccessKey cfg, ic_secret_key = AdminSecretKey cfg\<rparr>],
     id_actions = Some [''Admin'']\<rparr>"

definition EnsureAdmin :: "executor \<Rightarrow> 'x os \<Rightarrow> s3_config \<Rightarrow> 'x world \<Rightarrow> unit res \<times> 'x world" where
  "EnsureAdmin e os cfg w =
     (if AdminAccessKey cfg = [] then (Inr (), w)
      else
        (case readIAM os cfg w of
           Inl x \<Rightarrow> (Inl (Wrap ''reading IAM for admin check'' x), w)
         | Inr iam \<Rightarrow>
             if (\<exists>i \<in> set (elems (if_identities iam)). has_access_key (AdminAccessKey cfg) i) then (Inr (), w)
             else write_reload e os cfg
                    (iam\<lparr>if_identities := slice_append (if_identities iam) [admin_identity cfg]\<rparr>) w))"

definition isSystemAdmin :: "s3_config \<Rightarrow> string \<Rightarrow> bool" where
  "isSystemAdmin cfg k \<longleftrightarrow> AdminAccessKey cfg \<noteq> [] \<and> k = AdminAccessKey cfg"

definition first_access_key :: "iam_identity \<Rightarrow> string" where
  "first_access_key i = (case elems (id_credentials i) of [] \<Rightarrow> [] | c # _ \<Rightarrow> ic_access_key c)"

definition listed_user :: "iam_identity \<Rightarrow> iam_user" where
  "listed_user i = \<lparr>iu_user_id = [], iu_name = id_name i, iu_owner_tenant_id = [],
     iu_access_key = first_access_key i, iu_secret_key = [], iu_bucket_acls = []\<rparr>"

definition ListIAM :: "'x os \<Rightarrow> s3_config \<Rightarrow> 'x world \<Rightarrow> iam_user list res" where
  "ListIAM os cfg w =
     (case readIAM os cfg w of
        Inl e \<Rightarrow> Inl e
      | Inr iam \<Rightarrow>
          Inr (map listed_user
                (filter (\<lambda>i. \<not> isSystemAdmin cfg (first_access_key i)) (elems (if_identities iam)))))"

definition acl_actions :: "bucket_acl \<Rightarrow> string list" where
  "acl_actions acl =
     (let prefix = acl_bucket_id acl @ ''-*'' in
      if acl_permission acl = ''r'' then [''Read:'' @ prefix, ''List:'' @ prefix]
      else if acl_permission acl = ''rw'' then
        [''Read:'' @ prefix, ''Write:'' @ prefix, ''List:'' @ prefix, ''Tagging:'' @ prefix]
      else
        [''Read:'' @ prefix, ''Write:'' @ prefix, ''List:'' @ prefix, ''Tagging:'' @ prefix,
         ''Admin:'' @ prefix])"

definition buildActions :: "iam_user \<Rightarrow> string list" where
  "buildActions u =
     (if iu_bucket_acls u = [] then [''Read'', ''Write'', ''List'', ''Tagging'', ''Admin'']
      else concat (map acl_actions (iu_bucket_acls u)))"

definition new_identity :: "iam_user \<Rightarrow> string \<Rightarrow> iam_identity" where
  "new_identity u secret = \<lparr>id_name = iu_name u,
     id_credentials = Some [\<lparr>ic_access_key = iu_access_key u, ic_secret_key = secret\<rparr>],
     id_actions = Some (buildActions u)\<rparr>"

definition CreateIAMUser ::
  "executor \<Rightarrow> 'x os \<Rightarrow> s3_config \<Rightarrow> iam_user \<Rightarrow> string \<Rightarrow> 'x world \<Rightarrow> unit res \<times> 'x world" where
  "CreateIAMUser e os cfg u secret w =
     (case readIAM os cfg w of
        Inl x \<Rightarrow> (Inl x, w)
      | Inr iam \<Rightarrow>
          write_reload e os cfg
            (iam\<lparr>if_identities := slice_append (if_identities iam) [new_identity u secret]\<rparr>) w)"

text \<open>
  The loop of \<^verbatim>\<open>DeleteIAMUser\<close>, on the backing array that the slices \<^verbatim>\<open>iam.Identities\<close> and \<^verbatim>\<open>filtered\<close>
  share: it reads element \<open>i\<close> and writes the ones it keeps to position \<open>k\<close>. Arguments: the number of
  elements still to visit, \<open>i\<close>, \<open>k\<close>, \<open>found\<close> and the array.
\<close>

fun filter_loop :: "string \<Rightarrow> nat \<Rightarrow> nat \<Rightarrow> nat \<Rightarrow> bool \<Rightarrow> iam_identity list \<Rightarrow> iam_identity list \<times> nat \<times> bool" where
  "filter_loop name 0 i k found arr = (arr, k, found)"
| "filter_loop name (Suc n) i k found arr =
     (let id = arr ! i in
      if id_name id = name then filter_loop name n (Suc i) k True arr
      else filter_loop name n (Suc i) (Suc k) found (arr[k := id]))"

definition DeleteIAMUser :: "executor \<Rightarrow> 'x os \<Rightarrow> s3_config \<Rightarrow> string \<Rightarrow> 'x world \<Rightarrow> unit res \<times> 'x world" where
  "DeleteIAMUser e os cfg name w =
     (case readIAM os cfg w of
        Inl x \<Rightarrow> (Inl x, w)
      | Inr iam \<Rightarrow>
          let ids = elems (if_identities iam);
              (arr, k, found) = filter_loop name (length ids) 0 0 False ids
          in if \<not> found then (Inl (MsgQ ''IAM user '' name '' not found''), w)
             else write_reload e os cfg (iam\<lparr>if_identities := Some (take k arr)\<rparr>) w)"

subsection \<open>The file determines the identities\<close>

definition ok_credential :: "iam_credential \<Rightarrow> bool" where
  "ok_credential c \<longleftrightarrow> valid_utf8 (ic_access_key c) \<and> valid_utf8 (ic_secret_key c)"

definition ok_identity :: "iam_identity \<Rightarrow> bool" where
  "ok_identity i \<longleftrightarrow> valid_utf8 (id_name i) \<and> (\<forall>c \<in> set (elems (id_credentials i)). ok_credential c)
     \<and> (\<forall>a \<in> set (elems (id_actions i)). valid_utf8 a)"

definition ok_iam :: "iam_file \<Rightarrow> bool" where
  "ok_iam f \<longleftrightarrow> (\<forall>i \<in> set (elems (if_identities f)). ok_identity i)"

lemma dec_credential_enc: "dec_credential (enc_credential c) z = Some c"
  by (simp add: dec_credential_def enc_credential_def find_field_def field_def)

lemma dec_identity_enc: "dec_identity (enc_identity i) zero_identity = Some i"
  by (simp add: dec_identity_def enc_identity_def find_field_def field_def zero_identity_def
      dec_slice_enc dec_credential_enc)

lemma dec_iam_enc: "dec_iam (enc_iam f) empty_iam = Some f"
  by (simp add: dec_iam_def enc_iam_def find_field_def field_def empty_iam_def
      dec_slice_enc dec_identity_enc)

lemma wf_enc_slice: "(\<forall>x \<in> set (elems s). wf_json (f x)) \<Longrightarrow> wf_json (enc_slice f s)"
  by (cases s) (simp_all add: enc_slice_def)

lemma wf_enc_iam: "ok_iam f \<Longrightarrow> wf_json (enc_iam f)"
proof -
  have c: "ok_credential c \<Longrightarrow> wf_json (enc_credential c)" for c
    by (simp add: ok_credential_def enc_credential_def valid_utf8_ascii)
  have i: "ok_identity i \<Longrightarrow> wf_json (enc_identity i)" for i
    by (simp add: ok_identity_def enc_identity_def valid_utf8_ascii wf_enc_slice c)
  show "ok_iam f \<Longrightarrow> wf_json (enc_iam f)"
    by (simp add: ok_iam_def enc_iam_def valid_utf8_ascii wf_enc_slice i)
qed

lemma foldr_max_le: "\<forall>x \<in> set xs. x \<le> n \<Longrightarrow> foldr max xs (0::nat) \<le> n"
  by (induction xs) auto

lemma depth_enc_slice: "\<forall>x \<in> set (elems s). depth (f x) \<le> n \<Longrightarrow> depth (enc_slice f s) \<le> Suc n"
  by (cases s) (auto simp: enc_slice_def intro!: foldr_max_le)

lemma depth_enc_iam: "depth (enc_iam f) \<le> max_depth"
proof -
  have c: "depth (enc_credential c) \<le> 1" for c by (simp add: enc_credential_def)
  have i: "depth (enc_identity i) \<le> 3" for i
    using depth_enc_slice[of "id_credentials i" enc_credential 1] depth_enc_slice[of "id_actions i" JStr 0] c
    by (simp add: enc_identity_def)
  show ?thesis
    using depth_enc_slice[of "if_identities f" enc_identity 3] i by (simp add: enc_iam_def max_depth_def)
qed

lemma unmarshal_iam: "ok_iam f \<Longrightarrow> unmarshal dec_iam empty_iam (json_indent (enc_iam f)) = Inr f"
  by (intro unmarshal_indent wf_enc_iam depth_enc_iam dec_iam_enc)

text \<open>Whatever bytes the file has: when they parse, the struct can be written and read back.\<close>

lemma keeps_dec_iam: "keeps ok_iam dec_iam"
proof -
  note str = keeps_field[OF keeps_string]
  have c: "keeps ok_credential dec_credential"
    unfolding dec_credential_def
    by (rule keeps_struct, simp, intro conjI str) (simp_all add: ok_credential_def)
  have z: "ok_credential zero_credential" "ok_identity zero_identity"
    by (simp_all add: ok_credential_def zero_credential_def ok_identity_def zero_identity_def)
  have i: "keeps ok_identity dec_identity"
    unfolding dec_identity_def
    by (rule keeps_struct, simp, intro conjI str keeps_field[OF keeps_slice[OF c z(1)]]
          keeps_field[OF keeps_slice[OF keeps_string valid_utf8_Nil]])
       (simp_all add: ok_identity_def)
  show ?thesis
    unfolding dec_iam_def
    by (rule keeps_struct, simp, intro keeps_field[OF keeps_slice[OF i z(2)]]) (simp_all add: ok_iam_def)
qed

lemma unmarshal_iam_ok: "unmarshal dec_iam empty_iam d = Inr f \<Longrightarrow> ok_iam f"
  by (erule unmarshal_keeps[OF keeps_dec_iam, rotated]) (simp add: ok_iam_def empty_iam_def)

lemma readIAM_ok_iam: "readIAM os cfg w = Inr f \<Longrightarrow> ok_iam f"
proof -
  have "ok_iam empty_iam" by (simp add: ok_iam_def empty_iam_def)
  then show "readIAM os cfg w = Inr f \<Longrightarrow> ok_iam f"
    by (auto simp: readIAM_def split: read_result.splits sum.splits intro: unmarshal_iam_ok)
qed

definition iam_state :: "s3_config \<Rightarrow> iam_file \<Rightarrow> 'x world \<Rightarrow> bool" where
  "iam_state cfg f w \<longleftrightarrow> ok_iam f \<and>
     (case fs w (IAMFile cfg) of
        None \<Rightarrow> f = empty_iam
      | Some n \<Rightarrow> unmarshal dec_iam empty_iam (f_data n) = Inr f)"

lemma iam_state_cong: "fs w' (IAMFile cfg) = fs w (IAMFile cfg) \<Longrightarrow> iam_state cfg f w' = iam_state cfg f w"
  by (simp add: iam_state_def)

lemma readIAM_state: "iam_state cfg f w \<Longrightarrow> readIAM os cfg w = Inr g \<Longrightarrow> g = f"
  by (auto simp: iam_state_def readIAM_def read_file_def split: option.splits sum.splits)

lemma readIAM_Inr: "readIAM os cfg w = Inr f \<Longrightarrow> iam_state cfg f w"
  by (frule readIAM_ok_iam) (auto simp: iam_state_def readIAM_def read_file_def split: option.splits sum.splits)

lemma readIAM_ok:
  "iam_state cfg f w \<Longrightarrow> os_fail os (OpRead (IAMFile cfg)) (ext w) = None \<Longrightarrow> readIAM os cfg w = Inr f"
  by (auto simp: iam_state_def readIAM_def read_file_def split: option.splits sum.splits)

lemma writeIAM_state:
  assumes "temp_name os (IAMFile cfg) w \<noteq> IAMFile cfg" "iam_state cfg f w" "ok_iam f'"
    and "writeIAM os cfg f' w = (r, w')"
  shows "iam_state cfg (if is_ok r then f' else f) w'"
proof (cases r)
  case (Inl e)
  then have "fs w' (IAMFile cfg) = fs w (IAMFile cfg)"
    using atomic_write_err[OF assms(1)] assms(1,4) by (auto simp: writeIAM_def)
  then show ?thesis using Inl assms(2) by (simp add: iam_state_def)
next
  case (Inr u)
  then obtain n where "fs w' (IAMFile cfg) = Some n" "f_data n = json_indent (enc_iam f')"
    using atomic_write_data[OF assms(1), of "json_indent (enc_iam f')" "0x1A0" u w' w'] assms(4)
    by (auto simp: writeIAM_def)
  then show ?thesis using Inr assms(3) by (simp add: iam_state_def unmarshal_iam)
qed

lemma reloadWeedS3_fs [frame_simps]: "fs (snd (reloadWeedS3 e os cfg w)) = fs w"
  by (auto simp: reloadWeedS3_def Execute_def split: prod.splits)

lemma write_reload_state:
  assumes "temp_name os (IAMFile cfg) w \<noteq> IAMFile cfg" "iam_state cfg f w" "ok_iam f'"
    and "write_reload e os cfg f' w = (r, w')"
  shows "(iam_state cfg f w' \<and> \<not> is_ok r \<or> iam_state cfg f' w') \<and>
    (\<forall>q. q \<noteq> IAMFile cfg \<longrightarrow> q \<noteq> temp_name os (IAMFile cfg) w \<longrightarrow> fs w' q = fs w q)"
proof -
  obtain r1 w1 where wr: "writeIAM os cfg f' w = (r1, w1)" by fastforce
  have st: "iam_state cfg (if is_ok r1 then f' else f) w1"
    by (rule writeIAM_state[OF assms(1-3) wr])
  have "fs w' = fs w1" "is_ok r \<Longrightarrow> is_ok r1"
    using assms(4) wr reloadWeedS3_fs[of e os cfg w1]
    by (auto simp: write_reload_def split: sum.splits)
  moreover have "fs w1 q = fs w q" if "q \<noteq> IAMFile cfg" "q \<noteq> temp_name os (IAMFile cfg) w" for q
    using atomic_write_inv[OF assms(1), of _ "0x1A0" r1 w1] wr that by (simp add: aw_inv_def writeIAM_def)
  ultimately show ?thesis
    using st iam_state_cong[of w' cfg w1] by (cases "is_ok r1") auto
qed

subsection \<open>The identities as a store\<close>

definition add_identity :: "iam_identity \<Rightarrow> iam_identity list \<Rightarrow> iam_identity list" where
  "add_identity i ids = ids @ [i]"

definition del_identity :: "string \<Rightarrow> iam_identity list \<Rightarrow> iam_identity list" where
  "del_identity n ids = filter (\<lambda>i. id_name i \<noteq> n) ids"

interpretation iam: named_store "map id_name" "\<lambda>ids. \<forall>i \<in> set ids. ok_identity i" ok_identity id_name
  add_identity del_identity
  by unfold_locales (auto simp: add_identity_def del_identity_def)

text \<open>The in-place loop of the code computes the filter, though it overwrites what it iterates over.\<close>

lemma filter_loop_spec:
  assumes "n = length arr - i" "k \<le> i" "i \<le> length arr"
  shows "filter_loop name n i k found arr = (arr', k', found') \<Longrightarrow>
    length arr' = length arr \<and> k' \<le> length arr \<and>
    take k' arr' = take k arr @ del_identity name (drop i arr) \<and>
    found' = (found \<or> name \<in> id_name ` set (drop i arr))"
  using assms
proof (induction n arbitrary: i k found arr)
  case 0
  then show ?case by (simp add: del_identity_def)
next
  case (Suc n)
  then have i: "i < length arr" and n: "n = length arr - Suc i" by simp_all
  then have d: "drop i arr = arr ! i # drop (Suc i) arr" by (simp add: Cons_nth_drop_Suc)
  show ?case
  proof (cases "id_name (arr ! i) = name")
    case True
    then show ?thesis
      using Suc.IH[of "Suc i" k True arr] Suc.prems i n d
      by (simp add: del_identity_def)
  next
    case False
    let ?a = "arr[k := arr ! i]"
    have "take (Suc k) ?a = take k arr @ [arr ! i]" "drop (Suc i) ?a = drop (Suc i) arr"
      using Suc.prems(3) i by (simp_all add: take_Suc_conv_app_nth)
    then show ?thesis
      using False Suc.IH[of "Suc i" "Suc k" found ?a] Suc.prems i n d
      by (auto simp: del_identity_def)
  qed
qed

lemma filter_loop_all:
  "filter_loop name (length ids) 0 0 False ids = (arr, k, found) \<Longrightarrow>
    take k arr = del_identity name ids \<and> found = (name \<in> set (map id_name ids))"
  using filter_loop_spec[of "length ids" ids 0 0 name False arr k found] by auto

subsection \<open>Properties\<close>

text \<open>
  Reading the IAM file back after a successful write gives the struct that was written, nil and
  empty slices included.
\<close>

theorem readIAM_writeIAM:
  assumes "temp_fresh os (IAMFile cfg) w" "ok_iam f" "writeIAM os cfg f w = (Inr u, w')"
    and "os_fail os (OpRead (IAMFile cfg)) (ext w') = None"
  shows "readIAM os cfg w' = Inr f"
proof -
  obtain n where "fs w' (IAMFile cfg) = Some n" "f_data n = json_indent (enc_iam f)"
    using atomic_write_data[OF temp_fresh_apart[OF assms(1)], of "json_indent (enc_iam f)" "0x1A0" u w' w'] assms(3)
    by (auto simp: writeIAM_def)
  then have "iam_state cfg f w'" using assms(2) by (simp add: iam_state_def unmarshal_iam)
  then show ?thesis using readIAM_ok assms(4) by blast
qed

lemma CreateIAMUser_state:
  assumes "temp_name os (IAMFile cfg) w \<noteq> IAMFile cfg" "iam_state cfg f w" "ok_identity (new_identity u secret)"
    and "CreateIAMUser e os cfg u secret w = (r, w')"
  shows "(iam_state cfg f w' \<and> \<not> is_ok r
      \<or> iam_state cfg \<lparr>if_identities = Some (add_identity (new_identity u secret) (elems (if_identities f)))\<rparr> w') \<and>
    (\<forall>q. q \<noteq> IAMFile cfg \<longrightarrow> q \<noteq> temp_name os (IAMFile cfg) w \<longrightarrow> fs w' q = fs w q)"
proof (cases "readIAM os cfg w")
  case (Inl x)
  then show ?thesis using assms(2,4) by (auto simp: CreateIAMUser_def)
next
  case (Inr g)
  let ?f' = "f\<lparr>if_identities := slice_append (if_identities f) [new_identity u secret]\<rparr>"
  have eq: "?f' = \<lparr>if_identities = Some (add_identity (new_identity u secret) (elems (if_identities f)))\<rparr>"
    by (simp add: slice_append_def add_identity_def)
  have "g = f" using readIAM_state[OF assms(2)] Inr by blast
  then have "write_reload e os cfg ?f' w = (r, w')"
    using assms(4) Inr by (simp add: CreateIAMUser_def)
  moreover have "ok_iam ?f'" using assms(2,3) by (auto simp: ok_iam_def iam_state_def)
  ultimately show ?thesis using write_reload_state[OF assms(1,2)] unfolding eq by blast
qed

lemma DeleteIAMUser_state:
  assumes "temp_name os (IAMFile cfg) w \<noteq> IAMFile cfg" "iam_state cfg f w"
    and "DeleteIAMUser e os cfg name w = (r, w')"
  shows "if name \<in> set (map id_name (elems (if_identities f)))
    then iam_state cfg f w' \<and> \<not> is_ok r
         \<or> iam_state cfg \<lparr>if_identities = Some (del_identity name (elems (if_identities f)))\<rparr> w'
    else \<not> is_ok r \<and> w' = w"
proof (cases "readIAM os cfg w")
  case (Inl x)
  then show ?thesis using assms(2,3) by (auto simp: DeleteIAMUser_def)
next
  case (Inr g)
  let ?ids = "elems (if_identities f)"
  have g: "g = f" using readIAM_state[OF assms(2)] Inr by blast
  obtain arr k found where fl: "filter_loop name (length ?ids) 0 0 False ?ids = (arr, k, found)"
    by (metis prod_cases3)
  then have l: "take k arr = del_identity name ?ids" "found = (name \<in> set (map id_name ?ids))"
    using filter_loop_all by blast+
  let ?f' = "f\<lparr>if_identities := Some (take k arr)\<rparr>"
  have "ok_iam ?f'"
    using assms(2) l(1) by (auto simp: ok_iam_def iam_state_def del_identity_def)
  moreover have "?f' = \<lparr>if_identities = Some (del_identity name ?ids)\<rparr>" by (simp add: l(1))
  ultimately show ?thesis
    using write_reload_state[OF assms(1,2), of ?f' e r w'] assms(3) Inr g fl l(2)
    by (auto simp: DeleteIAMUser_def Let_def)
qed

text \<open>
  C19. CreateIAMUser implements adding to the identity list: the file keeps the old identities, with an
  error, or holds them followed by the new one; no other file changes.
\<close>

theorem CreateIAMUser_refines:
  assumes "temp_fresh os (IAMFile cfg) w" "iam_state cfg f w" "ok_identity (new_identity u secret)"
    and "CreateIAMUser e os cfg u secret w = (r, w')"
  shows "(iam_state cfg f w' \<and> \<not> is_ok r
      \<or> iam_state cfg \<lparr>if_identities = Some (add_identity (new_identity u secret) (elems (if_identities f)))\<rparr> w') \<and>
    (\<forall>q. q \<noteq> IAMFile cfg \<longrightarrow> q \<noteq> temp_name os (IAMFile cfg) w \<longrightarrow> fs w' q = fs w q)"
  by (rule CreateIAMUser_state[OF temp_fresh_apart[OF assms(1)] assms(2-4)])

text \<open>
  C20. DeleteIAMUser implements deletion from the identity list, and reports an unknown name without
  touching anything.
\<close>

theorem DeleteIAMUser_refines:
  assumes "temp_fresh os (IAMFile cfg) w" "iam_state cfg f w"
    and "DeleteIAMUser e os cfg name w = (r, w')"
  shows "if name \<in> set (map id_name (elems (if_identities f)))
    then iam_state cfg f w' \<and> \<not> is_ok r
         \<or> iam_state cfg \<lparr>if_identities = Some (del_identity name (elems (if_identities f)))\<rparr> w'
    else \<not> is_ok r \<and> w' = w"
  by (rule DeleteIAMUser_state[OF temp_fresh_apart[OF assms(1)] assms(2,3)])

lemma EnsureAdmin_state:
  assumes "temp_name os (IAMFile cfg) w \<noteq> IAMFile cfg" "iam_state cfg f w" "ok_identity (admin_identity cfg)"
    and "EnsureAdmin e os cfg w = (Inr u, w')" "AdminAccessKey cfg \<noteq> []"
  shows "(\<exists>i \<in> set (elems (if_identities f)). has_access_key (AdminAccessKey cfg) i) \<and> w' = w
    \<or> iam_state cfg \<lparr>if_identities = Some (add_identity (admin_identity cfg) (elems (if_identities f)))\<rparr> w'"
proof (cases "readIAM os cfg w")
  case (Inl x)
  then show ?thesis using assms(4,5) by (simp add: EnsureAdmin_def)
next
  case (Inr g)
  let ?f' = "f\<lparr>if_identities := slice_append (if_identities f) [admin_identity cfg]\<rparr>"
  have eq: "?f' = \<lparr>if_identities = Some (add_identity (admin_identity cfg) (elems (if_identities f)))\<rparr>"
    by (simp add: slice_append_def add_identity_def)
  have g: "g = f" using readIAM_state[OF assms(2)] Inr by blast
  show ?thesis
  proof (cases "\<exists>i \<in> set (elems (if_identities f)). has_access_key (AdminAccessKey cfg) i")
    case True
    then show ?thesis using assms(4,5) Inr g by (simp add: EnsureAdmin_def)
  next
    case False
    then have "write_reload e os cfg ?f' w = (Inr u, w')"
      using assms(4,5) Inr g by (simp add: EnsureAdmin_def)
    moreover have "ok_iam ?f'" using assms(2,3) by (auto simp: ok_iam_def iam_state_def)
    ultimately show ?thesis using write_reload_state[OF assms(1,2)] unfolding eq by fastforce
  qed
qed

text \<open>
  C25. After a successful EnsureAdmin the file has an identity with the configured admin access key and
  still every identity it had, and running EnsureAdmin again writes nothing.
\<close>

theorem EnsureAdmin_establishes:
  assumes "temp_fresh os (IAMFile cfg) w" "iam_state cfg f w" "ok_identity (admin_identity cfg)"
    and "AdminAccessKey cfg \<noteq> []" "EnsureAdmin e os cfg w = (Inr u, w')"
    and "os_fail os (OpRead (IAMFile cfg)) (ext w') = None"
  shows "\<exists>f'. iam_state cfg f' w' \<and> set (elems (if_identities f)) \<subseteq> set (elems (if_identities f'))
    \<and> (\<exists>i \<in> set (elems (if_identities f')). has_access_key (AdminAccessKey cfg) i)
    \<and> EnsureAdmin e os cfg w' = (Inr (), w')"
proof -
  obtain f' where f': "iam_state cfg f' w'" "set (elems (if_identities f)) \<subseteq> set (elems (if_identities f'))"
    "\<exists>i \<in> set (elems (if_identities f')). has_access_key (AdminAccessKey cfg) i"
    using EnsureAdmin_state[OF temp_fresh_apart[OF assms(1)] assms(2,3,5,4)] assms(2)
    by (fastforce simp: add_identity_def admin_identity_def has_access_key_def)
  moreover have "EnsureAdmin e os cfg w' = (Inr (), w')"
    using readIAM_ok[OF f'(1) assms(6)] f'(3) by (simp add: EnsureAdmin_def)
  ultimately show ?thesis by blast
qed

text \<open>
  C26. ListIAM never discloses a secret key and never lists the system admin; it lists the names of the
  other identities in file order.
\<close>

theorem ListIAM_hides:
  assumes "iam_state cfg f w" "ListIAM os cfg w = Inr us"
  shows "(\<forall>u \<in> set us. iu_secret_key u = [] \<and> \<not> isSystemAdmin cfg (iu_access_key u)) \<and>
    map iu_name us = map id_name (filter (\<lambda>i. \<not> isSystemAdmin cfg (first_access_key i)) (elems (if_identities f)))"
  using assms(2) readIAM_state[OF assms(1)]
  by (auto simp: ListIAM_def listed_user_def split: sum.splits)

lemma acl_actions_write:
  "''Write:'' @ b @ ''-*'' \<in> set (acl_actions acl) \<longleftrightarrow> acl_permission acl \<noteq> ''r'' \<and> acl_bucket_id acl = b"
  by (auto simp: acl_actions_def Let_def)

text \<open>
  C27. Least privilege: a user with an access list gets write actions exactly on the buckets that some
  entry grants more than "r" on, and no action that is not tied to a bucket.
\<close>

theorem buildActions_privileges:
  "(''Write:'' @ b @ ''-*'' \<in> set (buildActions u)
      \<longleftrightarrow> (\<exists>acl \<in> set (iu_bucket_acls u). acl_bucket_id acl = b \<and> acl_permission acl \<noteq> ''r'')) \<and>
   ((\<exists>a \<in> set (buildActions u). CHR '':'' \<notin> set a) \<longleftrightarrow> iu_bucket_acls u = [])"
proof (cases "iu_bucket_acls u = []")
  case True
  then show ?thesis by (simp add: buildActions_def)
next
  case False
  have "CHR '':'' \<in> set a" if "a \<in> set (acl_actions acl)" for a acl
    using that by (auto simp: acl_actions_def Let_def split: if_splits)
  then have "\<not> (\<exists>a \<in> set (buildActions u). CHR '':'' \<notin> set a)"
    using False by (auto simp: buildActions_def)
  moreover have "''Write:'' @ b @ ''-*'' \<in> set (buildActions u)
      \<longleftrightarrow> (\<exists>acl \<in> set (iu_bucket_acls u). ''Write:'' @ b @ ''-*'' \<in> set (acl_actions acl))"
    using False by (simp add: buildActions_def)
  ultimately show ?thesis using False by (auto simp only: acl_actions_write)
qed

text \<open>
  EnsureAdmin accepts the admin key in any credential of an identity, ListIAM looks at the first
  one only: an identity that carries the admin key as a later credential satisfies EnsureAdmin and is
  yet listed as a managed user, so a reconciliation that does not name it deletes it.
\<close>

theorem admin_key_in_later_credential:
  assumes "iam_state cfg f w" "os_fail os (OpRead (IAMFile cfg)) (ext w) = None"
    and "i \<in> set (elems (if_identities f))" "has_access_key (AdminAccessKey cfg) i"
    and "first_access_key i \<noteq> AdminAccessKey cfg"
  shows "EnsureAdmin e os cfg w = (Inr (), w) \<and>
    (\<exists>us. ListIAM os cfg w = Inr us \<and> id_name i \<in> iu_name ` set us)"
proof -
  have rd: "readIAM os cfg w = Inr f" by (rule readIAM_ok[OF assms(1,2)])
  have "EnsureAdmin e os cfg w = (Inr (), w)"
    using rd assms(3,4) by (auto simp: EnsureAdmin_def)
  moreover have "id_name i \<in> iu_name ` set (map listed_user
      (filter (\<lambda>i. \<not> isSystemAdmin cfg (first_access_key i)) (elems (if_identities f))))"
    using assms(3,5) by (force simp: listed_user_def isSystemAdmin_def image_iff)
  ultimately show ?thesis using rd by (simp add: ListIAM_def)
qed

subsection \<open>Examples\<close>

definition no_files :: "unit world" where
  "no_files = \<lparr>fs = (\<lambda>p. None), ext = ()\<rparr>"

definition sample_user :: iam_user where
  "sample_user = \<lparr>iu_user_id = ''u1'', iu_name = ''alice'', iu_owner_tenant_id = ''t1'',
     iu_access_key = ''AK1'', iu_secret_key = [],
     iu_bucket_acls = [\<lparr>acl_bucket_id = ''b1'', acl_permission = ''r''\<rparr>]\<rparr>"

definition sample_iam :: iam_file where
  "sample_iam = \<lparr>if_identities = Some [new_identity sample_user ''SK1'']\<rparr>"

definition written_iam :: "unit world" where
  "written_iam = snd (writeIAM calm_os sample_config sample_iam no_files)"

lemma sample_identity_ok: "ok_identity (new_identity sample_user ''SK1'')"
  "ok_identity (admin_identity sample_config)"
  by code_simp+

lemma no_files_state: "iam_state cfg empty_iam no_files"
  by (simp add: iam_state_def no_files_def ok_iam_def empty_iam_def)

lemma writeIAM_sample: "writeIAM calm_os sample_config sample_iam no_files = (Inr (), written_iam)"
  using atomic_write_succeeds[of calm_os no_files] by (simp add: writeIAM_def written_iam_def prod_eq_iff)

lemma sample_iam_fresh:
  "temp_fresh calm_os (IAMFile sample_config) no_files"
  "temp_fresh calm_os (IAMFile sample_config) written_iam"
proof -
  show "temp_fresh calm_os (IAMFile sample_config) no_files" by code_simp
  then show "temp_fresh calm_os (IAMFile sample_config) written_iam"
    using temp_fresh_after writeIAM_sample unfolding writeIAM_def by blast
qed

lemma calm_write_reload: "fst (write_reload e calm_os cfg f w) = Inr ()"
  using calm_write[of "IAMFile cfg" "json_indent (enc_iam f)" "0x1A0" w]
  by (auto simp: write_reload_def writeIAM_def reloadWeedS3_def Execute_def calm_os_def)

lemma written_iam_state: "iam_state sample_config sample_iam written_iam"
  using writeIAM_state[OF temp_fresh_apart[OF sample_iam_fresh(1)] no_files_state _ writeIAM_sample] sample_identity_ok(1)
  by (simp add: ok_iam_def sample_iam_def)

lemma sample_reads:
  "readIAM calm_os cfg no_files = Inr empty_iam"
  "readIAM calm_os sample_config written_iam = Inr sample_iam"
  by (rule readIAM_ok[OF no_files_state] readIAM_ok[OF written_iam_state], simp)+

theorem readIAM_writeIAM_witness: "readIAM calm_os sample_config written_iam = Inr sample_iam"
  by (rule readIAM_writeIAM[OF sample_iam_fresh(1) _ writeIAM_sample])
    (use sample_identity_ok(1) in \<open>simp_all add: ok_iam_def sample_iam_def\<close>)

theorem CreateIAMUser_refines_witness:
  "iam_state sample_config sample_iam
     (snd (CreateIAMUser New_Executor calm_os sample_config sample_user ''SK1'' no_files))"
proof -
  have "fst (CreateIAMUser New_Executor calm_os sample_config sample_user ''SK1'' no_files) = Inr ()"
    by (simp add: CreateIAMUser_def sample_reads calm_write_reload)
  then show ?thesis
    using CreateIAMUser_refines[OF sample_iam_fresh(1) no_files_state sample_identity_ok(1)
        prod.collapse[symmetric], of New_Executor]
    by (simp add: sample_iam_def empty_iam_def add_identity_def)
qed

theorem DeleteIAMUser_refines_witness:
  "fst (DeleteIAMUser New_Executor calm_os sample_config ''bob'' written_iam)
      = Inl (MsgQ ''IAM user '' ''bob'' '' not found'') \<and>
   snd (DeleteIAMUser New_Executor calm_os sample_config ''bob'' written_iam) = written_iam \<and>
   iam_state sample_config \<lparr>if_identities = Some []\<rparr>
      (snd (DeleteIAMUser New_Executor calm_os sample_config ''alice'' written_iam))"
proof (intro conjI)
  show "fst (DeleteIAMUser New_Executor calm_os sample_config ''bob'' written_iam)
      = Inl (MsgQ ''IAM user '' ''bob'' '' not found'')"
    by (simp add: DeleteIAMUser_def sample_reads sample_iam_def new_identity_def sample_user_def)
  show "snd (DeleteIAMUser New_Executor calm_os sample_config ''bob'' written_iam) = written_iam"
    using DeleteIAMUser_refines[OF sample_iam_fresh(2) written_iam_state prod.collapse[symmetric],
        of "''bob''" New_Executor]
    by (simp add: sample_iam_def new_identity_def sample_user_def)
  have "fst (DeleteIAMUser New_Executor calm_os sample_config ''alice'' written_iam) = Inr ()"
    by (simp add: DeleteIAMUser_def sample_reads sample_iam_def new_identity_def sample_user_def calm_write_reload)
  then show "iam_state sample_config \<lparr>if_identities = Some []\<rparr>
      (snd (DeleteIAMUser New_Executor calm_os sample_config ''alice'' written_iam))"
    using DeleteIAMUser_refines[OF sample_iam_fresh(2) written_iam_state prod.collapse[symmetric],
        of "''alice''" New_Executor]
    by (simp add: sample_iam_def new_identity_def sample_user_def del_identity_def)
qed

theorem EnsureAdmin_establishes_witness:
  "\<exists>f'. iam_state sample_config f' (snd (EnsureAdmin New_Executor calm_os sample_config written_iam)) \<and>
    set (elems (if_identities sample_iam)) \<subseteq> set (elems (if_identities f')) \<and>
    (\<exists>i \<in> set (elems (if_identities f')). has_access_key (AdminAccessKey sample_config) i) \<and>
    EnsureAdmin New_Executor calm_os sample_config
        (snd (EnsureAdmin New_Executor calm_os sample_config written_iam))
      = (Inr (), snd (EnsureAdmin New_Executor calm_os sample_config written_iam))"
proof -
  have "fst (EnsureAdmin New_Executor calm_os sample_config written_iam) = Inr ()"
    by (simp add: EnsureAdmin_def sample_reads calm_write_reload)
  then have run: "EnsureAdmin New_Executor calm_os sample_config written_iam
      = (Inr (), snd (EnsureAdmin New_Executor calm_os sample_config written_iam))"
    by (simp add: prod_eq_iff)
  show ?thesis
    by (rule EnsureAdmin_establishes[OF sample_iam_fresh(2) written_iam_state sample_identity_ok(2) _ run])
      simp_all
qed

theorem ListIAM_hides_witness:
  "ListIAM calm_os sample_config written_iam = Inr [listed_user (new_identity sample_user ''SK1'')] \<and>
   iu_secret_key (listed_user (new_identity sample_user ''SK1'')) = []"
proof -
  have l: "ListIAM calm_os sample_config written_iam = Inr [listed_user (new_identity sample_user ''SK1'')]"
    by (simp add: ListIAM_def sample_reads sample_iam_def new_identity_def sample_user_def
        first_access_key_def isSystemAdmin_def)
  show ?thesis using l ListIAM_hides[OF written_iam_state l] by simp
qed

definition two_key_iam :: iam_file where
  "two_key_iam = \<lparr>if_identities = Some [\<lparr>id_name = ''ops'',
     id_credentials = Some [\<lparr>ic_access_key = ''AK9'', ic_secret_key = []\<rparr>,
                            \<lparr>ic_access_key = ''AKADMIN'', ic_secret_key = []\<rparr>],
     id_actions = None\<rparr>]\<rparr>"

theorem admin_key_in_later_credential_witness:
  "\<exists>us. ListIAM calm_os sample_config
      (one_file ''/etc/seaweedfs/iam.json'' (json_indent (enc_iam two_key_iam))) = Inr us
    \<and> ''ops'' \<in> iu_name ` set us"
proof -
  have ok: "ok_iam two_key_iam" by code_simp
  then have "iam_state sample_config two_key_iam
      (one_file ''/etc/seaweedfs/iam.json'' (json_indent (enc_iam two_key_iam)))"
    by (simp add: iam_state_def one_file_def sample_config_def plain_file_def unmarshal_iam)
  then show ?thesis
    using admin_key_in_later_credential[of sample_config two_key_iam _ "calm_os :: unit os" "hd (elems (if_identities two_key_iam))"]
    by (simp add: two_key_iam_def has_access_key_def first_access_key_def sample_config_def)
qed

end
