(* ===== verification/Reconcile.thy ===== *)
theory Reconcile
  imports Gateway Iam
begin

section \<open>Reconciliation (Manager.Reconcile)\<close>

text \<open>
  \<^verbatim>\<open>Reconcile\<close> brings the buckets of the gateway and the identities of the IAM file to the desired state.
  The definition is the code's: list, create what is missing, delete what is extra, first for buckets and
  then for identities, collecting the errors of single items. The two stores it works on, the gateway
  behind \<open>os_http\<close> and the IAM file, both interpret the contract \<open>fallible_store\<close>, from which the
  convergence theorem follows.
\<close>

definition iam_label :: "string \<Rightarrow> iam_user \<Rightarrow> string" where
  "iam_label what u = what @ '' IAM user '' @ iu_name u"

definition bucket_label :: "string \<Rightarrow> string \<Rightarrow> string" where
  "bucket_label what name = what @ '' bucket '' @ name"

definition Reconcile ::
  "executor \<Rightarrow> 'x os \<Rightarrow> s3_config \<Rightarrow> full_sync_payload \<Rightarrow> 'x world
    \<Rightarrow> (reconcile_result \<times> go_error option) \<times> 'x world" where
  "Reconcile e os cfg desired w =
     (case ListBuckets os cfg w of
        (Inl x, w1) \<Rightarrow> ((empty_result, Some (Wrap ''listing actual buckets'' x)), w1)
      | (Inr actual, w1) \<Rightarrow>
          let (created, errs2, w2) =
                item_loop (\<lambda>spec. bs_name spec \<in> set actual) (CreateBucket os cfg)
                  (\<lambda>spec. bucket_label ''create'' (bs_name spec)) (fsp_buckets desired) (0, [], w1);
              (deleted, errs3, w3) =
                item_loop (\<lambda>name. name \<in> bs_name ` set (fsp_buckets desired)) (\<lambda>name. DeleteBucket os cfg name False)
                  (bucket_label ''delete'') actual (0, errs2, w2);
              res3 = \<lparr>rr_buckets_created = created, rr_buckets_deleted = deleted,
                      rr_iam_created = 0, rr_iam_deleted = 0, rr_errors = errs3\<rparr>
          in
            (case ListIAM os cfg w3 of
               Inl x \<Rightarrow> ((res3, Some (Wrap ''listing actual IAM'' x)), w3)
             | Inr users \<Rightarrow>
                 let (icreated, errs4, w4) =
                       item_loop (\<lambda>u. iu_name u \<in> iu_name ` set users)
                         (\<lambda>u. CreateIAMUser e os cfg u (iu_secret_key u))
                         (iam_label ''create'') (fsp_iam_users desired) (0, errs3, w3);
                     (ideleted, errs5, w5) =
                       item_loop (\<lambda>u. iu_name u \<in> iu_name ` set (fsp_iam_users desired))
                         (\<lambda>u. DeleteIAMUser e os cfg (iu_name u))
                         (iam_label ''delete'') users (0, errs4, w4)
                 in ((res3\<lparr>rr_iam_created := icreated, rr_iam_deleted := ideleted, rr_errors := errs5\<rparr>, None), w5)))"

subsection \<open>The gateway as a store\<close>

text \<open>
  What the agent relies on of the S3 gateway, for the names \<open>bk x\<close> of the buckets in outside state \<open>x\<close>:
  \<^verbatim>\<open>GET /\<close> lists them, \<^verbatim>\<open>PUT /name\<close> of a new name adds it, \<^verbatim>\<open>DELETE /name\<close> of an existing one removes it
  (with a status below 300 each), and running programs does not change them.
\<close>

definition reply_ok :: "'x os \<Rightarrow> string \<Rightarrow> string \<Rightarrow> 'x \<Rightarrow> (response \<Rightarrow> 'x \<Rightarrow> bool) \<Rightarrow> bool" where
  "reply_ok os m u x P \<longleftrightarrow>
     (\<forall>r. rq_method r = m \<and> rq_url r = u \<longrightarrow>
        (\<exists>resp x'. os_http os r x = (Inr resp, x') \<and> rs_status resp < 300 \<and> P resp x'))"

definition gateway_spec :: "'x os \<Rightarrow> s3_config \<Rightarrow> ('x \<Rightarrow> string list) \<Rightarrow> bool" where
  "gateway_spec os cfg bk \<longleftrightarrow>
     (\<forall>u. \<exists>v. os_url os u = Inr v) \<and>
     (\<forall>x. distinct (bk x) \<and> [] \<notin> set (bk x)) \<and>
     (\<forall>x. reply_ok os ''GET'' (S3URL cfg @ ''/'') x
        (\<lambda>resp x'. bk x' = bk x \<and> os_xml os [''Buckets'', ''Bucket'', ''Name''] (rs_body resp) = Inr (bk x))) \<and>
     (\<forall>x n. n \<noteq> [] \<longrightarrow> n \<notin> set (bk x) \<longrightarrow>
        reply_ok os ''PUT'' (S3URL cfg @ ''/'' @ n) x (\<lambda>_ x'. set (bk x') = insert n (set (bk x)))) \<and>
     (\<forall>x n. n \<in> set (bk x) \<longrightarrow>
        reply_ok os ''DELETE'' (S3URL cfg @ ''/'' @ n) x (\<lambda>_ x'. set (bk x') = set (bk x) - {n})) \<and>
     (\<forall>x c as. bk (snd (os_exec os c as x)) = bk x)"

lemma gateway_specD:
  assumes "gateway_spec os cfg bk"
  shows "\<exists>v. os_url os u = Inr v" "distinct (bk x)" "[] \<notin> set (bk x)"
    and "reply_ok os ''GET'' (S3URL cfg @ ''/'') x
        (\<lambda>resp x'. bk x' = bk x \<and> os_xml os [''Buckets'', ''Bucket'', ''Name''] (rs_body resp) = Inr (bk x))"
    and "n \<noteq> [] \<Longrightarrow> n \<notin> set (bk x) \<Longrightarrow>
      reply_ok os ''PUT'' (S3URL cfg @ ''/'' @ n) x (\<lambda>_ x'. set (bk x') = insert n (set (bk x)))"
    and "n \<in> set (bk x) \<Longrightarrow>
      reply_ok os ''DELETE'' (S3URL cfg @ ''/'' @ n) x (\<lambda>_ x'. set (bk x') = set (bk x) - {n})"
    and "bk (snd (os_exec os c as x)) = bk x"
  using assms unfolding gateway_spec_def by blast+

subsection \<open>The identities of a world\<close>

definition iam_of :: "s3_config \<Rightarrow> 'x world \<Rightarrow> iam_identity list" where
  "iam_of cfg w =
     (case fs w (IAMFile cfg) of
        None \<Rightarrow> []
      | Some n \<Rightarrow> (case unmarshal dec_iam empty_iam (f_data n) of Inl _ \<Rightarrow> [] | Inr f \<Rightarrow> elems (if_identities f)))"

definition is_admin_identity :: "s3_config \<Rightarrow> iam_identity \<Rightarrow> bool" where
  "is_admin_identity cfg i \<longleftrightarrow> isSystemAdmin cfg (first_access_key i)"

definition managed_names :: "s3_config \<Rightarrow> 'x world \<Rightarrow> string list" where
  "managed_names cfg w = map id_name (filter (\<lambda>i. \<not> is_admin_identity cfg i) (iam_of cfg w))"

definition admins :: "s3_config \<Rightarrow> 'x world \<Rightarrow> iam_identity list" where
  "admins cfg w = filter (is_admin_identity cfg) (iam_of cfg w)"

lemma iam_of_state: "iam_state cfg f w \<Longrightarrow> iam_of cfg w = elems (if_identities f)"
  by (auto simp: iam_state_def iam_of_def empty_iam_def split: option.splits)

lemma managed_subset: "n \<in> set (managed_names cfg w) \<Longrightarrow> n \<in> id_name ` set (iam_of cfg w)"
  by (auto simp: managed_names_def)

text \<open>
  The circumstances under which reconciliation is expected to converge: the gateway keeps its
  contract, no file operation and no program fails, temporary names avoid the files \<open>D\<close> that exist,
  and the IAM file parses and has no two identities of one name. \<open>As\<close> are the identities that carry
  the system admin's key.
\<close>

definition calm :: "'x os \<Rightarrow> s3_config \<Rightarrow> ('x \<Rightarrow> string list) \<Rightarrow> string set \<Rightarrow> bool" where
  "calm os cfg bk D \<longleftrightarrow> gateway_spec os cfg bk \<and> (\<forall>op x. os_fail os op x = None) \<and>
     (\<forall>c as x. ro_error (fst (os_exec os c as x)) = None) \<and>
     IAMFile cfg \<in> D \<and> (\<forall>w. dom (fs w) \<subseteq> D \<longrightarrow> temp_fresh os (IAMFile cfg) w)"

definition sync_inv ::
  "'x os \<Rightarrow> s3_config \<Rightarrow> ('x \<Rightarrow> string list) \<Rightarrow> string set \<Rightarrow> iam_identity list \<Rightarrow> 'x world \<Rightarrow> bool" where
  "sync_inv os cfg bk D As w \<longleftrightarrow> calm os cfg bk D \<and> dom (fs w) \<subseteq> D \<and>
     (\<exists>f. iam_state cfg f w) \<and> distinct (map id_name (iam_of cfg w)) \<and> admins cfg w = As"

lemma sync_inv_cong:
  "fs w' = fs w \<Longrightarrow> sync_inv os cfg bk D As w' = sync_inv os cfg bk D As w"
  by (simp add: sync_inv_def iam_of_def admins_def iam_state_def)

lemma managed_names_cong: "fs w' = fs w \<Longrightarrow> managed_names cfg w' = managed_names cfg w"
  by (simp add: managed_names_def iam_of_def)

subsection \<open>The bucket operations under the contract\<close>

lemma doS3_reply:
  assumes "gateway_spec os cfg bk" "reply_ok os m raw (ext w) P"
  shows "\<exists>resp x'. doS3 os cfg m raw b w = (Inr resp, w\<lparr>ext := x'\<rparr>) \<and> rs_status resp < 300 \<and> P resp x'"
proof -
  obtain v where v: "os_url os raw = Inr v" using gateway_specD(1)[OF assms(1)] by blast
  let ?req = "signAWSv4 os (AdminAccessKey cfg) (AdminSecretKey cfg) (S3Region cfg) b (ext w) v
        \<lparr>rq_method = m, rq_url = raw, rq_headers = [], rq_body = b\<rparr>"
  have "\<exists>resp x'. os_http os ?req (ext w) = (Inr resp, x') \<and> rs_status resp < 300 \<and> P resp x'"
    using assms(2) unfolding reply_ok_def by simp
  then show ?thesis by (auto simp: doS3_def build_request_def v send_def)
qed

lemma ListBuckets_ok:
  assumes "gateway_spec os cfg bk"
  shows "\<exists>x'. ListBuckets os cfg w = (Inr (bk (ext w)), w\<lparr>ext := x'\<rparr>) \<and> bk x' = bk (ext w)"
proof -
  obtain resp x' where "doS3 os cfg ''GET'' (S3URL cfg @ ''/'') [] w = (Inr resp, w\<lparr>ext := x'\<rparr>)"
      "rs_status resp < 300" "bk x' = bk (ext w)"
      "os_xml os [''Buckets'', ''Bucket'', ''Name''] (rs_body resp) = Inr (bk (ext w))"
    using doS3_reply[OF assms gateway_specD(4)[OF assms], of "[]"] by blast
  then show ?thesis by (simp add: ListBuckets_def) blast
qed

lemma CreateBucket_ok:
  assumes "gateway_spec os cfg bk" "bs_name spec \<noteq> []" "bs_name spec \<notin> set (bk (ext w))"
  shows "\<exists>x'. CreateBucket os cfg spec w = (Inr (), w\<lparr>ext := x'\<rparr>) \<and> set (bk x') = insert (bs_name spec) (set (bk (ext w)))"
  using doS3_reply[OF assms(1) gateway_specD(5)[OF assms], of "[]"] assms(2)
  by (auto simp: CreateBucket_def Let_def expect_ok_def)

lemma DeleteBucket_ok:
  assumes "gateway_spec os cfg bk" "n \<in> set (bk (ext w))"
  shows "\<exists>x'. DeleteBucket os cfg n False w = (Inr (), w\<lparr>ext := x'\<rparr>) \<and> set (bk x') = set (bk (ext w)) - {n}"
proof -
  have "n \<noteq> []" using gateway_specD(3)[OF assms(1)] assms(2) by blast
  then show ?thesis
    using doS3_reply[OF assms(1) gateway_specD(6)[OF assms], of "[]"]
    by (auto simp: DeleteBucket_def Let_def expect_ok_def)
qed

interpretation gateway: fallible_store "\<lambda>w. bk (ext w)" "\<lambda>w. sync_inv os cfg bk D As w \<and> fs w = F"
  "\<lambda>spec. bs_name spec \<noteq> []" bs_name "CreateBucket os cfg" "\<lambda>n. DeleteBucket os cfg n False" for os cfg bk D As F
proof (unfold_locales, goal_cases)
  case (1 w spec)
  then show ?case using CreateBucket_ok[of os cfg bk spec w] by (auto simp: sync_inv_def calm_def)
next
  case (2 w n)
  then show ?case using DeleteBucket_ok[of os cfg bk n w] by (auto simp: sync_inv_def calm_def)
next
  case (3 w spec)
  then show ?case using sync_inv_cong[OF CreateBucket_fs] CreateBucket_fs by metis
next
  case (4 w n)
  then show ?case using sync_inv_cong[OF DeleteBucket_fs] DeleteBucket_fs by metis
next
  case (5 w spec)
  then show ?case using CreateBucket_ok[of os cfg bk spec w] by (auto simp: sync_inv_def calm_def)
next
  case (6 w n)
  then show ?case using DeleteBucket_ok[of os cfg bk n w] by (auto simp: sync_inv_def calm_def)
qed

subsection \<open>The IAM operations under the contract\<close>

lemma write_reload_ok:
  assumes "calm os cfg bk D" "dom (fs w) \<subseteq> D"
  shows "\<exists>n x'. write_reload e os cfg f w = (Inr (), w\<lparr>fs := (fs w)(IAMFile cfg \<mapsto> n), ext := x'\<rparr>) \<and>
    f_data n = json_indent (enc_iam f) \<and> bk x' = bk (ext w)"
proof -
  have t: "temp_fresh os (IAMFile cfg) w" and nf: "\<And>op. os_fail os op (ext w) = None"
    and ex: "ro_error (fst (os_exec os ''systemctl'' [''restart'', WeedS3Service cfg] (ext w))) = None"
    and bk: "bk (snd (os_exec os ''systemctl'' [''restart'', WeedS3Service cfg] (ext w))) = bk (ext w)"
    using assms by (auto simp: calm_def gateway_spec_def)
  obtain w1 where aw: "atomic_write os (IAMFile cfg) (json_indent (enc_iam f)) 0x1A0 w = (Inr (), w1)"
    using atomic_write_succeeds[OF nf, where path = "IAMFile cfg" and data = "json_indent (enc_iam f)" and perm = "0x1A0"]
    by (metis prod.collapse)
  obtain n where n: "fs w1 = (fs w)(IAMFile cfg \<mapsto> n)" "f_data n = json_indent (enc_iam f)"
    using atomic_write_ok[OF t aw] by blast
  have x: "ext w1 = ext w" using atomic_write_ext[OF aw t] .
  have "write_reload e os cfg f w
      = (Inr (), w1\<lparr>ext := snd (os_exec os ''systemctl'' [''restart'', WeedS3Service cfg] (ext w))\<rparr>)"
    using aw ex x
    by (cases "os_exec os ''systemctl'' [''restart'', WeedS3Service cfg] (ext w)")
      (simp add: write_reload_def writeIAM_def reloadWeedS3_def Execute_def)
  moreover have "w1 = w\<lparr>fs := (fs w)(IAMFile cfg \<mapsto> n)\<rparr>" using n(1) x by simp
  ultimately show ?thesis using n(2) bk by auto
qed

lemma written_iam_of:
  assumes "ok_iam f" "f_data n = json_indent (enc_iam f)" "fs w' = (fs w)(IAMFile cfg \<mapsto> n)"
  shows "iam_state cfg f w'" "iam_of cfg w' = elems (if_identities f)"
proof -
  show "iam_state cfg f w'" using assms by (simp add: iam_state_def unmarshal_iam)
  then show "iam_of cfg w' = elems (if_identities f)" by (rule iam_of_state)
qed

definition ok_user :: "s3_config \<Rightarrow> iam_identity list \<Rightarrow> iam_user \<Rightarrow> bool" where
  "ok_user cfg As u \<longleftrightarrow> ok_identity (new_identity u (iu_secret_key u)) \<and>
     \<not> isSystemAdmin cfg (iu_access_key u) \<and> iu_name u \<notin> id_name ` set As"

lemma iam_of_names:
  "set (map id_name (iam_of cfg w)) = set (managed_names cfg w) \<union> id_name ` set (admins cfg w)"
  by (auto simp: managed_names_def admins_def)

lemma CreateIAMUser_ok:
  assumes "sync_inv os cfg bk D As w" "ok_user cfg As u" "iu_name u \<notin> set (managed_names cfg w)"
  shows "\<exists>w'. CreateIAMUser e os cfg u (iu_secret_key u) w = (Inr (), w') \<and> sync_inv os cfg bk D As w' \<and>
    set (managed_names cfg w') = insert (iu_name u) (set (managed_names cfg w)) \<and> bk (ext w') = bk (ext w)"
proof -
  obtain f where f: "iam_state cfg f w" and c: "calm os cfg bk D" "dom (fs w) \<subseteq> D"
    and d: "distinct (map id_name (iam_of cfg w))" and As: "admins cfg w = As"
    using assms(1) by (auto simp: sync_inv_def)
  let ?i = "new_identity u (iu_secret_key u)"
  let ?f' = "f\<lparr>if_identities := slice_append (if_identities f) [?i]\<rparr>"
  have rd: "readIAM os cfg w = Inr f" using readIAM_ok[OF f] c(1) by (simp add: calm_def)
  have ok': "ok_iam ?f'" using f assms(2) by (auto simp: ok_iam_def iam_state_def ok_user_def)
  obtain n x' where wr: "write_reload e os cfg ?f' w = (Inr (), w\<lparr>fs := (fs w)(IAMFile cfg \<mapsto> n), ext := x'\<rparr>)"
      "f_data n = json_indent (enc_iam ?f')" "bk x' = bk (ext w)"
    using write_reload_ok[OF c] by blast
  let ?w' = "w\<lparr>fs := (fs w)(IAMFile cfg \<mapsto> n), ext := x'\<rparr>"
  have st: "iam_state cfg ?f' ?w'" "iam_of cfg ?w' = iam_of cfg w @ [?i]"
    using written_iam_of[OF ok' wr(2), of ?w' w cfg] iam_of_state[OF f] by simp_all
  have na: "\<not> is_admin_identity cfg ?i"
    using assms(2) by (simp add: is_admin_identity_def ok_user_def first_access_key_def new_identity_def)
  have "iu_name u \<notin> set (map id_name (iam_of cfg w))"
    using assms(2,3) As unfolding iam_of_names by (auto simp: ok_user_def)
  then have "sync_inv os cfg bk D As ?w'"
    using c d As st na by (auto simp: sync_inv_def admins_def calm_def new_identity_def)
  moreover have "set (managed_names cfg ?w') = insert (iu_name u) (set (managed_names cfg w))"
    using st na by (simp add: managed_names_def new_identity_def)
  ultimately show ?thesis using rd wr by (simp add: CreateIAMUser_def)
qed

lemma DeleteIAMUser_ok:
  assumes "sync_inv os cfg bk D As w" "n \<in> set (managed_names cfg w)"
  shows "\<exists>w'. DeleteIAMUser e os cfg n w = (Inr (), w') \<and> sync_inv os cfg bk D As w' \<and>
    set (managed_names cfg w') = set (managed_names cfg w) - {n} \<and> bk (ext w') = bk (ext w)"
proof -
  obtain f where f: "iam_state cfg f w" and c: "calm os cfg bk D" "dom (fs w) \<subseteq> D"
    and d: "distinct (map id_name (iam_of cfg w))" and As: "admins cfg w = As"
    using assms(1) by (auto simp: sync_inv_def)
  let ?ids = "iam_of cfg w"
  have ids: "?ids = elems (if_identities f)" by (rule iam_of_state[OF f])
  let ?f' = "f\<lparr>if_identities := Some (del_identity n ?ids)\<rparr>"
  have rd: "readIAM os cfg w = Inr f" using readIAM_ok[OF f] c(1) by (simp add: calm_def)
  obtain arr k found where fl: "filter_loop n (length ?ids) 0 0 False ?ids = (arr, k, found)" by (metis prod_cases3)
  have l: "take k arr = del_identity n ?ids" "found"
    using filter_loop_all[OF fl] managed_subset[OF assms(2)] by auto
  have ok': "ok_iam ?f'" using f ids by (auto simp: ok_iam_def iam_state_def del_identity_def)
  obtain m x' where wr: "write_reload e os cfg ?f' w = (Inr (), w\<lparr>fs := (fs w)(IAMFile cfg \<mapsto> m), ext := x'\<rparr>)"
      "f_data m = json_indent (enc_iam ?f')" "bk x' = bk (ext w)"
    using write_reload_ok[OF c] by blast
  let ?w' = "w\<lparr>fs := (fs w)(IAMFile cfg \<mapsto> m), ext := x'\<rparr>"
  have st: "iam_state cfg ?f' ?w'" "iam_of cfg ?w' = del_identity n ?ids"
    using written_iam_of[OF ok' wr(2), of ?w' w cfg] by simp_all
  obtain i where i: "i \<in> set ?ids" "id_name i = n" "\<not> is_admin_identity cfg i"
    using assms(2) by (auto simp: managed_names_def)
  have "\<forall>j \<in> set ?ids. id_name j = n \<longrightarrow> j = i"
    using d i by (auto simp: distinct_map inj_on_def)
  then have "filter (is_admin_identity cfg) (del_identity n ?ids) = filter (is_admin_identity cfg) ?ids"
    using i(3) unfolding del_identity_def filter_filter by (intro filter_cong) auto
  then have "sync_inv os cfg bk D As ?w'"
    using c d As st by (auto simp: sync_inv_def admins_def calm_def del_identity_def distinct_map_filter)
  moreover have "set (managed_names cfg ?w') = set (managed_names cfg w) - {n}"
    using st by (auto simp: managed_names_def del_identity_def)
  ultimately show ?thesis
    using rd wr fl l ids by (simp add: DeleteIAMUser_def Let_def)
qed

interpretation users: fallible_store "managed_names cfg" "\<lambda>w. sync_inv os cfg bk D As w \<and> bk (ext w) = B"
  "ok_user cfg As" iu_name "\<lambda>u. CreateIAMUser e os cfg u (iu_secret_key u)" "DeleteIAMUser e os cfg"
  for e os cfg bk D As B
proof (unfold_locales, goal_cases)
  case (1 w u)
  obtain w' where "CreateIAMUser e os cfg u (iu_secret_key u) w = (Inr (), w')"
    "set (managed_names cfg w') = insert (iu_name u) (set (managed_names cfg w))"
    using CreateIAMUser_ok[of os cfg bk D As w u e] 1 by blast
  then show ?case by simp
next
  case (2 w n)
  obtain w' where "DeleteIAMUser e os cfg n w = (Inr (), w')"
    "set (managed_names cfg w') = set (managed_names cfg w) - {n}"
    using DeleteIAMUser_ok[of os cfg bk D As w n e] 2 by blast
  then show ?case by simp
next
  case (3 w u)
  obtain w' where "CreateIAMUser e os cfg u (iu_secret_key u) w = (Inr (), w')" "sync_inv os cfg bk D As w' \<and> bk (ext w') = bk (ext w)"
    using CreateIAMUser_ok[of os cfg bk D As w u e] 3 by blast
  then show ?case using 3 by simp
next
  case (4 w n)
  obtain w' where "DeleteIAMUser e os cfg n w = (Inr (), w')" "sync_inv os cfg bk D As w' \<and> bk (ext w') = bk (ext w)"
    using DeleteIAMUser_ok[of os cfg bk D As w n e] 4 by blast
  then show ?case using 4 by simp
next
  case (5 w u)
  obtain w' where "CreateIAMUser e os cfg u (iu_secret_key u) w = (Inr (), w')"
    using CreateIAMUser_ok[of os cfg bk D As w u e] 5 by blast
  then show ?case by simp
next
  case (6 w n)
  obtain w' where "DeleteIAMUser e os cfg n w = (Inr (), w')"
    using DeleteIAMUser_ok[of os cfg bk D As w n e] 6 by blast
  then show ?case by simp
qed

subsection \<open>Properties\<close>

lemma ListIAM_names:
  assumes "iam_state cfg f w" "os_fail os (OpRead (IAMFile cfg)) (ext w) = None"
  shows "\<exists>us. ListIAM os cfg w = Inr us \<and> map iu_name us = managed_names cfg w"
  using readIAM_ok[OF assms] iam_of_state[OF assms(1)]
  by (simp add: ListIAM_def managed_names_def is_admin_identity_def listed_user_def comp_def)

text \<open>The two passes: over the buckets, from the state after the listing, and over the managed identities.\<close>

lemma bucket_pass:
  assumes "sync_inv os cfg bk D As w" "bk x' = bk (ext w)"
    and "\<forall>spec \<in> set (fsp_buckets desired). bs_name spec \<noteq> []" "distinct (map bs_name (fsp_buckets desired))"
  obtains w2 w3 where
    "item_loop (\<lambda>spec. bs_name spec \<in> set (bk (ext w))) (CreateBucket os cfg)
       (\<lambda>spec. bucket_label ''create'' (bs_name spec)) (fsp_buckets desired) (0, [], w\<lparr>ext := x'\<rparr>)
     = (card (bs_name ` set (fsp_buckets desired) - set (bk (ext w))), [], w2)"
    "item_loop (\<lambda>name. name \<in> bs_name ` set (fsp_buckets desired)) (\<lambda>name. DeleteBucket os cfg name False)
       (bucket_label ''delete'') (bk (ext w)) (0, [], w2)
     = (card (set (bk (ext w)) - bs_name ` set (fsp_buckets desired)), [], w3)"
    "sync_inv os cfg bk D As w3 \<and> fs w3 = fs w" "set (bk (ext w3)) = bs_name ` set (fsp_buckets desired)"
proof -
  let ?w1 = "w\<lparr>ext := x'\<rparr>"
  have g: "gateway_spec os cfg bk" using assms(1) by (simp add: sync_inv_def calm_def)
  have i1: "sync_inv os cfg bk D As ?w1 \<and> fs ?w1 = fs w"
    using assms(1) sync_inv_cong[of ?w1 w] by simp
  have e1: "bk (ext ?w1) = bk (ext w)" by (simp add: assms(2))
  have l1: "map (\<lambda>x. x) (bk (ext w)) = bk (ext ?w1)" "distinct (bk (ext ?w1))"
    using e1 gateway_specD(2)[OF g] by simp_all
  show ?thesis
    using gateway.pass[OF i1 assms(3,4) l1, of "\<lambda>spec. bucket_label ''create'' (bs_name spec)" "[]"
        "bucket_label ''delete''"] that
    unfolding e1 by blast
qed

lemma user_pass:
  assumes "sync_inv os cfg bk D As w3"
    and "\<forall>u \<in> set (fsp_iam_users desired). ok_user cfg As u" "distinct (map iu_name (fsp_iam_users desired))"
  obtains us w4 w5 where
    "ListIAM os cfg w3 = Inr us"
    "item_loop (\<lambda>u. iu_name u \<in> iu_name ` set us) (\<lambda>u. CreateIAMUser e os cfg u (iu_secret_key u))
       (iam_label ''create'') (fsp_iam_users desired) (0, [], w3)
     = (card (iu_name ` set (fsp_iam_users desired) - set (managed_names cfg w3)), [], w4)"
    "item_loop (\<lambda>u. iu_name u \<in> iu_name ` set (fsp_iam_users desired)) (\<lambda>u. DeleteIAMUser e os cfg (iu_name u))
       (iam_label ''delete'') us (0, [], w4)
     = (card (set (managed_names cfg w3) - iu_name ` set (fsp_iam_users desired)), [], w5)"
    "sync_inv os cfg bk D As w5 \<and> bk (ext w5) = bk (ext w3)"
    "set (managed_names cfg w5) = iu_name ` set (fsp_iam_users desired)"
proof -
  obtain f where f: "iam_state cfg f w3" using assms(1) by (auto simp: sync_inv_def)
  have nf: "os_fail os (OpRead (IAMFile cfg)) (ext w3) = None" using assms(1) by (simp add: sync_inv_def calm_def)
  obtain us where us: "ListIAM os cfg w3 = Inr us" "map iu_name us = managed_names cfg w3"
    using ListIAM_names[OF f nf] by blast
  have usn: "iu_name ` set us = set (managed_names cfg w3)"
    using us(2) by (metis set_map)
  have dn: "distinct (managed_names cfg w3)"
    using assms(1) unfolding managed_names_def sync_inv_def by (simp add: distinct_map_filter)
  have i3: "sync_inv os cfg bk D As w3 \<and> bk (ext w3) = bk (ext w3)" using assms(1) by simp
  from users.pass[OF i3 assms(2,3) us(2) dn, of e "iam_label ''create''" "[]" "iam_label ''delete''"]
  show ?thesis
    by (elim exE conjE, intro that[OF us(1)]) (simp_all add: usn)
qed

lemma Reconcile_run:
  assumes "sync_inv os cfg bk D As w"
    and "\<forall>spec \<in> set (fsp_buckets desired). bs_name spec \<noteq> []" "distinct (map bs_name (fsp_buckets desired))"
    and "\<forall>u \<in> set (fsp_iam_users desired). ok_user cfg As u" "distinct (map iu_name (fsp_iam_users desired))"
  shows "\<exists>w'. Reconcile e os cfg desired w =
      ((\<lparr>rr_buckets_created = card (bs_name ` set (fsp_buckets desired) - set (bk (ext w))),
         rr_buckets_deleted = card (set (bk (ext w)) - bs_name ` set (fsp_buckets desired)),
         rr_iam_created = card (iu_name ` set (fsp_iam_users desired) - set (managed_names cfg w)),
         rr_iam_deleted = card (set (managed_names cfg w) - iu_name ` set (fsp_iam_users desired)),
         rr_errors = []\<rparr>, None), w')
    \<and> sync_inv os cfg bk D As w' \<and> set (bk (ext w')) = bs_name ` set (fsp_buckets desired)
    \<and> set (managed_names cfg w') = iu_name ` set (fsp_iam_users desired)"
proof -
  have g: "gateway_spec os cfg bk" using assms(1) by (simp add: sync_inv_def calm_def)
  obtain x' where lb: "ListBuckets os cfg w = (Inr (bk (ext w)), w\<lparr>ext := x'\<rparr>)" "bk x' = bk (ext w)"
    using ListBuckets_ok[OF g] by blast
  obtain w2 w3 where b:
    "item_loop (\<lambda>spec. bs_name spec \<in> set (bk (ext w))) (CreateBucket os cfg)
       (\<lambda>spec. bucket_label ''create'' (bs_name spec)) (fsp_buckets desired) (0, [], w\<lparr>ext := x'\<rparr>)
     = (card (bs_name ` set (fsp_buckets desired) - set (bk (ext w))), [], w2)"
    "item_loop (\<lambda>name. name \<in> bs_name ` set (fsp_buckets desired)) (\<lambda>name. DeleteBucket os cfg name False)
       (bucket_label ''delete'') (bk (ext w)) (0, [], w2)
     = (card (set (bk (ext w)) - bs_name ` set (fsp_buckets desired)), [], w3)"
    "sync_inv os cfg bk D As w3 \<and> fs w3 = fs w" "set (bk (ext w3)) = bs_name ` set (fsp_buckets desired)"
    by (rule bucket_pass[OF assms(1) lb(2) assms(2,3)])
  note mc = managed_names_cong[OF conjunct2[OF b(3)], of cfg]
  from user_pass[OF conjunct1[OF b(3)] assms(4,5), of e] show ?thesis
    using lb b by (fastforce simp: Reconcile_def mc)
qed



subsection \<open>An example: a gateway in memory\<close>

text \<open>
  A gateway whose outside state is the list of its buckets. The listing is encoded with a mark before
  each character and one after each name, so that any name can be read back.
\<close>

fun enc_names :: "string list \<Rightarrow> string" where
  "enc_names [] = []"
| "enc_names ([] # ns) = CHR ''.'' # enc_names ns"
| "enc_names ((c # n) # ns) = CHR ''+'' # c # enc_names (n # ns)"

fun dec_names :: "string \<Rightarrow> string \<Rightarrow> string list" where
  "dec_names acc [] = []"
| "dec_names acc [x] = [acc]"
| "dec_names acc (x # c # s) = (if x = CHR ''.'' then acc # dec_names [] (c # s) else dec_names (acc @ [c]) s)"

lemma dec_enc_names: "dec_names acc (enc_names (n # ns)) = (acc @ n) # ns"
proof (induction "n # ns" arbitrary: acc n ns rule: enc_names.induct)
  case (2 ns)
  show ?case
  proof (cases ns)
    case (Cons m ms)
    then obtain x s where "enc_names ns = x # s" by (cases m) auto
    then show ?thesis using 2(1)[OF Cons, of "[]"] Cons by simp
  qed simp
qed simp

definition stored :: "string list \<Rightarrow> string list" where
  "stored x = remdups (filter (\<lambda>n. n \<noteq> []) x)"

definition mem_os :: "string list os" where
  "mem_os = \<lparr>os_fail = (\<lambda>op x. None), os_temp = (\<lambda>x. ''tmp''), os_owner = (0, 0),
     os_exec = (\<lambda>c as x. (\<lparr>ro_stdout = [], ro_stderr = [], ro_error = None, ro_deadline = False\<rparr>, x)),
     os_http = (\<lambda>r x.
       let n = drop (Suc (length (S3URL sample_config))) (rq_url r);
           ok = (\<lambda>b. Inr \<lparr>rs_status = 200, rs_headers = [], rs_body = b\<rparr>)
       in if rq_method r = ''PUT'' then (ok [], n # x)
          else if rq_method r = ''DELETE'' then (ok [], filter (\<lambda>m. m \<noteq> n) x)
          else (ok (enc_names (stored x)), x)),
     os_url = (\<lambda>u. Inr \<lparr>u_host = u, u_path = ''/'', u_query = []\<rparr>),
     os_date = (\<lambda>x. ''2026-01-02''), os_amz_date = (\<lambda>x. ''20260102T030405Z''),
     os_hmac = (\<lambda>k d. k @ d), os_sha256 = (\<lambda>d. d),
     os_rfc3339 = (\<lambda>s. None), os_now = (\<lambda>x. 0),
     os_xml = (\<lambda>p b. Inr (dec_names [] b))\<rparr>"

lemma mem_gateway: "gateway_spec mem_os sample_config stored"
proof -
  have "dec_names [] (enc_names (stored x)) = stored x" for x
    using dec_enc_names[of "[]"] by (cases "stored x") auto
  then show ?thesis
    by (auto simp: gateway_spec_def reply_ok_def mem_os_def stored_def Let_def)
qed

definition mem_world :: "string list world" where
  "mem_world = \<lparr>fs = (\<lambda>p. None), ext = [''old'']\<rparr>"

definition sample_desired :: full_sync_payload where
  "sample_desired = \<lparr>fsp_buckets = [\<lparr>bs_bucket_id = ''b1'', bs_name = ''b1'', bs_owner_tenant_id = [],
       bs_replication_factor = 1, bs_lifecycle_rules = []\<rparr>],
     fsp_iam_users = [sample_user\<lparr>iu_secret_key := ''SK1''\<rparr>]\<rparr>"

lemma mem_calm: "calm mem_os sample_config stored {IAMFile sample_config}"
proof -
  have "temp_fresh mem_os (IAMFile sample_config) w" if "dom (fs w) \<subseteq> {IAMFile sample_config}" for w
  proof -
    have "temp_name mem_os (IAMFile sample_config) w = ''/etc/seaweedfs/.s3d-write-tmp''"
      by (simp add: temp_name_def path_dir_def mem_os_def)
    then show ?thesis using that by (auto simp: temp_fresh_def dom_def)
  qed
  then show ?thesis using mem_gateway by (auto simp: calm_def mem_os_def)
qed

lemma mem_inv: "sync_inv mem_os sample_config stored {IAMFile sample_config} [] mem_world"
  using mem_calm by (auto simp: sync_inv_def mem_world_def iam_state_def iam_of_def admins_def ok_iam_def empty_iam_def)

lemma sample_user_ok: "ok_user sample_config [] (sample_user\<lparr>iu_secret_key := ''SK1''\<rparr>)"
  by code_simp


definition synced_world :: "string list world" where
  "synced_world = \<lparr>fs = (\<lambda>p. None), ext = [''b1'']\<rparr>"


end
