(* ===== verification/Encode.thy ===== *)
theory Encode
  imports Protocol Observer System Reconcile
begin

section \<open>The JSON forms of what the agent reports\<close>

text \<open>
  What \<^verbatim>\<open>json.Marshal\<close> makes of the structs, slices and maps that go into payloads, following their
  field tags: members in the order of the struct, \<^verbatim>\<open>omitempty\<close> members left out, map keys sorted, nil
  slices as null. None of these values can fail to marshal.
\<close>

definition enc_u64 :: "u64 \<Rightarrow> json" where "enc_u64 n = JNum (nat_str (unat n))"
definition enc_i64 :: "i64 \<Rightarrow> json" where "enc_i64 n = enc_int (sint n)"
definition enc_nat :: "nat \<Rightarrow> json" where "enc_nat n = JNum (nat_str n)"
definition enc_float :: "'x link \<Rightarrow> rat \<Rightarrow> json" where "enc_float lk r = JNum (lk_float lk r)"
definition enc_time :: "'x link \<Rightarrow> time \<Rightarrow> json" where "enc_time lk t = JStr (lk_time lk t)"

text \<open>A slice built by appending to a nil slice: null when nothing was appended.\<close>

definition enc_appended :: "('a \<Rightarrow> json) \<Rightarrow> 'a list \<Rightarrow> json" where
  "enc_appended f xs = (if xs = [] then JNull else JArr (map f xs))"

subsection \<open>Cluster state\<close>

definition enc_health :: "service_health \<Rightarrow> json" where
  "enc_health h = JObj [(''name'', JStr (sh_name h)), (''active'', JBool (sh_active h)),
     (''sub_state'', JStr (sh_sub_state h))]"

definition enc_master :: "'x link \<Rightarrow> master_component \<Rightarrow> json" where
  "enc_master lk c = JObj [(''reachable'', JBool (mc_reachable c)), (''is_leader'', JBool (mc_is_leader c)),
     (''peers'', enc_nat (mc_peers c)), (''checked_at'', enc_time lk (mc_checked_at c)),
     (''service'', enc_health (mc_service c))]"

definition enc_volume :: "'x link \<Rightarrow> volume_component \<Rightarrow> json" where
  "enc_volume lk c = JObj [(''reachable'', JBool (vc_reachable c)), (''total_volumes'', enc_nat (vc_total c)),
     (''writable_volumes'', enc_nat (vc_writable c)), (''degraded_volumes'', enc_nat (vc_degraded c)),
     (''readonly_volumes'', enc_nat (vc_readonly c)), (''capacity_bytes_total'', enc_u64 (vc_bytes_total c)),
     (''capacity_bytes_used'', enc_u64 (vc_bytes_used c)), (''capacity_pct'', enc_float lk (vc_capacity_pct c)),
     (''checked_at'', enc_time lk (vc_checked_at c)), (''service'', enc_health (vc_service c))]"

definition enc_filer :: "'x link \<Rightarrow> filer_component \<Rightarrow> json" where
  "enc_filer lk c = JObj [(''reachable'', JBool (fc_reachable c)), (''checked_at'', enc_time lk (fc_checked_at c)),
     (''service'', enc_health (fc_service c))]"

definition enc_s3 :: "'x link \<Rightarrow> s3_component \<Rightarrow> json" where
  "enc_s3 lk c = JObj [(''reachable'', JBool (gc_reachable c)), (''bucket_count'', enc_nat (gc_bucket_count c)),
     (''checked_at'', enc_time lk (gc_checked_at c)), (''service'', enc_health (gc_service c))]"

definition enc_nginx :: "'x link \<Rightarrow> nginx_component \<Rightarrow> json" where
  "enc_nginx lk c = JObj [(''service'', enc_health (nc_service c)), (''checked_at'', enc_time lk (nc_checked_at c))]"

definition enc_cluster :: "'x link \<Rightarrow> cluster_components \<Rightarrow> json" where
  "enc_cluster lk c = JObj [(''master'', enc_master lk (cc_master c)), (''volume'', enc_volume lk (cc_volume c)),
     (''filer'', enc_filer lk (cc_filer c)), (''s3'', enc_s3 lk (cc_s3 c)), (''nginx'', enc_nginx lk (cc_nginx c))]"

subsection \<open>S3 statistics and events\<close>

definition enc_bucket_stat :: "bucket_stat \<Rightarrow> json" where
  "enc_bucket_stat b = JObj [(''name'', JStr (bu_name b)), (''object_count'', enc_i64 (bu_object_count b)),
     (''size_bytes'', enc_i64 (bu_size_bytes b)), (''replica_health'', JStr (bu_replica_health b))]"

definition enc_traffic :: "traffic_stat \<Rightarrow> json" where
  "enc_traffic t = JObj [(''bucket_name'', JStr (ts_bucket_name t)), (''bytes_in'', enc_i64 (ts_bytes_in t)),
     (''bytes_out'', enc_i64 (ts_bytes_out t)), (''requests'', enc_i64 (ts_requests t))]"

definition enc_audit_event :: "'x link \<Rightarrow> audit_event \<Rightarrow> json" where
  "enc_audit_event lk e = JObj
     ([(''bucket'', JStr (ae_bucket e)), (''object_key'', JStr (ae_object_key e)), (''action'', JStr (ae_action e)),
       (''size_bytes'', enc_i64 (ae_size_bytes e))] @
      (case ae_retain_until e of None \<Rightarrow> [] | Some t \<Rightarrow> [(''retain_until'', enc_time lk t)]) @
      omit_empty (ae_access_key e = []) ''access_key'' (JStr (ae_access_key e)) @
      omit_empty (ae_client_ip e = []) ''client_ip'' (JStr (ae_client_ip e)) @
      [(''performed_at'', enc_time lk (ae_performed_at e))])"

definition enc_telemetry :: "'x link \<Rightarrow> cluster_components \<Rightarrow> bucket_stat slice \<Rightarrow> traffic_stat slice \<Rightarrow> json" where
  "enc_telemetry lk c bs ts = JObj [(''components'', enc_cluster lk c),
     (''buckets'', enc_slice enc_bucket_stat bs), (''traffic'', enc_slice enc_traffic ts)]"

definition enc_s3_health :: "'x link \<Rightarrow> cluster_components \<Rightarrow> string \<Rightarrow> json" where
  "enc_s3_health lk c reason = JObj [(''components'', enc_cluster lk c), (''trigger_reason'', JStr reason)]"

definition enc_acl :: "bucket_acl \<Rightarrow> json" where
  "enc_acl a = JObj [(''bucket_id'', JStr (acl_bucket_id a)), (''permission'', JStr (acl_permission a))]"

definition enc_user :: "iam_user \<Rightarrow> json" where
  "enc_user u = JObj
     ([(''user_id'', JStr (iu_user_id u)), (''name'', JStr (iu_name u)),
       (''owner_tenant_id'', JStr (iu_owner_tenant_id u)), (''access_key'', JStr (iu_access_key u))] @
      omit_empty (iu_secret_key u = []) ''secret_key'' (JStr (iu_secret_key u)) @
      omit_empty (iu_bucket_acls u = []) ''bucket_acls'' (JArr (map enc_acl (iu_bucket_acls u))))"

definition enc_reconcile :: "'x link \<Rightarrow> reconcile_result \<Rightarrow> json" where
  "enc_reconcile lk r = JObj
     ([(''buckets_created'', enc_nat (rr_buckets_created r)), (''buckets_deleted'', enc_nat (rr_buckets_deleted r)),
       (''iam_created'', enc_nat (rr_iam_created r)), (''iam_deleted'', enc_nat (rr_iam_deleted r))] @
      omit_empty (rr_errors r = []) ''errors'' (JArr (map (\<lambda>e. JStr (err_text lk e)) (rr_errors r))))"

subsection \<open>Services\<close>

fun state_str :: "service_state \<Rightarrow> string" where
  "state_str StateActive = ''active''"
| "state_str StateInactive = ''inactive''"
| "state_str StateFailed = ''failed''"
| "state_str StateUnknown = ''unknown''"

definition enc_service :: "service_info \<Rightarrow> json" where
  "enc_service s = JObj
     ([(''name'', JStr (si_name s)), (''description'', JStr (si_description s)),
       (''state'', JStr (state_str (si_state s))), (''sub_state'', JStr (si_sub_state s)),
       (''enabled'', JBool (si_enabled s))] @
      omit_empty (si_pid s = 0) ''pid'' (JNum (nat_str (unat (si_pid s)))) @
      omit_empty (si_since s = 0) ''since'' (enc_i64 (si_since s)))"

definition enc_action :: "'x link \<Rightarrow> action_result \<Rightarrow> json" where
  "enc_action lk a = JObj [(''service'', JStr (ar_service a)), (''action'', JStr (action_verb (ar_action a))),
     (''success'', JBool (ar_success a)), (''message'', JStr (err_text lk (ar_message a)))]"

subsection \<open>System metrics\<close>

definition enc_info :: "system_info \<Rightarrow> json" where
  "enc_info s = JObj
     ([(''hostname'', JStr (sy_hostname s)), (''os'', JStr (sy_os s)),
       (''kernel_version'', JStr (sy_kernel_version s)), (''architecture'', JStr (sy_architecture s)),
       (''uptime'', enc_i64 (sy_uptime s)), (''boot_time'', enc_i64 (sy_boot_time s))] @
      omit_empty (sy_vm_id s = []) ''vm_id'' (JStr (sy_vm_id s)) @
      omit_empty (sy_tenant_id s = []) ''tenant_id'' (JStr (sy_tenant_id s)))"

definition enc_cpu :: "'x link \<Rightarrow> cpu_stats \<Rightarrow> json" where
  "enc_cpu lk c = (case cu_load_avg c of (l1, l5, l15) \<Rightarrow> JObj
     ([(''usage_pct'', enc_float lk (cu_usage_pct c)), (''core_count'', enc_int (cu_core_count c)),
       (''load_avg'', JArr [enc_float lk l1, enc_float lk l5, enc_float lk l15])] @
      omit_empty (cu_cores c = []) ''cores''
        (JArr (map (\<lambda>k. JObj [(''id'', enc_nat (co_id k)), (''usage_pct'', enc_float lk (co_usage_pct k))]) (cu_cores c)))))"

definition enc_memory :: "'x link \<Rightarrow> memory_stats \<Rightarrow> json" where
  "enc_memory lk m = JObj [(''total_bytes'', enc_u64 (me_total_bytes m)), (''used_bytes'', enc_u64 (me_used_bytes m)),
     (''usage_pct'', enc_float lk (me_usage_pct m))]"

definition enc_disk_io :: "'x link \<Rightarrow> disk_io \<Rightarrow> json" where
  "enc_disk_io lk d = JObj [(''read_bytes_per_s'', enc_float lk (dio_read_bytes_per_s d)),
     (''write_bytes_per_s'', enc_float lk (dio_write_bytes_per_s d)), (''read_iops'', enc_float lk (dio_read_iops d)),
     (''write_iops'', enc_float lk (dio_write_iops d)), (''util_pct'', enc_float lk (dio_util_pct d))]"

definition enc_disk :: "'x link \<Rightarrow> disk_entry \<Rightarrow> json" where
  "enc_disk lk d = JObj
     ([(''device'', JStr (de_device d)), (''mountpoint'', JStr (de_mountpoint d)),
       (''total_bytes'', enc_u64 (de_total_bytes d)), (''used_bytes'', enc_u64 (de_used_bytes d)),
       (''usage_pct'', enc_float lk (de_usage_pct d))] @
      (case de_io d of None \<Rightarrow> [] | Some io \<Rightarrow> [(''io'', enc_disk_io lk io)]))"

definition enc_net :: "network_entry \<Rightarrow> json" where
  "enc_net n = JObj [(''interface'', JStr (ne_interface n)), (''bytes_sent'', enc_u64 (ne_bytes_sent n)),
     (''bytes_recv'', enc_u64 (ne_bytes_recv n)), (''is_up'', JBool (ne_is_up n))]"

definition enc_metrics :: "'x link \<Rightarrow> system_metrics \<Rightarrow> json" where
  "enc_metrics lk m = JObj [(''cpu'', enc_cpu lk (sx_cpu m)), (''memory'', enc_memory lk (sx_memory m)),
     (''disks'', enc_appended (enc_disk lk) (sx_disks m)), (''network'', enc_appended enc_net (sx_network m))]"

end
