(* ===== verification/Publisher.thy ===== *)
theory Publisher
  imports Encode
begin

section \<open>The publisher (internal/publisher)\<close>

text \<open>
  The capabilities catalog, the periodic events and the two channels the publisher shares with other
  goroutines: the audit events it drains into batches, and the one-place channel through which a command
  changes the telemetry interval. The first is a step relation of the tailer and the audit loop, the
  second one of the command handler and the telemetry loop.
\<close>

subsection \<open>The agent\<close>

text \<open>What does not change while the agent runs, and what does.\<close>

record 'x env =
  ge_os :: "'x os"
  ge_link :: "'x link"
  ge_gops :: "'x gops"
  ge_svc :: "'x manager"
  ge_exec :: executor
  ge_s3 :: s3_config
  ge_agent :: agent_config
  ge_client :: nats_client
  ge_uuid :: string
  ge_type :: string

record 'x agent =
  ag_world :: "'x world"
  ag_sys :: sys_module
  ag_traffic :: nat
  ag_chan :: "int option"
  ag_desired :: "full_sync_payload option"

text \<open>Build an envelope with this payload and publish it; any error is only logged.\<close>

definition publish_event :: "'x env \<Rightarrow> msg_type \<Rightarrow> json \<Rightarrow> 'x world \<Rightarrow> bool \<times> 'x world" where
  "publish_event env t payload w =
     (case New (ge_os env) (ge_link env) (ge_uuid env) (ge_type env) (type_str t) (Inr payload) w of
        (Inl _, w') \<Rightarrow> (False, w')
      | (Inr e, w') \<Rightarrow> (let (r, w'') = Publish (ge_link env) (ge_client env) e w' in (is_ok r, w'')))"

subsection \<open>Capabilities\<close>

record op_param =
  pa_name :: string
  pa_type :: string
  pa_required :: bool
  pa_description :: string
  pa_min_value :: "int option"

record op_schema =
  sc_operation :: string
  sc_description :: string
  sc_params :: "op_param list"

record capabilities =
  ca_operations :: "op_schema list"
  ca_exec_commands :: "string list"

definition param :: "string \<Rightarrow> string \<Rightarrow> bool \<Rightarrow> string \<Rightarrow> int option \<Rightarrow> op_param" where
  "param n t r d m = \<lparr>pa_name = n, pa_type = t, pa_required = r, pa_description = d, pa_min_value = m\<rparr>"

definition schema :: "string \<Rightarrow> string \<Rightarrow> op_param list \<Rightarrow> op_schema" where
  "schema op d ps = \<lparr>sc_operation = op, sc_description = d, sc_params = ps\<rparr>"

definition machine_catalog :: "op_schema list" where
  "machine_catalog = [
      schema ''agent.allowed_operations'' ''Return and re-publish the current capabilities list.''
        [],
      schema ''services.list'' ''List all loaded systemd services on the machine.''
        [],
      schema ''services.get'' ''Get detailed status of a single systemd service.''
        [param ''name'' ''string'' True ''Service name (e.g. weed-master).'' None],
      schema ''services.start'' ''Start a stopped systemd service.''
        [param ''name'' ''string'' True ''Service name to start.'' None],
      schema ''services.stop'' ''Stop a running systemd service.''
        [param ''name'' ''string'' True ''Service name to stop.'' None],
      schema ''services.restart'' ''Restart a systemd service.''
        [param ''name'' ''string'' True ''Service name to restart.'' None],
      schema ''services.reload'' ''Send a reload signal to a running service.''
        [param ''name'' ''string'' True ''Service name to reload.'' None],
      schema ''services.enable'' ''Enable a service to start automatically on boot.''
        [param ''name'' ''string'' True ''Service name to enable.'' None],
      schema ''services.disable'' ''Disable a service from starting automatically on boot.''
        [param ''name'' ''string'' True ''Service name to disable.'' None],
      schema ''system.info'' ''Return static system information (hostname, OS, kernel, uptime).''
        [],
      schema ''system.metrics'' ''Return a full resource snapshot (CPU, memory, disk, network).''
        [],
      schema ''system.cpu'' ''Return CPU usage, core count, load averages, and per-core usage.''
        [],
      schema ''system.memory'' ''Return RAM utilisation.''
        [],
      schema ''system.disk'' ''Return disk usage and I/O stats for all real block-device partitions.''
        [],
      schema ''system.network'' ''Return network I/O counters for all physical interfaces.''
        [],
      schema ''system.update'' ''Run apt-get update && apt-get upgrade -y. Ubuntu/Debian only.''
        [],
      schema ''telemetry.set_interval'' ''Change the telemetry push interval at runtime. Minimum 5 seconds.''
        [param ''interval_s'' ''integer'' True ''New telemetry interval in seconds.'' (Some 1)],
      schema ''vm.reboot'' ''Reboot the machine immediately.''
        [],
      schema ''vm.shutdown'' ''Shut down the machine immediately.''
        [],
      schema ''exec'' ''Execute an allowed binary on the machine.''
        [param ''command'' ''string'' True ''Absolute path of the binary to run.'' None,
         param ''args'' ''array'' False ''Arguments to pass to the binary.'' None]]"

definition storage_catalog :: "op_schema list" where
  "storage_catalog = [
      schema ''full_sync'' ''Apply the complete desired state (buckets + IAM users) from orchestration.''
        [],
      schema ''bucket_create'' ''Create a new S3 bucket on the SeaweedFS gateway.''
        [param ''name'' ''string'' True ''Bucket name.'' None,
         param ''bucket_id'' ''string'' False ''Orchestration bucket ID.'' None,
         param ''owner_tenant_id'' ''string'' False ''Owning tenant ID.'' None,
         param ''replication_factor'' ''integer'' False ''Replication factor.'' None],
      schema ''bucket_delete'' ''Delete an S3 bucket from the SeaweedFS gateway.''
        [param ''name'' ''string'' True ''Bucket name to delete.'' None,
         param ''force_empty'' ''string'' False ''Set true to delete all objects first.'' None],
      schema ''iam_create'' ''Create an IAM identity in s3.json and reload the S3 gateway.''
        [param ''name'' ''string'' True ''Identity name.'' None,
         param ''access_key'' ''string'' True ''AWS-style access key.'' None,
         param ''secret_key'' ''string'' True ''Secret key (never logged or returned).'' None],
      schema ''iam_delete'' ''Remove an IAM identity from s3.json and reload the S3 gateway.''
        [param ''name'' ''string'' True ''Identity name to remove.'' None],
      schema ''reconcile'' ''Re-run reconcile against the last received full_sync desired state.''
        [param ''scope'' ''string'' False ''\"buckets\", \"iam\", or \"all\" (default).'' None],
      schema ''s3.cluster.status'' ''Return the full SeaweedFS cluster and service health status.''
        [],
      schema ''s3.bucket.stats'' ''Return per-bucket object count and size from the filer API.''
        [],
      schema ''s3.iam.list'' ''List IAM identities from s3.json (secret keys redacted).''
        [],
      schema ''s3.customer.block'' ''Block a customer access key at the Nginx level and reload Nginx.''
        [param ''access_key'' ''string'' True ''Access key to block.'' None,
         param ''reason'' ''string'' False ''Reason for blocking (written into config comment).'' None],
      schema ''s3.customer.unblock'' ''Remove a customer access key block and reload Nginx.''
        [param ''access_key'' ''string'' True ''Access key to unblock.'' None],
      schema ''s3.blocked.list'' ''List all currently blocked access keys from s3_blocked_keys.conf.''
        []]"

definition operationCatalog :: "op_schema list" where
  "operationCatalog = machine_catalog @ storage_catalog"

definition enc_param :: "op_param \<Rightarrow> json" where
  "enc_param p = JObj
     ([(''name'', JStr (pa_name p)), (''type'', JStr (pa_type p)), (''required'', JBool (pa_required p)),
       (''description'', JStr (pa_description p))] @
      (case pa_min_value p of None \<Rightarrow> [] | Some v \<Rightarrow> [(''min_value'', enc_int v)]))"

definition enc_schema :: "op_schema \<Rightarrow> json" where
  "enc_schema s = JObj
     ([(''operation'', JStr (sc_operation s)), (''description'', JStr (sc_description s))] @
      omit_empty (sc_params s = []) ''params'' (JArr (map enc_param (sc_params s))))"

definition enc_capabilities :: "capabilities \<Rightarrow> json" where
  "enc_capabilities c = JObj
     ([(''operations'', JArr (map enc_schema (ca_operations c)))] @
      omit_empty (ca_exec_commands c = []) ''exec_commands'' (JArr (map JStr (ca_exec_commands c))))"

definition find_schema :: "string \<Rightarrow> op_schema option" where
  "find_schema op = find (\<lambda>s. sc_operation s = op) operationCatalog"

text \<open>With no configured operations the source is the whole catalog; the code walks a map there, in an unspecified
  order, so only statements that do not depend on the order are made about this case.\<close>

definition capabilities_of :: "agent_config \<Rightarrow> capabilities" where
  "capabilities_of cfg =
     (let source = (if AllowedOperations cfg = [] then map sc_operation operationCatalog
                    else AllowedOperations cfg)
      in \<lparr>ca_operations = List.map_filter find_schema source,
          ca_exec_commands = (if ''exec'' \<in> set source then AllowedCommands cfg else [])\<rparr>)"

definition sendCapabilities :: "'x env \<Rightarrow> 'x world \<Rightarrow> capabilities \<times> 'x world" where
  "sendCapabilities env w =
     (let payload = capabilities_of (ge_agent env) in
      (payload, snd (publish_event env TypeCapabilities (enc_capabilities payload) w)))"

definition SendCapabilities :: "'x env \<Rightarrow> 'x world \<Rightarrow> capabilities res \<times> 'x world" where
  "SendCapabilities env w = (let (payload, w') = sendCapabilities env w in (Inr payload, w'))"

subsection \<open>Periodic events\<close>

definition sendHeartbeat :: "'x env \<Rightarrow> 'x agent \<Rightarrow> 'x agent" where
  "sendHeartbeat env s =
     (let w = ag_world s in
      case GetInfo (ge_gops env) (ag_sys s) (ext w) of
        (Inl _, x') \<Rightarrow> s\<lparr>ag_world := w\<lparr>ext := x'\<rparr>\<rparr>
      | (Inr info, x') \<Rightarrow>
          s\<lparr>ag_world := snd (publish_event env TypeHeartbeat
               (JObj [(''version'', JStr AgentVersion), (''uptime_s'', enc_i64 (sy_uptime info)),
                      (''tasks_queued'', enc_int 0)]) (w\<lparr>ext := x'\<rparr>))\<rparr>)"

definition sendTelemetry :: "'x env \<Rightarrow> 'x agent \<Rightarrow> 'x agent" where
  "sendTelemetry env s =
     (let w = ag_world s in
      case GetMetrics (ge_os env) (ge_gops env) (ag_sys s, ext w) of
        (Inl _, m', x') \<Rightarrow> s\<lparr>ag_sys := m', ag_world := w\<lparr>ext := x'\<rparr>\<rparr>
      | (Inr mx, m', x') \<Rightarrow>
          s\<lparr>ag_sys := m',
            ag_world := snd (publish_event env TypeTelemetry (enc_metrics (ge_link env) mx) (w\<lparr>ext := x'\<rparr>))\<rparr>)"

text \<open>\<^verbatim>\<open>Observer.FlushTraffic\<close>, with the nil result where nothing was read.\<close>

definition FlushTraffic :: "'x env \<Rightarrow> 'x agent \<Rightarrow> traffic_stat slice \<times> 'x agent" where
  "FlushTraffic env s =
     (let (off, data) = tail_read (ge_os env) (NginxAccessLog (ge_s3 env)) (ag_traffic s) (ag_world s)
      in (if data = [] then None else Some (traffic_of data), s\<lparr>ag_traffic := off\<rparr>))"

text \<open>\<open>None\<close>: the panic of the cluster poll.\<close>

definition sendS3Telemetry :: "'x env \<Rightarrow> 'x agent \<Rightarrow> 'x agent option" where
  "sendS3Telemetry env s =
     (case PollCluster (ge_os env) (ge_s3 env) (Some (ge_svc env)) (ag_world s) of
        None \<Rightarrow> None
      | Some (components, w1) \<Rightarrow>
          let (r, w2) = BucketStats (ge_os env) (ge_s3 env) w1;
              buckets = (case r of Inl _ \<Rightarrow> None | Inr bs \<Rightarrow> Some bs);
              (traffic, s') = FlushTraffic env (s\<lparr>ag_world := w2\<rparr>)
          in Some (s'\<lparr>ag_world := snd (publish_event env TypeS3Telemetry
                        (enc_telemetry (ge_link env) components buckets traffic) (ag_world s'))\<rparr>))"

text \<open>The callback given to \<^verbatim>\<open>Watch\<close>.\<close>

definition publishHealth :: "'x env \<Rightarrow> cluster_components \<times> string \<Rightarrow> 'x agent \<Rightarrow> 'x agent" where
  "publishHealth env ev s =
     s\<lparr>ag_world := snd (publish_event env TypeS3Health (enc_s3_health (ge_link env) (fst ev) (snd ev)) (ag_world s))\<rparr>"

definition loop_interval :: "int \<Rightarrow> int" where
  "loop_interval d = (if d \<le> 0 then 30 * second else d)"

text \<open>
  One turn of \<^verbatim>\<open>telemetryLoop\<close>: a tick, or a new interval from the channel, which resets the ticker and
  reports at once. The loop's own state is the ticker period.
\<close>

datatype loop_event = Ticked | NewInterval

definition telemetry_turn :: "'x env \<Rightarrow> loop_event \<Rightarrow> int \<times> 'x agent \<Rightarrow> int \<times> 'x agent" where
  "telemetry_turn env e ds =
     (let (d, s) = ds in
      case e of
        Ticked \<Rightarrow> (d, sendTelemetry env s)
      | NewInterval \<Rightarrow>
          (case ag_chan s of
             None \<Rightarrow> (d, s)
           | Some d' \<Rightarrow> (d', sendTelemetry env (s\<lparr>ag_chan := None\<rparr>))))"

definition telemetryLoop :: "'x env \<Rightarrow> loop_event list \<Rightarrow> 'x agent \<Rightarrow> int \<times> 'x agent" where
  "telemetryLoop env es s =
     fold (telemetry_turn env) es (loop_interval (TelemetryInterval (ge_agent env)), sendTelemetry env s)"

definition heartbeatLoop :: "'x env \<Rightarrow> nat \<Rightarrow> 'x agent \<Rightarrow> 'x agent" where
  "heartbeatLoop env ticks s = (sendHeartbeat env ^^ ticks) (sendHeartbeat env s)"

fun s3TelemetryLoop :: "'x env \<Rightarrow> nat \<Rightarrow> 'x agent \<Rightarrow> 'x agent option" where
  "s3TelemetryLoop env 0 s = sendS3Telemetry env s"
| "s3TelemetryLoop env (Suc n) s =
     (case sendS3Telemetry env s of None \<Rightarrow> None | Some s' \<Rightarrow> s3TelemetryLoop env n s')"

subsection \<open>Changing the interval\<close>

definition minTelemetryInterval :: int where "minTelemetryInterval = 1 * second"

definition clamp_interval :: "int \<Rightarrow> int" where
  "clamp_interval d = (if d < minTelemetryInterval then minTelemetryInterval else d)"

text \<open>The call when no one else touches the channel: a waiting value is replaced.\<close>

definition SetTelemetryInterval :: "int \<Rightarrow> 'x agent \<Rightarrow> int \<times> 'x agent" where
  "SetTelemetryInterval d s = (clamp_interval d, s\<lparr>ag_chan := Some (clamp_interval d)\<rparr>)"

text \<open>
  The call next to the telemetry loop, one channel operation per step. \<open>SetTrying\<close> is before the select,
  \<open>SetFull\<close> in its default branch before the receive, \<open>SetDrained\<close> before the second send. Commands are
  handled one at a time, so there is one setter. \<open>iv_applied\<close> is what the loop received.
\<close>

datatype setter = SetIdle | SetTrying int | SetFull int | SetDrained int | SetDone int

record interval_state =
  iv_chan :: "int option"
  iv_setter :: setter
  iv_applied :: "int list"

inductive interval_step :: "interval_state \<Rightarrow> interval_state \<Rightarrow> bool" where
  call: "iv_setter s = SetIdle \<Longrightarrow> interval_step s (s\<lparr>iv_setter := SetTrying (clamp_interval d)\<rparr>)"
| send: "iv_setter s = SetTrying d \<Longrightarrow> iv_chan s = None \<Longrightarrow>
     interval_step s (s\<lparr>iv_chan := Some d, iv_setter := SetDone d\<rparr>)"
| default: "iv_setter s = SetTrying d \<Longrightarrow> iv_chan s \<noteq> None \<Longrightarrow> interval_step s (s\<lparr>iv_setter := SetFull d\<rparr>)"
| drain: "iv_setter s = SetFull d \<Longrightarrow> iv_chan s \<noteq> None \<Longrightarrow>
     interval_step s (s\<lparr>iv_chan := None, iv_setter := SetDrained d\<rparr>)"
| resend: "iv_setter s = SetDrained d \<Longrightarrow> iv_chan s = None \<Longrightarrow>
     interval_step s (s\<lparr>iv_chan := Some d, iv_setter := SetDone d\<rparr>)"
| return: "iv_setter s = SetDone d \<Longrightarrow> interval_step s (s\<lparr>iv_setter := SetIdle\<rparr>)"
| loop_receives: "iv_chan s = Some d \<Longrightarrow>
     interval_step s (s\<lparr>iv_chan := None, iv_applied := iv_applied s @ [d]\<rparr>)"

definition interval_init :: interval_state where
  "interval_init = \<lparr>iv_chan = None, iv_setter = SetIdle, iv_applied = []\<rparr>"

inductive interval_reach :: "interval_state \<Rightarrow> bool" where
  init: "interval_reach interval_init"
| step: "interval_reach s \<Longrightarrow> interval_step s t \<Longrightarrow> interval_reach t"

inductive_simps interval_step_simps: "interval_step s t"

subsection \<open>Audit batches\<close>

text \<open>
  The audit loop next to the tailer: receive a first event, drain what is queued, publish the batch. The
  tailer may offer events between any two steps. Ghosts: all offered events, and the batches handed to
  NATS with whether the publication succeeded.
\<close>

record audit_state =
  au_tailer :: audit_tailer
  au_batch :: "audit_event list option"
  au_sent :: "(audit_event list \<times> bool) list"
  au_offered :: "audit_event list"

inductive audit_step :: "audit_state \<Rightarrow> audit_state \<Rightarrow> bool" where
  offered: "audit_step s (s\<lparr>au_tailer := offer e (au_tailer s), au_offered := au_offered s @ [e]\<rparr>)"
| first: "au_batch s = None \<Longrightarrow> audit_recv (au_tailer s) = Some (e, t) \<Longrightarrow>
     audit_step s (s\<lparr>au_tailer := t, au_batch := Some [e]\<rparr>)"
| more: "au_batch s = Some b \<Longrightarrow> audit_recv (au_tailer s) = Some (e, t) \<Longrightarrow>
     audit_step s (s\<lparr>au_tailer := t, au_batch := Some (b @ [e])\<rparr>)"
| publish: "au_batch s = Some b \<Longrightarrow> audit_recv (au_tailer s) = None \<Longrightarrow>
     audit_step s (s\<lparr>au_batch := None, au_sent := au_sent s @ [(b, ok)]\<rparr>)"

definition audit_init :: audit_state where
  "audit_init = \<lparr>au_tailer = \<lparr>at_offset = 0, at_ch = [], at_dropped = []\<rparr>, au_batch = None, au_sent = [],
     au_offered = []\<rparr>"

inductive audit_reach :: "audit_state \<Rightarrow> bool" where
  audit_start: "audit_reach audit_init"
| audit_next: "audit_reach s \<Longrightarrow> audit_step s t \<Longrightarrow> audit_reach t"

text \<open>The envelope of a batch.\<close>

definition publish_batch :: "'x env \<Rightarrow> audit_event list \<Rightarrow> 'x world \<Rightarrow> bool \<times> 'x world" where
  "publish_batch env batch w =
     publish_event env TypeS3Audit (JObj [(''events'', JArr (map (enc_audit_event (ge_link env)) batch))]) w"

subsection \<open>Lemmas on the interval channel\<close>

definition setter_value :: "setter \<Rightarrow> int option" where
  "setter_value p = (case p of SetIdle \<Rightarrow> None | SetTrying d \<Rightarrow> Some d | SetFull d \<Rightarrow> Some d
     | SetDrained d \<Rightarrow> Some d | SetDone d \<Rightarrow> Some d)"

definition interval_inv :: "interval_state \<Rightarrow> bool" where
  "interval_inv s \<longleftrightarrow>
     (\<forall>d \<in> set (iv_applied s) \<union> set_option (iv_chan s) \<union> set_option (setter_value (iv_setter s)).
        minTelemetryInterval \<le> d) \<and>
     (\<forall>d. iv_setter s = SetDrained d \<longrightarrow> iv_chan s = None)"

lemma clamp_interval_ge [simp]: "minTelemetryInterval \<le> clamp_interval d"
  by (simp add: clamp_interval_def)

lemma interval_inv_step: "interval_step s t \<Longrightarrow> interval_inv s \<Longrightarrow> interval_inv t"
  by (induction rule: interval_step.induct) (auto simp: interval_inv_def setter_value_def)

lemma interval_reach_inv: "interval_reach s \<Longrightarrow> interval_inv s"
proof (induction rule: interval_reach.induct)
  case init
  show ?case by (simp add: interval_inv_def interval_init_def setter_value_def)
next
  case (step s t)
  then show ?case by (blast intro: interval_inv_step)
qed

text \<open>Where the machine can stop: only a setter that waits for a value someone else has taken.\<close>

lemma interval_stuck_iff:
  assumes "interval_reach s"
  shows "(\<nexists>t. interval_step s t) \<longleftrightarrow> (\<exists>d. iv_setter s = SetFull d) \<and> iv_chan s = None"
proof -
  have inv: "interval_inv s" using assms by (rule interval_reach_inv)
  have "\<exists>t. interval_step s t" if "\<not> ((\<exists>d. iv_setter s = SetFull d) \<and> iv_chan s = None)"
  proof (cases "iv_chan s")
    case None
    then show ?thesis
      using that by (cases "iv_setter s") (blast intro: interval_step.intros)+
  qed (blast intro: loop_receives)
  moreover have "\<not> interval_step s t" if "iv_setter s = SetFull d" "iv_chan s = None" for d t
    using that by (auto elim: interval_step.cases)
  ultimately show ?thesis by blast
qed

subsection \<open>Properties of the interval channel\<close>

text \<open>
  Whatever values commands ask for and however they interleave with the telemetry loop, the loop
  never gets an interval below one second, and the second send of the call never blocks.
\<close>

theorem interval_bounds:
  assumes "interval_reach s"
  shows "(\<forall>d \<in> set (iv_applied s). minTelemetryInterval \<le> d) \<and>
    (\<forall>d. iv_setter s = SetDrained d \<longrightarrow> (\<exists>t. interval_step s t \<and> iv_setter t = SetDone d))"
proof -
  have "interval_inv s" using assms by (rule interval_reach_inv)
  then show ?thesis by (auto simp: interval_inv_def intro!: resend exI)
qed

text \<open>
  C22. The call may never return: when the telemetry loop takes the waiting value between the select and
  the receive of the call, the command handler waits for a value that nobody will send, and the agent
  handles no further command. This is the only way the two can stop.
\<close>

theorem interval_setter_blocks:
  "(\<exists>s. interval_reach s \<and> iv_setter s = SetFull (clamp_interval d) \<and> (\<nexists>t. interval_step s t)) \<and>
   (\<forall>s. interval_reach s \<longrightarrow> (\<nexists>t. interval_step s t) \<longrightarrow> (\<exists>d. iv_setter s = SetFull d) \<and> iv_chan s = None)"
proof -
  let ?d = "clamp_interval d"
  define s1 where "s1 = \<lparr>iv_chan = None, iv_setter = SetTrying ?d, iv_applied = []\<rparr>"
  define s2 where "s2 = \<lparr>iv_chan = Some ?d, iv_setter = SetDone ?d, iv_applied = []\<rparr>"
  define s3 where "s3 = \<lparr>iv_chan = Some ?d, iv_setter = SetIdle, iv_applied = []\<rparr>"
  define s4 where "s4 = \<lparr>iv_chan = Some ?d, iv_setter = SetTrying ?d, iv_applied = []\<rparr>"
  define s5 where "s5 = \<lparr>iv_chan = Some ?d, iv_setter = SetFull ?d, iv_applied = []\<rparr>"
  define s6 where "s6 = \<lparr>iv_chan = None, iv_setter = SetFull ?d, iv_applied = [?d]\<rparr>"
  have "interval_step interval_init s1" "interval_step s1 s2" "interval_step s2 s3" "interval_step s3 s4"
    "interval_step s4 s5" "interval_step s5 s6"
    by (auto simp: interval_step_simps interval_init_def s1_def s2_def s3_def s4_def s5_def s6_def)
  then have r: "interval_reach s6" by (meson interval_reach.intros)
  then have "iv_setter s6 = SetFull ?d" "\<nexists>t. interval_step s6 t"
    using interval_stuck_iff[OF r] by (simp_all add: s6_def)
  then show ?thesis using r interval_stuck_iff by blast
qed

theorem interval_setter_blocks_witness:
  "\<exists>s. interval_reach s \<and> (\<nexists>t. interval_step s t) \<and> iv_setter s = SetFull (clamp_interval 0) \<and> iv_chan s = None"
  using interval_setter_blocks[of 0] by blast

definition sample_applied :: interval_state where
  "sample_applied = \<lparr>iv_chan = None, iv_setter = SetDone (clamp_interval 0), iv_applied = [clamp_interval 0]\<rparr>"

theorem interval_bounds_witness:
  "\<forall>d \<in> set (iv_applied sample_applied). minTelemetryInterval \<le> d"
proof -
  let ?d = "clamp_interval 0"
  define s1 where "s1 = \<lparr>iv_chan = None, iv_setter = SetTrying ?d, iv_applied = []\<rparr>"
  define s2 where "s2 = \<lparr>iv_chan = Some ?d, iv_setter = SetDone ?d, iv_applied = []\<rparr>"
  have "interval_step interval_init s1" "interval_step s1 s2" "interval_step s2 sample_applied"
    by (auto simp: interval_step_simps interval_init_def s1_def s2_def sample_applied_def)
  then have "interval_reach sample_applied" by (meson interval_reach.intros)
  from interval_bounds[OF this] show ?thesis by blast
qed

subsection \<open>Properties of the audit pipeline\<close>

definition audit_out :: "audit_state \<Rightarrow> audit_event list" where
  "audit_out s = concat (map fst (au_sent s)) @ (case au_batch s of None \<Rightarrow> [] | Some b \<Rightarrow> b) @ at_ch (au_tailer s)"

definition audit_inv :: "audit_state \<Rightarrow> bool" where
  "audit_inv s \<longleftrightarrow>
     au_offered s \<in> shuffles (audit_out s) (at_dropped (au_tailer s)) \<and>
     length (at_ch (au_tailer s)) \<le> audit_capacity \<and>
     (\<forall>b \<in> fst ` set (au_sent s) \<union> set_option (au_batch s). b \<noteq> [])"

lemma shuffles_snoc_one: "ys @ [e] \<in> shuffles [e] ys"
  by (induction ys) (auto simp: Cons_in_shuffles_iff)

lemma shuffles_snoc_left: "zs \<in> shuffles xs ys \<Longrightarrow> zs @ [e] \<in> shuffles (xs @ [e]) ys"
  by (induction xs ys arbitrary: zs rule: shuffles.induct) (auto simp: shuffles_snoc_one)

lemma shuffles_snoc_right: "zs \<in> shuffles xs ys \<Longrightarrow> zs @ [e] \<in> shuffles xs (ys @ [e])"
  using shuffles_snoc_left[of zs ys xs e] by (simp add: shuffles_commutes)

lemma audit_recv_Some: "audit_recv t = Some (e, t') \<longleftrightarrow> at_ch t = e # at_ch t' \<and> at_dropped t' = at_dropped t \<and> at_offset t' = at_offset t"
  by (cases t; cases t') (auto simp: audit_recv_def split: list.splits)

lemma audit_recv_None: "audit_recv t = None \<longleftrightarrow> at_ch t = []"
  by (simp add: audit_recv_def split: list.split)

lemma audit_inv_step: "audit_step s t \<Longrightarrow> audit_inv s \<Longrightarrow> audit_inv t"
proof (induction rule: audit_step.induct)
  case (offered s e)
  then show ?case
    by (auto simp: audit_inv_def audit_out_def offer_def shuffles_snoc_right
        simp flip: append_assoc intro: shuffles_snoc_left)
qed (auto simp: audit_inv_def audit_out_def audit_recv_Some audit_recv_None)

lemma audit_reach_inv: "audit_reach s \<Longrightarrow> audit_inv s"
proof (induction rule: audit_reach.induct)
  case audit_start
  show ?case by (simp add: audit_inv_def audit_init_def audit_out_def)
next
  case (audit_next s t)
  then show ?case by (blast intro: audit_inv_step)
qed


definition sample_event :: audit_event where
  "sample_event = \<lparr>ae_bucket = ''b'', ae_object_key = ''k'', ae_action = ''DELETE'', ae_size_bytes = 0,
     ae_retain_until = None, ae_access_key = [], ae_client_ip = [], ae_performed_at = 0\<rparr>"

definition sample_pipeline :: audit_state where
  "sample_pipeline = audit_init\<lparr>au_batch := None, au_sent := [([sample_event], True)], au_offered := [sample_event]\<rparr>"


end
