(* ===== verification/Blocklist.thy ===== *)
theory Blocklist
  imports Executor S3Types NamedStore
begin

section \<open>Nginx blocking of access keys (internal/modules/s3/manager.go)\<close>

text \<open>
  \<^verbatim>\<open>ListBlocked\<close>, \<^verbatim>\<open>BlockAccessKey\<close> and \<^verbatim>\<open>UnblockAccessKey\<close> edit the text of the Nginx include file
  \<^verbatim>\<open>s3_blocked_keys.conf\<close> line by line. The first part translates them on the bytes of that file.
  The second part gives the file its abstract meaning, a list of blocks and blank lines, and proves
  that the line surgery of the code implements adding and removing blocks, for keys that hold no
  quote and comments that quote no key. The last part shows what goes wrong without that.
\<close>

subsection \<open>bufio.Scanner\<close>

definition max_token :: int where "max_token = 65536"

definition drop_cr :: "string \<Rightarrow> string" where
  "drop_cr l = (if l \<noteq> [] \<and> last l = CHR 0x0D then butlast l else l)"

text \<open>
  The lines \<^verbatim>\<open>bufio.Scanner\<close> delivers: without their end of line, no empty line after a final
  newline, and nothing from the first line on that does not fit the scanner's buffer (the code does
  not look at \<^verbatim>\<open>scanner.Err\<close>).
\<close>

definition scan_lines :: "string \<Rightarrow> string list" where
  "scan_lines data =
     (let ls = split_on newline data;
          ls' = (if last ls = [] then butlast ls else ls)
      in map drop_cr (takeWhile (\<lambda>l. int (length l) < max_token) ls'))"

subsection \<open>The operations\<close>

definition if_marker :: string where
  "if_marker = ''if ($http_authorization ~*''"

definition key_of_line :: "string \<Rightarrow> string option" where
  "key_of_line raw =
     (let line = trim_space raw in
      if has_prefix line if_marker then
        (case (index_char quote line, last_index_char quote line) of
           (Some start, Some end_) \<Rightarrow>
             if start < end_ then Some (take (end_ - Suc start) (drop (Suc start) line)) else None
         | _ \<Rightarrow> None)
      else None)"

definition keys_of_file :: "string \<Rightarrow> string list" where
  "keys_of_file data = List.map_filter key_of_line (scan_lines data)"

definition ListBlocked :: "'x os \<Rightarrow> s3_config \<Rightarrow> 'x world \<Rightarrow> string list res" where
  "ListBlocked os cfg w =
     (case read_file os (NginxBlockedKeysFile cfg) w of
        RdError e \<Rightarrow> Inl (Wrap (''reading '' @ NginxBlockedKeysFile cfg) (OsErr e))
      | RdNotExist \<Rightarrow> Inr []
      | RdData d \<Rightarrow> Inr (keys_of_file d))"

definition quoted :: "string \<Rightarrow> string" where
  "quoted k = quote # k @ [quote]"

definition comment_line :: "string \<Rightarrow> string \<Rightarrow> string" where
  "comment_line reason date = ''# '' @ reason @ '' (blocked '' @ date @ '')''"

definition if_line :: "string \<Rightarrow> string" where
  "if_line k = if_marker @ '' '' @ quoted k @ '') {''"

definition quota_text :: string where
  "quota_text = ''Storage quota exceeded. Please contact support.''"

definition return_line :: string where
  "return_line = ''    return 403 '' @ quoted quota_text @ '';''"

definition block_entry :: "string \<Rightarrow> string \<Rightarrow> string \<Rightarrow> string" where
  "block_entry reason date k =
     newline # comment_line reason date @ newline # if_line k @ newline # return_line
       @ newline # ''}'' @ [newline]"

definition reload_nginx :: "executor \<Rightarrow> 'x os \<Rightarrow> 'x world \<Rightarrow> unit res \<times> 'x world" where
  "reload_nginx e os w =
     (let ((_, _, err), w') = Execute e os ''nginx'' [''-s'', ''reload''] w in
      (case err of None \<Rightarrow> Inr () | Some x \<Rightarrow> Inl (Wrap ''reloading nginx'' x), w'))"

definition BlockAccessKey ::
  "executor \<Rightarrow> 'x os \<Rightarrow> s3_config \<Rightarrow> string \<Rightarrow> string \<Rightarrow> 'x world \<Rightarrow> unit res \<times> 'x world" where
  "BlockAccessKey e os cfg key reason w =
     (if key = [] then (Inl (Msg ''access_key is required''), w)
      else
        let rd = read_file os (NginxBlockedKeysFile cfg) w in
        case rd of
          RdError x \<Rightarrow> (Inl (Wrap ''reading blocked keys file'' (OsErr x)), w)
        | _ \<Rightarrow>
            let data = (case rd of RdData d \<Rightarrow> d | _ \<Rightarrow> []) in
            if contains data (quoted key) then (Inr (), w)
            else
              (case atomic_write os (NginxBlockedKeysFile cfg)
                      (data @ block_entry reason (os_date os (ext w)) key) 0x1A4 w of
                 (Inl x, w') \<Rightarrow> (Inl x, w')
               | (Inr _, w') \<Rightarrow> reload_nginx e os w'))"

text \<open>
  The loop of \<^verbatim>\<open>UnblockAccessKey\<close>: \<open>skip\<close> counts the lines still to drop.
\<close>

fun unblock_lines :: "string \<Rightarrow> nat \<Rightarrow> string list \<Rightarrow> string list" where
  "unblock_lines k skip [] = []"
| "unblock_lines k (Suc skip) (line # ls) = unblock_lines k skip ls"
| "unblock_lines k 0 (line # ls) =
     (if has_prefix (trim_space line) ''#'' \<and> ls \<noteq> [] \<and> contains (hd ls) (quoted k) then
        unblock_lines k 3 ls
      else if contains line (quoted k) then unblock_lines k 2 ls
      else line # unblock_lines k 0 ls)"

definition unblock_text :: "string \<Rightarrow> string \<Rightarrow> string" where
  "unblock_text k data = join [newline] (unblock_lines k 0 (split_on newline data))"

definition UnblockAccessKey ::
  "executor \<Rightarrow> 'x os \<Rightarrow> s3_config \<Rightarrow> string \<Rightarrow> 'x world \<Rightarrow> unit res \<times> 'x world" where
  "UnblockAccessKey e os cfg key w =
     (if key = [] then (Inl (Msg ''access_key is required''), w)
      else
        (case read_file os (NginxBlockedKeysFile cfg) w of
           RdNotExist \<Rightarrow> (Inr (), w)
         | RdError x \<Rightarrow> (Inl (Wrap ''reading blocked keys file'' (OsErr x)), w)
         | RdData data \<Rightarrow>
             (case atomic_write os (NginxBlockedKeysFile cfg) (unblock_text key data) 0x1A4 w of
                (Inl x, w') \<Rightarrow> (Inl x, w')
              | (Inr _, w') \<Rightarrow> reload_nginx e os w')))"

subsection \<open>Quoted keys in lines\<close>

lemma contains_quoted_two:
  assumes "contains l (quoted k)" "l = u @ quote # m @ quote # v"
    and "quote \<notin> set u" "quote \<notin> set m" "quote \<notin> set v" "quote \<notin> set k"
  shows "k = m"
proof -
  from assms(1) obtain a b where l: "l = a @ quote # k @ quote # b"
    by (auto simp: contains_iff sublist_def quoted_def)
  have "length a = length u"
  proof -
    have cnt: "count_list l quote = 2"
      using assms(2-5) by (simp add: count_list_0_iff)
    then have "count_list a quote + count_list b quote = 0"
      using l assms(6) by (simp add: count_list_0_iff)
    then have "quote \<notin> set a" by (simp add: count_list_0_iff)
    then have "index_char quote l = Some (length a)"
      using l index_char_append[of quote a "k @ quote # b"] by simp
    moreover have "index_char quote l = Some (length u)"
      using assms(2,3) index_char_append[of quote u "m @ quote # v"] by simp
    ultimately show ?thesis by simp
  qed
  then have "k @ quote # b = m @ quote # v" using l assms(2) by simp
  then show ?thesis
    using index_char_append[OF assms(6), of b] index_char_append[OF assms(4), of v] by auto
qed

lemma contains_quoted_imp: "contains l (quoted k) \<Longrightarrow> quote \<in> set l"
  using not_contains_if_missing[of quote "quoted k" l] by (auto simp: quoted_def)

lemma contains_if_line: "contains (if_line k) (quoted k)"
  using contains_mid[of "if_marker @ '' ''" "quoted k" "'') {''"] by (simp add: if_line_def)

lemma contains_if_line_iff:
  assumes "quote \<notin> set k" "quote \<notin> set k'"
  shows "contains (if_line k') (quoted k) \<longleftrightarrow> k = k'"
proof
  assume c: "contains (if_line k') (quoted k)"
  show "k = k'"
    by (rule contains_quoted_two[OF c, of "if_marker @ '' ''" k' "'') {''"])
      (use assms in \<open>simp_all add: if_line_def quoted_def if_marker_def\<close>)
qed (simp add: contains_if_line)

lemma contains_return_line_iff:
  assumes "quote \<notin> set k"
  shows "contains return_line (quoted k) \<longleftrightarrow> k = quota_text"
proof
  assume c: "contains return_line (quoted k)"
  show "k = quota_text"
    by (rule contains_quoted_two[OF c, of "''    return 403 ''" quota_text "'';''"])
      (use assms in \<open>simp_all add: return_line_def quoted_def quota_text_def\<close>)
next
  assume "k = quota_text"
  then show "contains return_line (quoted k)"
    using contains_mid[of "''    return 403 ''" "quoted k" "'';''"] by (simp add: return_line_def)
qed

lemma comment_is_comment: "has_prefix (trim_space (comment_line r d)) ''#''"
proof -
  have "trim_space (comment_line r d) = comment_line r d"
    using trim_space_ends[of "CHR ''#''" "CHR '')''" "'' '' @ r @ '' (blocked '' @ d"]
    by (simp add: comment_line_def)
  then show ?thesis by (simp add: has_prefix_def comment_line_def)
qed

subsection \<open>Block and unblock on arbitrary file contents\<close>

lemma unblock_keep:
  assumes "\<forall>l \<in> set ls. \<not> contains l (quoted k)"
    and "rest = [] \<or> \<not> contains (hd rest) (quoted k)"
  shows "unblock_lines k 0 (ls @ rest) = ls @ unblock_lines k 0 rest"
  using assms(1)
proof (induction ls)
  case Nil
  then show ?case by simp
next
  case (Cons l ls)
  have "ls @ rest \<noteq> [] \<longrightarrow> \<not> contains (hd (ls @ rest)) (quoted k)"
    using Cons.prems assms(2) by (cases ls) auto
  then show ?case using Cons by auto
qed

lemma unblock_lines_clean: "l \<in> set (unblock_lines k n ls) \<Longrightarrow> \<not> contains l (quoted k) \<and> l \<in> set ls"
  by (induction k n ls rule: unblock_lines.induct) (auto split: if_splits)

lemma block_entry_lines:
  assumes "newline \<notin> set r" "newline \<notin> set d" "newline \<notin> set k"
  shows "split_on newline (data @ block_entry r d k)
    = split_on newline data @ [comment_line r d, if_line k, return_line, ''}'', []]"
proof -
  have c: "newline \<notin> set (comment_line r d)" "newline \<notin> set (if_line k)" "newline \<notin> set return_line"
    "newline \<notin> set ''}''"
    using assms by (simp_all add: comment_line_def if_line_def return_line_def quoted_def
        if_marker_def quota_text_def)
  show ?thesis
    by (simp add: block_entry_def split_on_append_sep[of newline data] split_on_line c)
qed

lemma split_on_not_contains:
  "\<not> contains data p \<Longrightarrow> l \<in> set (split_on c data) \<Longrightarrow> \<not> contains l p"
  using contains_sublist split_on_sublist by blast

lemma unblock_after_block_text:
  assumes "newline \<notin> set r" "newline \<notin> set d" "newline \<notin> set k"
    and "\<not> contains data (quoted k)" "\<not> contains (comment_line r d) (quoted k)"
  shows "unblock_text k (data @ block_entry r d k) = data @ [newline]"
proof -
  let ?rest = "[comment_line r d, if_line k, return_line, ''}'', []]"
  have "unblock_lines k 0 (split_on newline data @ ?rest)
      = split_on newline data @ unblock_lines k 0 ?rest"
    by (rule unblock_keep) (use assms split_on_not_contains in auto)
  also have "unblock_lines k 0 ?rest = [[]]"
    using contains_if_line[of k] comment_is_comment[of r d]
      contains_quoted_imp[of "[]" k]
    by (auto simp: numeral_3_eq_3)
  finally have "unblock_lines k 0 (split_on newline (data @ block_entry r d k)) = split_on newline data @ [[]]"
    by (simp add: block_entry_lines assms)
  then show ?thesis
    by (simp add: unblock_text_def join_append join_split)
qed

subsection \<open>What ListBlocked finds\<close>

lemma key_of_line_contains: "key_of_line l = Some k \<Longrightarrow> contains l (quoted k)"
proof -
  assume "key_of_line l = Some k"
  then obtain i j where ij: "index_char quote (trim_space l) = Some i"
      "last_index_char quote (trim_space l) = Some j" "i < j"
      "k = take (j - Suc i) (drop (Suc i) (trim_space l))"
    by (auto simp: key_of_line_def Let_def split: if_splits option.splits)
  let ?t = "trim_space l"
  have nth: "index_char quote s = Some i \<Longrightarrow> i < length s \<and> s ! i = quote" for s i
    by (induction s arbitrary: i) (auto split: if_splits simp: nth_Cons')
  have lnth: "last_index_char quote s = Some i \<Longrightarrow> i < length s \<and> s ! i = quote" for s i
    by (induction s arbitrary: i) (auto split: if_splits option.splits simp: nth_Cons')
  have i: "i < length ?t" "?t ! i = quote" and j: "j < length ?t" "?t ! j = quote"
    using nth[OF ij(1)] lnth[OF ij(2)] by auto
  have "?t = take i ?t @ quote # drop (Suc i) ?t"
    using i by (metis id_take_nth_drop)
  moreover have "drop (Suc i) ?t = k @ quote # drop (Suc j) ?t"
  proof -
    have "drop (Suc i) ?t = take (j - Suc i) (drop (Suc i) ?t) @ drop (j - Suc i) (drop (Suc i) ?t)"
      by (rule append_take_drop_id [symmetric])
    also have "drop (j - Suc i) (drop (Suc i) ?t) = drop j ?t" using ij(3) by simp
    also have "drop j ?t = quote # drop (Suc j) ?t" using j by (metis Cons_nth_drop_Suc)
    finally show ?thesis using ij(4) by simp
  qed
  ultimately have "sublist (quoted k) ?t"
    by (metis append_Cons append_assoc quoted_def sublist_def append_Nil)
  then show ?thesis
    using contains_sublist[OF trim_space_sublist[of l]] by (simp add: contains_iff)
qed

lemma key_of_if_line: "key_of_line (if_line k) = Some k"
proof -
  have t: "trim_space (if_line k) = if_line k"
    using trim_space_ends[of "CHR ''i''" "CHR ''{''" "drop 1 if_marker @ '' '' @ quoted k @ '') ''"]
    by (simp add: if_line_def if_marker_def)
  let ?u = "if_marker @ '' ''"
  have u: "quote \<notin> set ?u" by (simp add: if_marker_def)
  have "index_char quote (if_line k) = Some (length ?u)"
    using index_char_append[OF u, of "k @ quote # '') {''"] by (simp add: if_line_def quoted_def)
  moreover have "last_index_char quote (if_line k) = Some (length (?u @ quote # k))"
    using last_index_char_append[of quote "'') {''" "?u @ quote # k"]
    by (simp add: if_line_def quoted_def)
  moreover have "drop (Suc (length ?u)) (if_line k) = k @ quote # '') {''"
    by (simp add: if_line_def quoted_def)
  moreover have "has_prefix (if_line k) if_marker"
    by (simp add: has_prefix_def if_line_def)
  ultimately show ?thesis using t by (simp add: key_of_line_def)
qed

lemma key_of_line_other:
  "key_of_line (comment_line r d) = None" "key_of_line return_line = None"
  "key_of_line ''}'' = None" "key_of_line [] = None"
proof -
  have "trim_space (comment_line r d) = comment_line r d"
    using trim_space_ends[of "CHR ''#''" "CHR '')''" "'' '' @ r @ '' (blocked '' @ d"]
    by (simp add: comment_line_def)
  then show "key_of_line (comment_line r d) = None"
    by (simp add: key_of_line_def has_prefix_def comment_line_def if_marker_def)
  show "key_of_line return_line = None" "key_of_line ''}'' = None" "key_of_line [] = None"
    by code_simp+
qed

lemma drop_cr_sublist: "sublist (drop_cr l) l"
  by (simp add: drop_cr_def prefix_imp_sublist prefixeq_butlast)

lemma keys_of_file_line: "k \<in> set (keys_of_file data) \<Longrightarrow> \<exists>l \<in> set (split_on newline data). contains l (quoted k)"
proof -
  assume "k \<in> set (keys_of_file data)"
  then obtain l where l: "l \<in> set (split_on newline data)" "key_of_line (drop_cr l) = Some k"
    by (auto simp: keys_of_file_def scan_lines_def set_map_filter Let_def
        dest!: set_takeWhileD in_set_butlastD split: if_splits)
  then have "contains (drop_cr l) (quoted k)" by (simp add: key_of_line_contains)
  then have "contains l (quoted k)"
    using contains_sublist[OF drop_cr_sublist[of l]] by blast
  with l(1) show ?thesis by blast
qed

lemma unblocked_not_listed_text:
  "k \<notin> set (keys_of_file (unblock_text k data))"
proof
  let ?out = "unblock_lines k 0 (split_on newline data)"
  assume "k \<in> set (keys_of_file (unblock_text k data))"
  then obtain l where l: "l \<in> set (split_on newline (join [newline] ?out))" "contains l (quoted k)"
    using keys_of_file_line by (auto simp: unblock_text_def)
  have "\<forall>x \<in> set ?out. newline \<notin> set x"
    using unblock_lines_clean split_on_parts by blast
  then have "l = [] \<or> l \<in> set ?out"
    using l(1) split_join[of ?out newline] by (cases "?out = []") auto
  with l(2) show False
    using unblock_lines_clean contains_quoted_imp[of "[]" k] by fastforce
qed

lemma blocked_listed_text:
  assumes "newline \<notin> set r" "newline \<notin> set d" "newline \<notin> set k"
    and "\<forall>l \<in> set (split_on newline (data @ block_entry r d k)). int (length l) < max_token"
  shows "keys_of_file (data @ block_entry r d k) = keys_of_file (data @ [newline]) @ [k]"
proof -
  have "drop_cr (comment_line r d) = comment_line r d" "drop_cr (if_line k) = if_line k"
      "drop_cr return_line = return_line" "drop_cr ''}'' = ''}''"
    by (simp_all add: drop_cr_def comment_line_def if_line_def return_line_def)
  moreover have tw: "takeWhile (\<lambda>l. int (length l) < max_token) (split_on newline data) = split_on newline data"
    using assms by (intro takeWhile_all) (simp add: block_entry_lines)
  moreover have "scan_lines (data @ block_entry r d k)
      = map drop_cr (split_on newline data @ [comment_line r d, if_line k, return_line, ''}''])"
    using assms(4) takeWhile_all[of "split_on newline data @ [comment_line r d, if_line k, return_line, ''}'']"
          "\<lambda>l. int (length l) < max_token"]
    by (simp add: scan_lines_def Let_def block_entry_lines assms(1-3) butlast_append)
  moreover have "scan_lines (data @ [newline]) = map drop_cr (split_on newline data)"
    by (simp add: scan_lines_def Let_def tw split_on_append_sep butlast_append)
  ultimately show ?thesis
    by (simp add: keys_of_file_def key_of_if_line key_of_line_other)
qed

subsection \<open>The file as a list of blocks\<close>

text \<open>
  The abstract state of the file: blocks with their reason, date and key, and the blank lines that
  the entries bring with them. \<open>file_of\<close> is the text it stands for.
\<close>

datatype block_item = Blank | Block string string string

fun item_lines :: "block_item \<Rightarrow> string list" where
  "item_lines Blank = [[]]"
| "item_lines (Block r d k) = [comment_line r d, if_line k, return_line, ''}'']"

fun item_key :: "block_item \<Rightarrow> string option" where
  "item_key Blank = None"
| "item_key (Block r d k) = Some k"

definition lines_of :: "block_item list \<Rightarrow> string list" where
  "lines_of items = concat (map item_lines items)"

definition file_of :: "block_item list \<Rightarrow> string" where
  "file_of items = join [newline] (lines_of items)"

text \<open>
  Keys and comments the code can handle: no newline, no quote, and short enough for the scanner.
\<close>

definition plain :: "string \<Rightarrow> bool" where
  "plain s \<longleftrightarrow> newline \<notin> set s \<and> quote \<notin> set s \<and> length s < 10000"

fun ok_item :: "block_item \<Rightarrow> bool" where
  "ok_item Blank = True"
| "ok_item (Block r d k) = (plain r \<and> plain d \<and> plain k)"

definition ok_items :: "block_item list \<Rightarrow> bool" where
  "ok_items items \<longleftrightarrow> items \<noteq> [] \<and> (\<forall>i \<in> set items. ok_item i) \<and> last items = Blank"

definition item_keys :: "block_item list \<Rightarrow> string list" where
  "item_keys items = List.map_filter item_key items"

definition add_item :: "string \<times> string \<times> string \<Rightarrow> block_item list \<Rightarrow> block_item list" where
  "add_item e items = (case e of (r, d, k) \<Rightarrow>
     if k \<in> set (item_keys items) then items else items @ [Block r d k, Blank])"

definition del_item :: "string \<Rightarrow> block_item list \<Rightarrow> block_item list" where
  "del_item k items = filter (\<lambda>i. item_key i \<noteq> Some k) items"

lemma item_keys_simps [simp]:
  "item_keys [] = []"
  "item_keys (Blank # its) = item_keys its"
  "item_keys (Block r d k # its) = k # item_keys its"
  "item_keys (its @ js) = item_keys its @ item_keys js"
  by (simp_all add: item_keys_def)

lemma set_item_keys: "set (item_keys items) = {k. \<exists>i \<in> set items. item_key i = Some k}"
  by (simp add: item_keys_def set_map_filter)

interpretation blocked: named_store item_keys ok_items "\<lambda>(r, d, k). plain r \<and> plain d \<and> plain k"
  "\<lambda>(r, d, k). k" add_item del_item
proof (unfold_locales, goal_cases)
  case (1 s e)
  then show ?case by (auto simp: add_item_def split: prod.splits)
next
  case (2 s n)
  then show ?case by (auto simp: del_item_def set_item_keys)
next
  case (3 s e)
  then show ?case by (auto simp: add_item_def ok_items_def split: prod.splits)
next
  case (4 s n)
  then have "s \<noteq> []" "last s = Blank" by (auto simp: ok_items_def)
  then obtain t where t: "s = t @ [Blank]" by (metis append_butlast_last_id)
  then show ?case using 4 by (auto simp: del_item_def ok_items_def)
qed

lemma del_item_absent: "k \<notin> set (item_keys items) \<Longrightarrow> del_item k items = items"
  by (auto simp: del_item_def set_item_keys filter_eq_self_iff)

lemma comment_no_quote: "plain r \<Longrightarrow> plain d \<Longrightarrow> quote \<notin> set (comment_line r d)"
  by (simp add: comment_line_def plain_def)

lemma lines_of_Cons [simp]: "lines_of (i # its) = item_lines i @ lines_of its"
  by (simp add: lines_of_def)

lemma lines_of_Nil [simp]: "lines_of [] = []"
  by (simp add: lines_of_def)

lemma lines_of_append [simp]: "lines_of (its @ js) = lines_of its @ lines_of js"
  by (simp add: lines_of_def)

lemma hd_lines_no_quote: "\<forall>i \<in> set items. ok_item i \<Longrightarrow> lines_of items \<noteq> [] \<Longrightarrow> quote \<notin> set (hd (lines_of items))"
proof (cases items)
  case (Cons i its)
  assume "\<forall>i \<in> set items. ok_item i"
  with Cons show ?thesis by (cases i) (simp_all add: comment_no_quote)
qed simp

lemma unblock_lines_of:
  assumes "\<forall>i \<in> set items. ok_item i" "quote \<notin> set k" "k \<noteq> quota_text"
  shows "unblock_lines k 0 (lines_of items) = lines_of (del_item k items)"
  using assms(1)
proof (induction items)
  case Nil
  then show ?case by (simp add: del_item_def)
next
  case (Cons i items)
  have hd: "\<not> contains (hd (lines_of items)) (quoted k)" if "lines_of items \<noteq> []"
    using hd_lines_no_quote[of items] Cons.prems that contains_quoted_imp by auto
  have ret: "\<not> contains return_line (quoted k)"
    using assms(2,3) by (simp add: contains_return_line_iff)
  have brace: "\<not> contains ''}'' (quoted k)"
    using contains_quoted_imp[of "''}''" k] by auto
  show ?case
  proof (cases i)
    case Blank
    then show ?thesis
      using Cons hd contains_quoted_imp[of "[]" k] by (auto simp: del_item_def)
  next
    case (Block r d k')
    have com: "\<not> contains (comment_line r d) (quoted k)"
      using Cons.prems Block contains_quoted_imp[of "comment_line r d" k] comment_no_quote by auto
    have if_: "contains (if_line k') (quoted k) \<longleftrightarrow> k = k'"
      using Cons.prems Block assms(2) by (simp add: contains_if_line_iff plain_def)
    show ?thesis
      using Cons Block hd com if_ ret brace comment_is_comment[of r d]
      by (auto simp: del_item_def numeral_3_eq_3)
  qed
qed

lemma lines_of_no_newline: "\<forall>i \<in> set items. ok_item i \<Longrightarrow> \<forall>l \<in> set (lines_of items). newline \<notin> set l"
proof (induction items)
  case (Cons i items)
  then show ?case
    by (cases i) (auto simp: comment_line_def if_line_def return_line_def quoted_def if_marker_def
        quota_text_def plain_def)
qed simp

lemma lines_of_nonempty: "items \<noteq> [] \<Longrightarrow> lines_of items \<noteq> []"
proof (cases items)
  case (Cons i its)
  then show ?thesis by (cases i) simp_all
qed simp

lemma split_file_of:
  "ok_items items \<Longrightarrow> split_on newline (file_of items) = lines_of items"
  unfolding file_of_def ok_items_def
  by (intro split_join) (auto simp: lines_of_nonempty dest: lines_of_no_newline)

text \<open>Unblocking the text is deleting from the list.\<close>

lemma unblock_file_of:
  assumes "ok_items items" "plain k" "k \<noteq> quota_text"
  shows "unblock_text k (file_of items) = file_of (del_item k items)"
  using assms unblock_lines_of[of items k]
  by (simp add: unblock_text_def split_file_of) (simp add: file_of_def ok_items_def plain_def)

text \<open>Appending an entry to the text is adding to the list.\<close>

lemma block_file_of:
  assumes "ok_items items" "plain r" "plain d" "plain k" "k \<notin> set (item_keys items)"
  shows "file_of items @ block_entry r d k = file_of (add_item (r, d, k) items)"
proof -
  have ok': "ok_items (items @ [Block r d k, Blank])"
    using assms by (simp add: ok_items_def)
  have "split_on newline (file_of items @ block_entry r d k)
      = lines_of (items @ [Block r d k, Blank])"
    using assms by (simp add: block_entry_lines split_file_of plain_def)
  then have "join [newline] (split_on newline (file_of items @ block_entry r d k))
      = file_of (items @ [Block r d k, Blank])"
    by (simp add: file_of_def)
  then show ?thesis using assms(5) by (simp add: join_split add_item_def)
qed

text \<open>The guard of \<^verbatim>\<open>BlockAccessKey\<close> is membership in the list.\<close>

lemma sublist_join_lines:
  assumes "sublist p (join [newline] ls)" "newline \<notin> set p" "p \<noteq> []"
  shows "\<exists>l \<in> set ls. sublist p l"
  using assms(1)
proof (induction ls)
  case Nil
  then show ?case using assms(3) by (simp add: sublist_Nil_right)
next
  case (Cons l ls)
  show ?case
  proof (cases "ls = []")
    case True
    then show ?thesis using Cons.prems by (simp add: join_Cons)
  next
    case False
    then have "sublist p (l @ newline # join [newline] ls)"
      using Cons.prems by (simp add: join_Cons)
    then obtain u v where uv: "l @ newline # join [newline] ls = u @ p @ v"
      by (auto simp: sublist_def)
    then consider us where "l = u @ us" "us @ newline # join [newline] ls = p @ v"
      | us where "u = l @ us" "newline # join [newline] ls = us @ p @ v"
      by (auto simp: append_eq_append_conv2)
    then show ?thesis
    proof cases
      case 1
      then obtain ws where "us = p @ ws \<or> p = us @ ws" by (auto simp: append_eq_append_conv2)
      then show ?thesis
      proof
        assume "us = p @ ws"
        with 1(1) have "sublist p l" unfolding sublist_def by blast
        then show ?thesis by simp
      next
        assume p: "p = us @ ws"
        with 1 have "newline # join [newline] ls = ws @ v" by simp
        then have "ws = []" using assms(2) p by (cases ws) auto
        with p 1(1) have "l = u @ p @ []" by simp
        then have "sublist p l" unfolding sublist_def by blast
        then show ?thesis by simp
      qed
    next
      case 2
      show ?thesis
      proof (cases us)
        case Nil
        then show ?thesis using 2 assms(2,3) by (cases p) auto
      next
        case (Cons a us')
        then have "sublist p (join [newline] ls)" using 2 by (auto simp: sublist_def)
        then show ?thesis using Cons.IH by auto
      qed
    qed
  qed
qed

lemma sublist_of_join: "l \<in> set ls \<Longrightarrow> sublist l (join sep ls)"
proof (induction ls)
  case (Cons x ls)
  show ?case
  proof (cases "ls = []")
    case True
    then show ?thesis using Cons.prems by (simp add: join_Cons)
  next
    case False
    then have j: "join sep (x # ls) = x @ sep @ join sep ls" by (simp add: join_Cons)
    show ?thesis
    proof (cases "l = x")
      case True
      then show ?thesis using j by simp
    next
      case False
      then have "sublist l (join sep ls)" using Cons by simp
      then show ?thesis unfolding j by (simp add: sublist_append)
    qed
  qed
qed simp

lemma contains_file_of_iff:
  assumes "ok_items items" "plain k" "k \<noteq> quota_text"
  shows "contains (file_of items) (quoted k) \<longleftrightarrow> k \<in> set (item_keys items)"
proof
  assume "contains (file_of items) (quoted k)"
  then have "\<exists>l \<in> set (lines_of items). sublist (quoted k) l"
    using assms(2) by (intro sublist_join_lines) (auto simp: contains_iff file_of_def quoted_def plain_def)
  then obtain i l where i: "i \<in> set items" "l \<in> set (item_lines i)" "contains l (quoted k)"
    by (auto simp: lines_of_def contains_iff)
  have "ok_item i" using assms(1) i(1) by (simp add: ok_items_def)
  then have "item_key i = Some k"
    using i(2,3) assms(2,3) contains_quoted_imp[of l k]
    by (cases i) (auto simp: comment_no_quote contains_if_line_iff contains_return_line_iff plain_def
        dest: contains_quoted_imp)
  with i(1) show "k \<in> set (item_keys items)" by (auto simp: set_item_keys)
next
  assume "k \<in> set (item_keys items)"
  then obtain i where i: "i \<in> set items" "item_key i = Some k" by (auto simp: set_item_keys)
  from i(2) have "if_line k \<in> set (item_lines i)" by (cases i) simp_all
  with i(1) have "if_line k \<in> set (lines_of items)" by (auto simp: lines_of_def)
  then have "sublist (if_line k) (file_of items)"
    unfolding file_of_def by (rule sublist_of_join)
  then show "contains (file_of items) (quoted k)"
    using contains_sublist contains_if_line by blast
qed

text \<open>Listing the file is listing the blocks, in order.\<close>

lemma item_lines_scan:
  assumes "ok_item i"
  shows "map drop_cr (item_lines i) = item_lines i"
    "List.map_filter key_of_line (item_lines i) = (case item_key i of None \<Rightarrow> [] | Some k \<Rightarrow> [k])"
    "\<forall>l \<in> set (item_lines i). int (length l) < max_token"
proof -
  show "map drop_cr (item_lines i) = item_lines i"
    by (cases i) (simp_all add: drop_cr_def comment_line_def if_line_def return_line_def)
  show "List.map_filter key_of_line (item_lines i) = (case item_key i of None \<Rightarrow> [] | Some k \<Rightarrow> [k])"
    by (cases i) (simp_all add: key_of_line_other key_of_if_line)
  show "\<forall>l \<in> set (item_lines i). int (length l) < max_token"
    using assms
    by (cases i) (simp_all add: plain_def max_token_def comment_line_def if_line_def return_line_def
        if_marker_def quoted_def quota_text_def)
qed

lemma keys_of_file_of:
  assumes "ok_items items"
  shows "keys_of_file (file_of items) = item_keys items"
proof -
  from assms obtain its where its: "items = its @ [Blank]" "\<forall>i \<in> set its. ok_item i"
    by (metis append_butlast_last_id in_set_butlastD ok_items_def)
  have "map drop_cr (lines_of its) = lines_of its"
    using its(2) by (induction its) (simp_all add: item_lines_scan)
  moreover have "\<forall>l \<in> set (lines_of its). int (length l) < max_token"
    using its(2) item_lines_scan(3) by (induction its) auto
  moreover have "List.map_filter key_of_line (lines_of its) = item_keys its"
    using its(2) by (induction its) (simp_all add: item_lines_scan item_keys_def split: option.split)
  ultimately show ?thesis
    using split_file_of[OF assms]
    by (simp add: keys_of_file_def scan_lines_def its(1) Let_def takeWhile_eq_all_conv[THEN iffD2])
qed

subsection \<open>The operations on the file implement the store\<close>

text \<open>
  \<open>blocked_state cfg items w\<close>: the include file of \<open>w\<close> stands for \<open>items\<close>; a missing file stands for
  the empty one.
\<close>

definition blocked_state :: "s3_config \<Rightarrow> block_item list \<Rightarrow> 'x world \<Rightarrow> bool" where
  "blocked_state cfg items w \<longleftrightarrow> ok_items items \<and>
     (case fs w (NginxBlockedKeysFile cfg) of
        None \<Rightarrow> items = [Blank]
      | Some f \<Rightarrow> f_data f = file_of items)"

lemma reload_nginx_fs [frame_simps]: "fs (snd (reload_nginx e os w)) = fs w"
  by (auto simp: reload_nginx_def Execute_def split: prod.splits)

lemma blocked_state_cong:
  "fs w' (NginxBlockedKeysFile cfg) = fs w (NginxBlockedKeysFile cfg) \<Longrightarrow>
    blocked_state cfg items w' = blocked_state cfg items w"
  by (simp add: blocked_state_def)

lemma blocked_state_data:
  "blocked_state cfg items w \<Longrightarrow> read_file os (NginxBlockedKeysFile cfg) w = RdData d \<Longrightarrow> d = file_of items"
  "blocked_state cfg items w \<Longrightarrow> read_file os (NginxBlockedKeysFile cfg) w = RdNotExist \<Longrightarrow> items = [Blank]"
  by (auto simp: blocked_state_def read_file_Data read_file_NotExist)

lemma file_of_Blank: "file_of [Blank] = []"
  by (simp add: file_of_def)

text \<open>What writing the file does to the abstract state, whatever comes after it.\<close>

lemma write_blocked_state:
  assumes "temp_fresh os (NginxBlockedKeysFile cfg) w" "blocked_state cfg items w" "ok_items items'"
    and "atomic_write os (NginxBlockedKeysFile cfg) (file_of items') perm w = (r, w')"
  shows "blocked_state cfg (if is_ok r then items' else items) w'"
proof (cases r)
  case (Inl e)
  then have "fs w' (NginxBlockedKeysFile cfg) = fs w (NginxBlockedKeysFile cfg)"
    using atomic_write_err[OF temp_fresh_apart[OF assms(1)], of "file_of items'" perm e w'] assms(1,4)
    by (auto simp: temp_fresh_def)
  then show ?thesis using Inl assms(2) by (simp add: blocked_state_def)
next
  case (Inr u)
  then obtain f where "fs w' = (fs w)(NginxBlockedKeysFile cfg \<mapsto> f)" "f_data f = file_of items'"
    using atomic_write_ok[OF assms(1)] assms(4) by blast
  then show ?thesis using Inr assms(3) by (simp add: blocked_state_def)
qed

lemma read_as_data:
  assumes "blocked_state cfg items w" "read_file os (NginxBlockedKeysFile cfg) w = rd" "\<forall>x. rd \<noteq> RdError x"
  shows "(case rd of RdData d \<Rightarrow> d | _ \<Rightarrow> []) = file_of items"
  using assms blocked_state_data[OF assms(1)] by (cases rd) (auto simp: file_of_Blank)


lemma BlockAccessKey_cases:
  assumes "BlockAccessKey e os cfg k reason w = (r, w')" "temp_fresh os (NginxBlockedKeysFile cfg) w"
  obtains (unchanged) "\<not> is_ok r" "w' = w"
  | (present) rd where "is_ok r" "w' = w" "read_file os (NginxBlockedKeysFile cfg) w = rd"
      "\<forall>x. rd \<noteq> RdError x" "contains (case rd of RdData d \<Rightarrow> d | _ \<Rightarrow> []) (quoted k)"
  | (written) rd r1 w1 where "read_file os (NginxBlockedKeysFile cfg) w = rd" "\<forall>x. rd \<noteq> RdError x"
      "\<not> contains (case rd of RdData d \<Rightarrow> d | _ \<Rightarrow> []) (quoted k)"
      "atomic_write os (NginxBlockedKeysFile cfg)
         ((case rd of RdData d \<Rightarrow> d | _ \<Rightarrow> []) @ block_entry reason (os_date os (ext w)) k) 0x1A4 w = (r1, w1)"
      "fs w' = fs w1" "is_ok r \<Longrightarrow> is_ok r1" "k \<noteq> []"
proof (cases "k = []")
  case True
  then show ?thesis using assms that(1) by (auto simp: BlockAccessKey_def)
next
  case False
  let ?p = "NginxBlockedKeysFile cfg"
  obtain rd where rd: "read_file os ?p w = rd" by blast
  let ?d = "case rd of RdData d \<Rightarrow> d | _ \<Rightarrow> []"
  obtain r1 w1 where aw: "atomic_write os ?p (?d @ block_entry reason (os_date os (ext w)) k) 0x1A4 w = (r1, w1)"
    by fastforce
  show ?thesis
  proof (cases "\<exists>x. rd = RdError x")
    case True
    then show ?thesis using assms(1) False rd that(1) by (auto simp: BlockAccessKey_def Let_def)
  next
    case no_err: False
    show ?thesis
    proof (cases "contains ?d (quoted k)")
      case True
      then show ?thesis using assms(1) False rd no_err that(2)[of rd]
        by (cases rd) (auto simp: BlockAccessKey_def Let_def)
    next
      case nc: False
      have "(r, w') = (case r1 of Inl x \<Rightarrow> (Inl x, w1) | Inr _ \<Rightarrow> reload_nginx e os w1)"
        using assms(1) False rd no_err nc aw
        by (cases rd) (auto simp: BlockAccessKey_def Let_def split: sum.splits)
      then have "fs w' = fs w1" "is_ok r \<Longrightarrow> is_ok r1"
        using reload_nginx_fs[of e os w1] by (auto split: sum.splits) (metis snd_conv)
      then show ?thesis using that(3)[OF rd _ nc aw] no_err False by blast
    qed
  qed
qed

lemma UnblockAccessKey_cases:
  assumes "UnblockAccessKey e os cfg k w = (r, w')"
  obtains (unchanged) "\<not> is_ok r" "w' = w"
  | (missing) "is_ok r" "w' = w" "read_file os (NginxBlockedKeysFile cfg) w = RdNotExist"
  | (written) d r1 w1 where "read_file os (NginxBlockedKeysFile cfg) w = RdData d"
      "atomic_write os (NginxBlockedKeysFile cfg) (unblock_text k d) 0x1A4 w = (r1, w1)"
      "fs w' = fs w1" "is_ok r \<Longrightarrow> is_ok r1" "k \<noteq> []"
proof (cases "k = []")
  case True
  then show ?thesis using assms that(1) by (auto simp: UnblockAccessKey_def)
next
  case False
  show ?thesis
  proof (cases "read_file os (NginxBlockedKeysFile cfg) w")
    case (RdData d)
    obtain r1 w1 where aw: "atomic_write os (NginxBlockedKeysFile cfg) (unblock_text k d) 0x1A4 w = (r1, w1)"
      by fastforce
    have "(r, w') = (case r1 of Inl x \<Rightarrow> (Inl x, w1) | Inr _ \<Rightarrow> reload_nginx e os w1)"
      using assms False RdData aw by (auto simp: UnblockAccessKey_def)
    then have "fs w' = fs w1" "is_ok r \<Longrightarrow> is_ok r1"
      using reload_nginx_fs[of e os w1] by (auto split: sum.splits) (metis snd_conv)
    then show ?thesis using that(3)[OF RdData aw] False by blast
  qed (use assms False that(1,2) in \<open>auto simp: UnblockAccessKey_def\<close>)
qed

lemma ListBlocked_state:
  "blocked_state cfg items w \<Longrightarrow> ListBlocked os cfg w = Inr ks \<Longrightarrow> ks = item_keys items"
  using blocked_state_data[of cfg items w os] keys_of_file_of[of items]
  by (auto simp: ListBlocked_def blocked_state_def split: read_result.splits)


subsection \<open>Properties\<close>

text \<open>The concrete inputs of the examples: an empty include file, and the file with one block.\<close>

definition blocked_conf :: "string \<Rightarrow> unit world" where
  "blocked_conf d = one_file ''/etc/nginx/blocked.conf'' d"

definition sample_block :: "unit res \<times> unit world" where
  "sample_block = BlockAccessKey New_Executor calm_os sample_config ''AK1'' ''quota'' (blocked_conf [])"

definition sample_unblock :: "unit res \<times> unit world" where
  "sample_unblock = UnblockAccessKey New_Executor calm_os sample_config ''AK1'' (snd sample_block)"

lemma sample_fresh:
  "temp_fresh calm_os (NginxBlockedKeysFile sample_config) (blocked_conf d)"
  "temp_fresh calm_os (NginxBlockedKeysFile sample_config) (snd sample_block)"
  by code_simp+

lemma sample_state: "blocked_state sample_config [Blank] (blocked_conf [])"
  by (simp add: blocked_state_def ok_items_def blocked_conf_def one_file_def sample_config_def
      plain_file_def file_of_Blank)

lemma sample_runs: "sample_block = (Inr (), snd sample_block)" "sample_unblock = (Inr (), snd sample_unblock)"
proof -
  have "fst sample_block = Inr ()" "fst sample_unblock = Inr ()" by code_simp+
  then show "sample_block = (Inr (), snd sample_block)" "sample_unblock = (Inr (), snd sample_unblock)"
    by (metis prod.collapse)+
qed

lemma BlockAccessKey_state:
  assumes "temp_fresh os (NginxBlockedKeysFile cfg) w" "blocked_state cfg items w"
    and "plain key" "key \<noteq> quota_text" "plain reason" "plain (os_date os (ext w))"
    and "BlockAccessKey e os cfg key reason w = (r, w')"
  shows "(blocked_state cfg items w' \<and> \<not> is_ok r
            \<or> blocked_state cfg (add_item (reason, os_date os (ext w), key) items) w') \<and>
         (\<forall>q. q \<noteq> NginxBlockedKeysFile cfg \<longrightarrow> q \<noteq> temp_name os (NginxBlockedKeysFile cfg) w
                \<longrightarrow> fs w' q = fs w q)"
proof -
  have items: "ok_items items" using assms(2) by (simp add: blocked_state_def)
  let ?entry = "(reason, os_date os (ext w), key)"
  from assms(7,1) show ?thesis
  proof (cases rule: BlockAccessKey_cases)
    case unchanged
    then show ?thesis using assms(2) by simp
  next
    case (present rd)
    then have "key \<in> set (item_keys items)"
      using read_as_data[OF assms(2) present(3,4)] contains_file_of_iff[OF items assms(3,4)] by simp
    then show ?thesis using present assms(2) by (simp add: add_item_def)
  next
    case (written rd r1 w1)
    have absent: "key \<notin> set (item_keys items)"
      using written(3) read_as_data[OF assms(2) written(1,2)] contains_file_of_iff[OF items assms(3,4)]
      by simp
    then have "atomic_write os (NginxBlockedKeysFile cfg) (file_of (add_item ?entry items)) 0x1A4 w = (r1, w1)"
      using written(4) read_as_data[OF assms(2) written(1,2)] block_file_of[OF items assms(5,6,3)] by simp
    moreover have "ok_items (add_item ?entry items)"
      using blocked.inv_add[OF items, of ?entry] assms(3,5,6) absent by simp
    ultimately have st: "blocked_state cfg (if is_ok r1 then add_item ?entry items else items) w1"
      using write_blocked_state assms(1,2) by blast
    have fr: "fs w1 q = fs w q"
      if "q \<noteq> NginxBlockedKeysFile cfg" "q \<noteq> temp_name os (NginxBlockedKeysFile cfg) w" for q
      using atomic_write_inv[OF temp_fresh_apart[OF assms(1)] written(4)] that by (simp add: aw_inv_def)
    show ?thesis
      using st fr written(5,6) blocked_state_cong[of w' cfg w1] by (cases "is_ok r1") auto
  qed
qed

lemma BlockAccessKey_succeeds:
  assumes "\<And>op x. os_fail os op x = None" "\<And>c as x. ro_error (fst (os_exec os c as x)) = None" "k \<noteq> []"
  shows "fst (BlockAccessKey e os cfg k reason w) = Inr ()"
proof -
  have r: "fst (reload_nginx e os w1) = Inr ()" for w1
    using assms(2) by (auto simp: reload_nginx_def Execute_def split: prod.split option.split) (metis fst_conv option.distinct(1))
  have "\<exists>w1. atomic_write os p d perm w = (Inr (), w1)" for p d perm
    using atomic_write_succeeds[of os w p d perm] assms(1) by (metis prod.collapse)
  then have "fst (case atomic_write os p d perm w of (Inl x, w') \<Rightarrow> (Inl x, w') | (Inr _, w') \<Rightarrow> reload_nginx e os w') = Inr ()"
    for p d perm using r by (smt (verit) case_prod_conv sum.case(2))
  then show ?thesis
    using assms(1,3) by (auto simp: BlockAccessKey_def Let_def read_file_def split: option.split)
qed

text \<open>
  C12. BlockAccessKey implements adding to the store: on a file that stands for a list of blocks, the
  file it leaves stands for that list or the list with the new block (never anything else, whatever
  fails), and for the latter when it returns no error; the error it can return with the block
  already in the file is a failed Nginx reload. No other file changes.
\<close>

theorem BlockAccessKey_refines:
  assumes "temp_fresh os (NginxBlockedKeysFile cfg) w" "blocked_state cfg items w"
    and "plain key" "key \<noteq> quota_text" "plain reason" "plain (os_date os (ext w))"
    and "BlockAccessKey e os cfg key reason w = (r, w')"
  shows "(blocked_state cfg items w' \<and> \<not> is_ok r
            \<or> blocked_state cfg (add_item (reason, os_date os (ext w), key) items) w') \<and>
         (\<forall>q. q \<noteq> NginxBlockedKeysFile cfg \<longrightarrow> q \<noteq> temp_name os (NginxBlockedKeysFile cfg) w
                \<longrightarrow> fs w' q = fs w q)"
  by (rule BlockAccessKey_state[OF assms])

theorem BlockAccessKey_refines_witness:
  "blocked_state sample_config (add_item (''quota'', ''2026-01-02'', ''AK1'') [Blank]) (snd sample_block)"
  using BlockAccessKey_refines[of calm_os sample_config "blocked_conf []" "[Blank]" "''AK1''" "''quota''"
      New_Executor "Inr ()" "snd sample_block"] sample_fresh(1) sample_state sample_runs(1)
  by (simp add: plain_def quota_text_def calm_os_def sample_block_def)

text \<open>
  C13. UnblockAccessKey implements deletion from the store in the same sense: the file keeps standing
  for the old list, with an error, or stands for the list without the key's blocks.
\<close>

theorem UnblockAccessKey_refines:
  assumes "temp_fresh os (NginxBlockedKeysFile cfg) w" "blocked_state cfg items w"
    and "plain key" "key \<noteq> quota_text" "UnblockAccessKey e os cfg key w = (r, w')"
  shows "blocked_state cfg items w' \<and> \<not> is_ok r \<or> blocked_state cfg (del_item key items) w'"
proof -
  have items: "ok_items items" using assms(2) by (simp add: blocked_state_def)
  from assms(5) show ?thesis
  proof (cases rule: UnblockAccessKey_cases)
    case unchanged
    then show ?thesis using assms(2) by simp
  next
    case missing
    then have "items = [Blank]" using blocked_state_data(2)[OF assms(2)] by blast
    then show ?thesis using missing assms(2) by (simp add: del_item_def)
  next
    case (written d r1 w1)
    have "d = file_of items" using blocked_state_data(1)[OF assms(2) written(1)] .
    then have "atomic_write os (NginxBlockedKeysFile cfg) (file_of (del_item key items)) 0x1A4 w = (r1, w1)"
      using written(2) unblock_file_of[OF items assms(3,4)] by simp
    moreover have "ok_items (del_item key items)"
      using blocked.inv_del[OF items] items
      by (cases "key \<in> set (item_keys items)") (auto simp: del_item_absent)
    ultimately have "blocked_state cfg (if is_ok r1 then del_item key items else items) w1"
      using write_blocked_state assms(1,2) by blast
    then show ?thesis using written(3,4) blocked_state_cong[of w' cfg w1] by (cases "is_ok r1") auto
  qed
qed

theorem UnblockAccessKey_refines_witness:
  "blocked_state sample_config (del_item ''AK1'' [Blank])
     (snd (UnblockAccessKey New_Executor calm_os sample_config ''AK1'' (blocked_conf [])))"
proof -
  have "fst (UnblockAccessKey New_Executor calm_os sample_config ''AK1'' (blocked_conf [])) = Inr ()"
    by code_simp
  moreover have "blocked_state sample_config [Blank]
        (snd (UnblockAccessKey New_Executor calm_os sample_config ''AK1'' (blocked_conf []))) \<and>
      \<not> is_ok (fst (UnblockAccessKey New_Executor calm_os sample_config ''AK1'' (blocked_conf [])))
    \<or> blocked_state sample_config (del_item ''AK1'' [Blank])
        (snd (UnblockAccessKey New_Executor calm_os sample_config ''AK1'' (blocked_conf [])))"
    by (rule UnblockAccessKey_refines[OF sample_fresh(1) sample_state _ _ prod.collapse[symmetric]])
      (simp_all add: plain_def quota_text_def)
  ultimately show ?thesis by simp
qed

text \<open>
  C14. For any contents of the file, also contents the agent did not write: after an UnblockAccessKey
  that returned no error, ListBlocked does not report the key.
\<close>

theorem unblocked_not_listed:
  assumes "temp_fresh os (NginxBlockedKeysFile cfg) w"
    and "UnblockAccessKey e os cfg key w = (Inr u, w')" "ListBlocked os cfg w' = Inr ks"
  shows "key \<notin> set ks"
  using assms(2)
proof (cases rule: UnblockAccessKey_cases)
  case missing
  then show ?thesis using assms(3) by (simp add: ListBlocked_def)
next
  case (written d r1 w1)
  then obtain v where "r1 = Inr v" by (cases r1) auto
  then obtain f where "fs w' (NginxBlockedKeysFile cfg) = Some f" "f_data f = unblock_text key d"
    using atomic_write_data[OF temp_fresh_apart[OF assms(1)] _ written(3)] written(2) by auto
  then have "ks = keys_of_file (unblock_text key d)"
    using assms(3) by (auto simp: ListBlocked_def read_file_def split: option.splits)
  then show ?thesis using unblocked_not_listed_text by blast
qed simp

theorem unblocked_not_listed_witness:
  "ListBlocked calm_os sample_config (snd sample_block) = Inr [''AK1''] \<and>
   ListBlocked calm_os sample_config (snd sample_unblock) = Inr [] \<and> ''AK1'' \<notin> set []"
proof -
  have l: "ListBlocked calm_os sample_config (snd sample_block) = Inr [''AK1'']"
    "ListBlocked calm_os sample_config (snd sample_unblock) = Inr []"
    by code_simp+
  have "''AK1'' \<notin> set []"
    by (rule unblocked_not_listed[OF sample_fresh(2) _ l(2)])
      (use sample_runs(2) in \<open>simp add: sample_unblock_def\<close>)
  with l show ?thesis by simp
qed

text \<open>
  C15. Blocking a key and unblocking it again restores the file up to one empty line at its end,
  whatever the file held, if it did not quote the key before.
\<close>

theorem unblock_after_block:
  assumes "temp_fresh os (NginxBlockedKeysFile cfg) w" "temp_fresh os (NginxBlockedKeysFile cfg) w1"
    and "fs w (NginxBlockedKeysFile cfg) = Some f" "\<not> contains (f_data f) (quoted key)"
    and "newline \<notin> set key" "newline \<notin> set reason" "newline \<notin> set (os_date os (ext w))"
    and "\<not> contains (comment_line reason (os_date os (ext w))) (quoted key)"
    and "BlockAccessKey e os cfg key reason w = (Inr u, w1)"
    and "UnblockAccessKey e os cfg key w1 = (Inr v, w2)"
  shows "map_option f_data (fs w2 (NginxBlockedKeysFile cfg)) = Some (f_data f @ [newline])"
  using assms(9,1)
proof (cases rule: BlockAccessKey_cases)
  case (present rd)
  then show ?thesis using assms(3,4) by (auto simp: read_file_def split: option.splits)
next
  case (written rd r1 w3)
  then have rd: "rd = RdData (f_data f)"
    using assms(3) by (auto simp: read_file_def split: option.splits)
  obtain x where "r1 = Inr x" using written(6) by (cases r1) auto
  then obtain g where g: "fs w1 (NginxBlockedKeysFile cfg) = Some g"
      "f_data g = f_data f @ block_entry reason (os_date os (ext w)) key"
    using atomic_write_data[OF temp_fresh_apart[OF assms(1)] _ written(5)] written(4) rd by auto
  from assms(10) show ?thesis
  proof (cases rule: UnblockAccessKey_cases)
    case missing
    then show ?thesis using g by (simp add: read_file_NotExist)
  next
    case (written d r2 w4)
    then have d: "d = f_data f @ block_entry reason (os_date os (ext w)) key"
      using g by (simp add: read_file_Data)
    obtain y where "r2 = Inr y" using written(4) by (cases r2) auto
    then obtain h where "fs w2 (NginxBlockedKeysFile cfg) = Some h" "f_data h = unblock_text key d"
      using atomic_write_data[OF temp_fresh_apart[OF assms(2)] _ written(3)] written(2) by auto
    then show ?thesis using unblock_after_block_text d assms by simp
  qed simp
qed simp


theorem unblock_after_block_witness:
  "map_option f_data (fs (snd sample_unblock) (NginxBlockedKeysFile sample_config)) = Some ([] @ [newline])"
proof -
  have r: "BlockAccessKey New_Executor calm_os sample_config ''AK1'' ''quota'' (blocked_conf []) = (Inr (), snd sample_block)"
    "UnblockAccessKey New_Executor calm_os sample_config ''AK1'' (snd sample_block) = (Inr (), snd sample_unblock)"
    "fs (blocked_conf []) (NginxBlockedKeysFile sample_config) = Some (plain_file [])"
    using sample_runs by (simp_all add: sample_unblock_def sample_block_def blocked_conf_def
        one_file_def sample_config_def)
  have "map_option f_data (fs (snd sample_unblock) (NginxBlockedKeysFile sample_config))
      = Some (f_data (plain_file []) @ [newline])"
    by (rule unblock_after_block[OF sample_fresh(1) sample_fresh(2) r(3) _ _ _ _ _ r(1,2)]) code_simp+
  then show ?thesis by (simp add: plain_file_def)
qed

subsection \<open>What a reason that quotes a key does\<close>

text \<open>
  A reason text is written into the file, and the guard of BlockAccessKey looks for the quoted key
  anywhere in the file: once a block's reason quotes another key, blocking that other key reports
  success, changes nothing, and the key is not among the listed ones.
\<close>

theorem block_shadowed_by_reason:
  assumes "fs w (NginxBlockedKeysFile cfg) = Some f" "os_fail os (OpRead (NginxBlockedKeysFile cfg)) (ext w) = None"
    and "f_data f = block_entry reason date key1" "contains reason (quoted key2)"
    and "newline \<notin> set reason" "newline \<notin> set date" "newline \<notin> set key1" "key1 \<noteq> key2" "key2 \<noteq> []"
    and "length reason + length date + length key1 < 10000"
  shows "BlockAccessKey e os cfg key2 why w = (Inr (), w) \<and> ListBlocked os cfg w = Inr [key1]"
proof (rule conjI)
  have rd: "read_file os (NginxBlockedKeysFile cfg) w = RdData (block_entry reason date key1)"
    using assms(1-3) by (simp add: read_file_Data)
  have "sublist reason (block_entry reason date key1)"
    unfolding sublist_def block_entry_def comment_line_def
    by (rule exI[of _ "newline # ''# ''"]) simp
  then have "contains (block_entry reason date key1) (quoted key2)"
    using contains_sublist assms(4) by blast
  with rd assms(9) show "BlockAccessKey e os cfg key2 why w = (Inr (), w)"
    by (simp add: BlockAccessKey_def)
next
  have rd: "read_file os (NginxBlockedKeysFile cfg) w = RdData (block_entry reason date key1)"
    using assms(1-3) by (simp add: read_file_Data)
  have "keys_of_file ([] @ block_entry reason date key1) = keys_of_file ([] @ [newline]) @ [key1]"
    using assms(5-7,10)
    by (intro blocked_listed_text)
      (auto simp: block_entry_lines[of _ _ _ "[]", simplified] max_token_def comment_line_def if_line_def
        return_line_def if_marker_def quoted_def quota_text_def)
  moreover have "keys_of_file ([] @ [newline]) = []"
    by (simp add: keys_of_file_def scan_lines_def max_token_def drop_cr_def key_of_line_other)
  ultimately show "ListBlocked os cfg w = Inr [key1]"
    using rd by (simp add: ListBlocked_def)
qed

theorem block_shadowed_by_reason_witness:
  "let w = blocked_conf (block_entry (''same user as '' @ quoted ''AK2'') ''2026-01-02'' ''AK1'') in
   BlockAccessKey New_Executor calm_os sample_config ''AK2'' ''quota'' w = (Inr (), w) \<and>
   ListBlocked calm_os sample_config w = Inr [''AK1'']"
  unfolding Let_def
  by (rule block_shadowed_by_reason[of _ _ "plain_file (block_entry (''same user as '' @ quoted ''AK2'')
          ''2026-01-02'' ''AK1'')" calm_os "''same user as '' @ quoted ''AK2''" "''2026-01-02''" "''AK1''" "''AK2''"])
    (code_simp | simp add: blocked_conf_def one_file_def sample_config_def plain_file_def calm_os_def)+

text \<open>
  Unblocking a key that only another block's reason quotes drops that block's comment, condition
  and return lines: the other key is no longer blocked, and the closing brace stays behind.
\<close>

theorem unblock_breaks_other_block:
  assumes "contains (comment_line reason date) (quoted key2)"
    and "newline \<notin> set reason" "newline \<notin> set date" "newline \<notin> set key1"
    and "quote \<notin> set key1" "quote \<notin> set key2" "key1 \<noteq> key2"
  shows "unblock_text key2 (block_entry reason date key1) = [newline] @ ''}'' @ [newline]"
proof -
  have nil: "\<not> contains [] (quoted key2)" and brace: "\<not> contains ''}'' (quoted key2)"
    using contains_quoted_imp[of "[]" key2] contains_quoted_imp[of "''}''" key2] by auto
  have "\<not> contains (if_line key1) (quoted key2)"
    using assms(5-7) by (simp add: contains_if_line_iff)
  then have "unblock_lines key2 0 [[], comment_line reason date, if_line key1, return_line, ''}'', []]
      = [[], ''}'', []]"
    using assms(1) nil brace by (simp add: numeral_2_eq_2 has_prefix_def)
  then show ?thesis
    using block_entry_lines[OF assms(2-4), of "[]"] by (simp add: unblock_text_def join_Cons)
qed

theorem unblock_breaks_other_block_witness:
  "unblock_text ''AK2'' (block_entry (''same user as '' @ quoted ''AK2'') ''2026-01-02'' ''AK1'')
     = [newline] @ ''}'' @ [newline]"
  by (rule unblock_breaks_other_block) code_simp+


end
