(* ===== verification/Dispatcher.thy ===== *)
theory Dispatcher
  imports Publisher Blocklist
begin

section \<open>The dispatcher (internal/dispatcher) and the command callback (cmd/agent/main.go)\<close>

text \<open>
  From an inbound envelope to the result envelope: decoding, the gate on the configured operations, the
  parameters, the operation, the answer. The branches of the switch in \<^verbatim>\<open>run\<close> are one handler each,
  collected in \<open>run_table\<close> in the order of the code. A handler returns \<open>None\<close> where the code panics, and
  otherwise the JSON of the output or an error, with the agent's new state. \<^verbatim>\<open>strings.ToLower\<close> is modelled
  on ASCII.
\<close>

subsection \<open>Parameters\<close>

record params =
  p_name :: string
  p_command :: string
  p_args :: "string slice"
  p_interval_s :: int
  p_bucket_id :: string
  p_owner_tenant_id :: string
  p_replication_factor :: int
  p_lifecycle_rules :: "lifecycle_rule list"
  p_force_empty :: bool
  p_object_lock_mode :: string
  p_retention_days :: int
  p_access_key :: string
  p_secret_key :: string
  p_bucket_acls :: "bucket_acl list"
  p_reason :: string
  p_scope :: string

definition zero_params :: params where
  "zero_params = \<lparr>p_name = [], p_command = [], p_args = None, p_interval_s = 0, p_bucket_id = [],
     p_owner_tenant_id = [], p_replication_factor = 0, p_lifecycle_rules = [], p_force_empty = False,
     p_object_lock_mode = [], p_retention_days = 0, p_access_key = [], p_secret_key = [],
     p_bucket_acls = [], p_reason = [], p_scope = []\<rparr>"

text \<open>A slice of which only the elements matter.\<close>

definition dec_list :: "'a \<Rightarrow> 'a decoder \<Rightarrow> 'a list decoder" where
  "dec_list zero d j old = map_option elems (dec_slice zero d j (Some old))"

definition zero_rule :: lifecycle_rule where "zero_rule = \<lparr>lr_prefix = [], lr_expire_days = 0\<rparr>"

definition dec_rule :: "lifecycle_rule decoder" where
  "dec_rule = dec_struct
     [field ''prefix'' dec_string lr_prefix lr_prefix_update,
      field ''expire_days'' dec_int lr_expire_days lr_expire_days_update]"

definition zero_acl :: bucket_acl where "zero_acl = \<lparr>acl_bucket_id = [], acl_permission = []\<rparr>"

definition dec_acl :: "bucket_acl decoder" where
  "dec_acl = dec_struct
     [field ''bucket_id'' dec_string acl_bucket_id acl_bucket_id_update,
      field ''permission'' dec_string acl_permission acl_permission_update]"

definition dec_params :: "params decoder" where
  "dec_params = dec_struct
     [field ''name'' dec_string p_name p_name_update,
      field ''command'' dec_string p_command p_command_update,
      field ''args'' (dec_slice [] dec_string) p_args p_args_update,
      field ''interval_s'' dec_int p_interval_s p_interval_s_update,
      field ''bucket_id'' dec_string p_bucket_id p_bucket_id_update,
      field ''owner_tenant_id'' dec_string p_owner_tenant_id p_owner_tenant_id_update,
      field ''replication_factor'' dec_int p_replication_factor p_replication_factor_update,
      field ''lifecycle_rules'' (dec_list zero_rule dec_rule) p_lifecycle_rules p_lifecycle_rules_update,
      field ''force_empty'' dec_bool p_force_empty p_force_empty_update,
      field ''object_lock_mode'' dec_string p_object_lock_mode p_object_lock_mode_update,
      field ''retention_days'' dec_int p_retention_days p_retention_days_update,
      field ''access_key'' dec_string p_access_key p_access_key_update,
      field ''secret_key'' dec_string p_secret_key p_secret_key_update,
      field ''bucket_acls'' (dec_list zero_acl dec_acl) p_bucket_acls p_bucket_acls_update,
      field ''reason'' dec_string p_reason p_reason_update,
      field ''scope'' dec_string p_scope p_scope_update]"

definition zero_bucket :: bucket_spec where
  "zero_bucket = \<lparr>bs_bucket_id = [], bs_name = [], bs_owner_tenant_id = [], bs_replication_factor = 0,
     bs_lifecycle_rules = []\<rparr>"

definition dec_bucket :: "bucket_spec decoder" where
  "dec_bucket = dec_struct
     [field ''bucket_id'' dec_string bs_bucket_id bs_bucket_id_update,
      field ''name'' dec_string bs_name bs_name_update,
      field ''owner_tenant_id'' dec_string bs_owner_tenant_id bs_owner_tenant_id_update,
      field ''replication_factor'' dec_int bs_replication_factor bs_replication_factor_update,
      field ''lifecycle_rules'' (dec_list zero_rule dec_rule) bs_lifecycle_rules bs_lifecycle_rules_update]"

definition zero_user :: iam_user where
  "zero_user = \<lparr>iu_user_id = [], iu_name = [], iu_owner_tenant_id = [], iu_access_key = [], iu_secret_key = [],
     iu_bucket_acls = []\<rparr>"

definition dec_user :: "iam_user decoder" where
  "dec_user = dec_struct
     [field ''user_id'' dec_string iu_user_id iu_user_id_update,
      field ''name'' dec_string iu_name iu_name_update,
      field ''owner_tenant_id'' dec_string iu_owner_tenant_id iu_owner_tenant_id_update,
      field ''access_key'' dec_string iu_access_key iu_access_key_update,
      field ''secret_key'' dec_string iu_secret_key iu_secret_key_update,
      field ''bucket_acls'' (dec_list zero_acl dec_acl) iu_bucket_acls iu_bucket_acls_update]"

definition dec_full_sync :: "full_sync_payload decoder" where
  "dec_full_sync = dec_struct
     [field ''buckets'' (dec_list zero_bucket dec_bucket) fsp_buckets fsp_buckets_update,
      field ''iam_users'' (dec_list zero_user dec_user) fsp_iam_users fsp_iam_users_update]"

subsection \<open>Handlers\<close>

type_synonym 'x handler = "'x env \<Rightarrow> params \<Rightarrow> 'x agent \<Rightarrow> (json res \<times> 'x agent) option"

definition on_ext :: "('x \<Rightarrow> 'a res \<times> 'x) \<Rightarrow> ('a \<Rightarrow> json) \<Rightarrow> 'x agent \<Rightarrow> (json res \<times> 'x agent) option" where
  "on_ext f enc s =
     (let (r, x') = f (ext (ag_world s)) in
      Some (map_sum id enc r, s\<lparr>ag_world := (ag_world s)\<lparr>ext := x'\<rparr>\<rparr>))"

definition on_world :: "('x world \<Rightarrow> 'a res \<times> 'x world) \<Rightarrow> ('a \<Rightarrow> json) \<Rightarrow> 'x agent \<Rightarrow> (json res \<times> 'x agent) option" where
  "on_world f enc s = (let (r, w') = f (ag_world s) in Some (map_sum id enc r, s\<lparr>ag_world := w'\<rparr>))"

text \<open>A Go map of strings, its keys already sorted.\<close>

definition str_map :: "(string \<times> string) list \<Rightarrow> json" where
  "str_map kvs = JObj (map (\<lambda>(k, v). (k, JStr v)) kvs)"

definition h_info :: "'x handler" where
  "h_info env p s = on_ext (GetInfo (ge_gops env) (ag_sys s)) enc_info s"

definition h_metrics :: "'x handler" where
  "h_metrics env p s =
     (case GetMetrics (ge_os env) (ge_gops env) (ag_sys s, ext (ag_world s)) of
        (r, m', x') \<Rightarrow> Some (map_sum id (enc_metrics (ge_link env)) r,
                             s\<lparr>ag_sys := m', ag_world := (ag_world s)\<lparr>ext := x'\<rparr>\<rparr>))"

definition h_cpu :: "'x handler" where
  "h_cpu env p = on_ext (GetCPU (ge_gops env)) (enc_cpu (ge_link env))"

definition h_memory :: "'x handler" where
  "h_memory env p = on_ext (GetMemory (ge_gops env)) (enc_memory (ge_link env))"

definition h_disk :: "'x handler" where
  "h_disk env p s =
     (case GetDisk (ge_os env) (ge_gops env) (ag_sys s, ext (ag_world s)) of
        (r, m', x') \<Rightarrow> Some (map_sum id (enc_appended (enc_disk (ge_link env))) r,
                             s\<lparr>ag_sys := m', ag_world := (ag_world s)\<lparr>ext := x'\<rparr>\<rparr>))"

definition h_network :: "'x handler" where
  "h_network env p = on_ext (GetNetwork (ge_gops env)) (enc_appended enc_net)"

definition h_services_list :: "'x handler" where
  "h_services_list env p = on_ext (svc_List (ge_svc env)) (\<lambda>l. JArr (map enc_service l))"

definition h_services_get :: "'x handler" where
  "h_services_get env p = on_ext (svc_Get (ge_svc env) (p_name p)) enc_service"

text \<open>The six actions return no error: a failure is a result with success false.\<close>

definition h_service_act :: "service_action \<Rightarrow> 'x handler" where
  "h_service_act a env p =
     on_ext (\<lambda>x. let (r, x') = svc_act (ge_svc env) a (p_name p) x in (Inr r, x')) (enc_action (ge_link env))"

text \<open>Run a program; its streams are the output, dropped with the error where it fails.\<close>

definition exec_map :: "'x env \<Rightarrow> string \<Rightarrow> string list \<Rightarrow> 'x agent \<Rightarrow> (json res \<times> 'x agent) option" where
  "exec_map env cmd args s =
     on_world (\<lambda>w. case Execute (ge_exec env) (ge_os env) cmd args w of
        ((out, err, None), w') \<Rightarrow> (Inr (out, err), w')
      | ((out, err, Some e), w') \<Rightarrow> (Inl e, w'))
     (\<lambda>(out, err). str_map [(''stderr'', err), (''stdout'', out)]) s"

definition on_windows :: "'x env \<Rightarrow> bool" where
  "on_windows env = (case ge_svc env of WindowsManager \<Rightarrow> True | LinuxManager _ \<Rightarrow> False)"

definition h_vm_reboot :: "'x handler" where
  "h_vm_reboot env p =
     (if on_windows env then exec_map env ''shutdown'' [''/r'', ''/t'', ''0'']
      else exec_map env ''systemctl'' [''reboot''])"

definition h_vm_shutdown :: "'x handler" where
  "h_vm_shutdown env p =
     (if on_windows env then exec_map env ''shutdown'' [''/s'', ''/t'', ''0'']
      else exec_map env ''systemctl'' [''poweroff''])"

definition to_lower :: "string \<Rightarrow> string" where
  "to_lower s = map (\<lambda>c. if 65 \<le> code c \<and> code c \<le> 90 then char_of (code c + 32) else c) s"

text \<open>One line of os-release updates the pair of ID and ID_LIKE.\<close>

definition release_value :: "string \<Rightarrow> string \<Rightarrow> string" where
  "release_value key line = to_lower (trim_char quote (trim_prefix line key))"

definition release_line :: "string \<Rightarrow> string \<times> string \<Rightarrow> string \<times> string" where
  "release_line line0 ids =
     (let line = trim_space line0; (i, like) = ids;
          i' = (if has_prefix line ''ID='' then release_value ''ID='' line else i);
          like' = (if has_prefix line ''ID_LIKE='' then release_value ''ID_LIKE='' line else like)
      in (i', like'))"

definition detectDebianDistro :: "'x os \<Rightarrow> 'x world \<Rightarrow> string res" where
  "detectDebianDistro os w =
     (case read_file os ''/etc/os-release'' w of
        RdError e \<Rightarrow> Inl (Wrap ''reading /etc/os-release'' (OsErr e))
      | RdNotExist \<Rightarrow> Inl (Wrap ''reading /etc/os-release'' (OsErr ''open /etc/os-release: no such file or directory''))
      | RdData d \<Rightarrow>
          (let (i, like) = fold release_line (split_on newline d) ([], []) in
           if i = ''ubuntu'' \<or> i = ''debian'' \<or> contains like ''ubuntu'' \<or> contains like ''debian''
           then Inr (if i \<noteq> [] then i else like)
           else Inr []))"

definition apt_args :: "string \<Rightarrow> string list" where
  "apt_args verb = [''-y'', ''-o'', ''Dpkg::Options::=--force-confdef'', ''-o'', ''Dpkg::Options::=--force-confold'', verb]"

definition h_system_update :: "'x handler" where
  "h_system_update env p s =
     (case detectDebianDistro (ge_os env) (ag_world s) of
        Inl e \<Rightarrow> Some (Inl (Wrap ''could not detect OS'' e), s)
      | Inr distro \<Rightarrow>
          if distro = [] then Some (Inl (Msg ''system.update is only supported on Ubuntu/Debian''), s)
          else
            (case Execute (ge_exec env) (ge_os env) ''apt-get'' (apt_args ''update'') (ag_world s) of
               ((_, _, Some e), w1) \<Rightarrow> Some (Inl (Wrap ''apt-get update failed'' e), s\<lparr>ag_world := w1\<rparr>)
             | ((out1, err1, None), w1) \<Rightarrow>
                 (case Execute (ge_exec env) (ge_os env) ''apt-get'' (apt_args ''upgrade'') w1 of
                    ((_, _, Some e), w2) \<Rightarrow> Some (Inl e, s\<lparr>ag_world := w2\<rparr>)
                  | ((out2, err2, None), w2) \<Rightarrow>
                      Some (Inr (str_map [(''distro'', distro), (''update_stderr'', err1), (''update_stdout'', out1),
                                          (''upgrade_stderr'', err2), (''upgrade_stdout'', out2)]),
                            s\<lparr>ag_world := w2\<rparr>))))"

definition h_capabilities :: "'x handler" where
  "h_capabilities env p =
     on_world (\<lambda>w. case SendCapabilities env w of
        (Inl e, w') \<Rightarrow> (Inl (Wrap ''re-publishing capabilities'' e), w')
      | (Inr c, w') \<Rightarrow> (Inr c, w')) enc_capabilities"

text \<open>\<^verbatim>\<open>time.Duration(p.IntervalS) * time.Second\<close> wraps at 64 bits.\<close>

definition requested_interval :: "int \<Rightarrow> int" where
  "requested_interval n = sint ((word_of_int n :: i64) * word_of_int second)"

definition h_set_interval :: "'x handler" where
  "h_set_interval env p s =
     (if p_interval_s p \<le> 0 then Some (Inl (Msg ''interval_s must be a positive integer (seconds)''), s)
      else
        let (applied, s') = SetTelemetryInterval (requested_interval (p_interval_s p)) s in
        Some (Inr (JObj [(''applied_interval_s'', enc_int (trunc (seconds_of applied))),
                         (''requested_interval_s'', enc_int (p_interval_s p))]), s'))"

definition h_exec :: "'x handler" where
  "h_exec env p s =
     (if p_command p \<notin> set (AllowedCommands (ge_agent env))
      then Some (Inl (MsgQ ''command '' (p_command p) '' is not in allowed_commands''), s)
      else exec_map env (p_command p) (elems (p_args p)) s)"

definition h_cluster_status :: "'x handler" where
  "h_cluster_status env p s =
     (case PollCluster (ge_os env) (ge_s3 env) (Some (ge_svc env)) (ag_world s) of
        None \<Rightarrow> None
      | Some (c, w') \<Rightarrow> Some (Inr (enc_cluster (ge_link env) c), s\<lparr>ag_world := w'\<rparr>))"

definition h_bucket_stats :: "'x handler" where
  "h_bucket_stats env p s =
     (case BucketStats (ge_os env) (ge_s3 env) (ag_world s) of
        (Inl e, w') \<Rightarrow> Some (Inl e, s\<lparr>ag_world := w'\<rparr>)
      | (Inr stats, w') \<Rightarrow>
          let (traffic, s') = FlushTraffic env (s\<lparr>ag_world := w'\<rparr>) in
          Some (Inr (JObj [(''buckets'', JArr (map enc_bucket_stat stats)),
                           (''traffic'', enc_slice enc_traffic traffic)]), s'))"

text \<open>An operation of the S3 manager whose output only confirms it.\<close>

definition on_manager :: "('x world \<Rightarrow> unit res \<times> 'x world) \<Rightarrow> (string \<times> string) list \<Rightarrow> 'x agent \<Rightarrow> (json res \<times> 'x agent) option" where
  "on_manager f out = on_world f (\<lambda>_. str_map out)"

definition h_bucket_create :: "'x handler" where
  "h_bucket_create env p =
     on_manager (CreateBucket (ge_os env) (ge_s3 env)
         \<lparr>bs_bucket_id = p_bucket_id p, bs_name = p_name p, bs_owner_tenant_id = p_owner_tenant_id p,
          bs_replication_factor = p_replication_factor p, bs_lifecycle_rules = p_lifecycle_rules p\<rparr>)
       [(''bucket'', p_name p), (''status'', ''created'')]"

definition h_bucket_update :: "'x handler" where
  "h_bucket_update env p =
     on_manager (UpdateBucket (ge_os env) (ge_s3 env)
         (zero_bucket\<lparr>bs_bucket_id := p_bucket_id p, bs_name := p_name p, bs_lifecycle_rules := p_lifecycle_rules p\<rparr>))
       [(''bucket'', p_name p), (''status'', ''updated'')]"

definition h_bucket_delete :: "'x handler" where
  "h_bucket_delete env p =
     on_manager (DeleteBucket (ge_os env) (ge_s3 env) (p_name p) (p_force_empty p))
       [(''bucket'', p_name p), (''status'', ''deleted'')]"

definition h_worm_create :: "'x handler" where
  "h_worm_create env p =
     on_manager (CreateWORMBucket (ge_os env) (ge_s3 env)
         \<lparr>wb_bucket_id = p_bucket_id p, wb_name = p_name p, wb_owner_tenant_id = p_owner_tenant_id p,
          wb_mode = p_object_lock_mode p, wb_retention_days = p_retention_days p\<rparr>)
       [(''bucket'', p_name p), (''mode'', p_object_lock_mode p), (''status'', ''created'')]"

definition h_worm_update :: "'x handler" where
  "h_worm_update env p =
     on_manager (UpdateWORMBucket (ge_os env) (ge_s3 env)
         \<lparr>wb_bucket_id = p_bucket_id p, wb_name = p_name p, wb_owner_tenant_id = [],
          wb_mode = p_object_lock_mode p, wb_retention_days = p_retention_days p\<rparr>)
       [(''bucket'', p_name p), (''mode'', p_object_lock_mode p), (''status'', ''updated'')]"

definition h_worm_delete :: "'x handler" where
  "h_worm_delete env p =
     on_manager (DeleteWORMBucket (ge_os env) (ge_s3 env) (p_name p))
       [(''bucket'', p_name p), (''status'', ''deleted'')]"

definition h_iam_create :: "'x handler" where
  "h_iam_create env p =
     on_manager (CreateIAMUser (ge_exec env) (ge_os env) (ge_s3 env)
         (zero_user\<lparr>iu_name := p_name p, iu_access_key := p_access_key p, iu_bucket_acls := p_bucket_acls p\<rparr>)
         (p_secret_key p))
       [(''name'', p_name p), (''status'', ''created'')]"

definition h_iam_delete :: "'x handler" where
  "h_iam_delete env p =
     on_manager (DeleteIAMUser (ge_exec env) (ge_os env) (ge_s3 env) (p_name p))
       [(''name'', p_name p), (''status'', ''deleted'')]"

definition h_iam_list :: "'x handler" where
  "h_iam_list env p =
     on_world (\<lambda>w. (ListIAM (ge_os env) (ge_s3 env) w, w)) (\<lambda>us. JArr (map enc_user us))"

text \<open>\<^verbatim>\<open>Reconcile\<close> returns its partial result next to an error; the error decides.\<close>

definition reconcile_with :: "'x env \<Rightarrow> full_sync_payload \<Rightarrow> 'x agent \<Rightarrow> (json res \<times> 'x agent) option" where
  "reconcile_with env desired =
     on_world (\<lambda>w. case Reconcile (ge_exec env) (ge_os env) (ge_s3 env) desired w of
        ((r, None), w') \<Rightarrow> (Inr r, w')
      | ((r, Some e), w') \<Rightarrow> (Inl e, w')) (enc_reconcile (ge_link env))"

definition in_scope :: "string \<Rightarrow> full_sync_payload \<Rightarrow> full_sync_payload" where
  "in_scope scope desired =
     (if scope = ''buckets'' then desired\<lparr>fsp_iam_users := []\<rparr>
      else if scope = ''iam'' then desired\<lparr>fsp_buckets := []\<rparr>
      else desired)"

definition h_reconcile :: "'x handler" where
  "h_reconcile env p s =
     (case ag_desired s of
        None \<Rightarrow> Some (Inl (Msg (''no desired state available '' @ [CHR 0xE2, CHR 0x80, CHR 0x94] @ '' send full_sync first'')), s)
      | Some desired \<Rightarrow> reconcile_with env (in_scope (p_scope p) desired) s)"

definition h_block :: "'x handler" where
  "h_block env p =
     on_manager (BlockAccessKey (ge_exec env) (ge_os env) (ge_s3 env) (p_access_key p) (p_reason p))
       [(''access_key'', p_access_key p), (''status'', ''blocked'')]"

definition h_unblock :: "'x handler" where
  "h_unblock env p =
     on_manager (UnblockAccessKey (ge_exec env) (ge_os env) (ge_s3 env) (p_access_key p))
       [(''access_key'', p_access_key p), (''status'', ''unblocked'')]"

definition h_blocked_list :: "'x handler" where
  "h_blocked_list env p =
     on_world (\<lambda>w. (ListBlocked (ge_os env) (ge_s3 env) w, w)) (enc_appended JStr)"

definition run_table :: "(string \<times> 'x handler) list" where
  "run_table =
     [(''system.info'', h_info), (''system.metrics'', h_metrics), (''system.cpu'', h_cpu),
      (''system.memory'', h_memory), (''system.disk'', h_disk), (''system.network'', h_network),
      (''services.list'', h_services_list), (''services.get'', h_services_get),
      (''services.start'', h_service_act ActionStart), (''services.stop'', h_service_act ActionStop),
      (''services.restart'', h_service_act ActionRestart), (''services.reload'', h_service_act ActionReload),
      (''services.enable'', h_service_act ActionEnable), (''services.disable'', h_service_act ActionDisable),
      (''vm.reboot'', h_vm_reboot), (''vm.shutdown'', h_vm_shutdown), (''system.update'', h_system_update),
      (''agent.allowed_operations'', h_capabilities), (''telemetry.set_interval'', h_set_interval),
      (''exec'', h_exec), (''s3.cluster.status'', h_cluster_status), (''s3.bucket.stats'', h_bucket_stats),
      (''bucket_create'', h_bucket_create), (''bucket_update'', h_bucket_update),
      (''bucket_delete'', h_bucket_delete), (''worm_bucket_create'', h_worm_create),
      (''worm_bucket_update'', h_worm_update), (''worm_bucket_delete'', h_worm_delete),
      (''iam_create'', h_iam_create), (''iam_delete'', h_iam_delete), (''s3.iam.list'', h_iam_list),
      (''reconcile'', h_reconcile), (''s3.customer.block'', h_block), (''s3.customer.unblock'', h_unblock),
      (''s3.blocked.list'', h_blocked_list)]"

definition run :: "'x env \<Rightarrow> string \<Rightarrow> params \<Rightarrow> 'x agent \<Rightarrow> (json res \<times> 'x agent) option" where
  "run env op p s =
     (case map_of run_table op of
        None \<Rightarrow> Some (Inl (MsgQ ''unknown operation '' op []), s)
      | Some h \<Rightarrow> h env p s)"

definition runFullSync :: "'x env \<Rightarrow> json option \<Rightarrow> 'x agent \<Rightarrow> (json res \<times> 'x agent) option" where
  "runFullSync env raw s =
     (case unmarshal_raw dec_full_sync \<lparr>fsp_buckets = [], fsp_iam_users = []\<rparr> raw of
        Inl e \<Rightarrow> Some (Inl (Wrap ''decoding full_sync payload'' e), s)
      | Inr payload \<Rightarrow> reconcile_with env payload (s\<lparr>ag_desired := Some payload\<rparr>))"

subsection \<open>Dispatch\<close>

text \<open>A failure to build the answer is logged, and the empty envelope is the answer.\<close>

definition answer :: "'x env \<Rightarrow> envelope \<Rightarrow> status \<Rightarrow> string \<Rightarrow> json option \<Rightarrow> 'x agent \<Rightarrow> envelope \<times> 'x agent" where
  "answer env src st msg output s =
     (case ResultFor (ge_os env) (ge_link env) src (ge_uuid env) (ge_type env) st msg
             (map_option Inr output) (ag_world s) of
        (Inl _, w') \<Rightarrow> (zero_envelope, s\<lparr>ag_world := w'\<rparr>)
      | (Inr e, w') \<Rightarrow> (e, s\<lparr>ag_world := w'\<rparr>))"

definition ok_answer :: "'x env \<Rightarrow> envelope \<Rightarrow> json \<Rightarrow> 'x agent \<Rightarrow> envelope \<times> 'x agent" where
  "ok_answer env src output = answer env src StatusCompleted [] (Some output)"

definition fail_answer :: "'x env \<Rightarrow> envelope \<Rightarrow> string \<Rightarrow> 'x agent \<Rightarrow> envelope \<times> 'x agent" where
  "fail_answer env src msg = answer env src StatusFailed msg None"

definition reject_answer :: "'x env \<Rightarrow> envelope \<Rightarrow> string \<Rightarrow> 'x agent \<Rightarrow> envelope \<times> 'x agent" where
  "reject_answer env src msg = answer env src StatusRejected msg None"

definition emptyParams :: "json \<Rightarrow> bool" where
  "emptyParams raw \<longleftrightarrow> raw \<in> {JNull, JArr [], JObj []}"

definition decode_params :: "json option \<Rightarrow> params res" where
  "decode_params raw =
     (case raw of
        None \<Rightarrow> Inr zero_params
      | Some j \<Rightarrow> if emptyParams j then Inr zero_params else unmarshal_raw dec_params zero_params raw)"

definition zero_command :: command_payload where
  "zero_command = \<lparr>cp_operation = [], cp_params = None, cp_timeout_s = 0\<rparr>"

definition conclude :: "'x env \<Rightarrow> envelope \<Rightarrow> (json res \<times> 'x agent) option \<Rightarrow> (envelope \<times> 'x agent) option" where
  "conclude env src r =
     (case r of
        None \<Rightarrow> None
      | Some (Inl e, s') \<Rightarrow> Some (fail_answer env src (err_text (ge_link env) e) s')
      | Some (Inr out, s') \<Rightarrow> Some (ok_answer env src out s'))"

definition Dispatch :: "'x env \<Rightarrow> envelope \<Rightarrow> 'x agent \<Rightarrow> (envelope \<times> 'x agent) option" where
  "Dispatch env src s =
     (case DecodePayload dec_command zero_command src of
        Inl e \<Rightarrow> Some (reject_answer env src (''could not decode command payload: '' @ err_text (ge_link env) e) s)
      | Inr cmd \<Rightarrow>
          let op = cp_operation cmd in
          if op \<notin> set (AllowedOperations (ge_agent env)) then
            Some (reject_answer env src
              (''operation '' @ lk_quote (ge_link env) op @ '' is not permitted on this agent'') s)
          else if op = ''full_sync'' then conclude env src (runFullSync env (cp_params cmd) s)
          else
            (case decode_params (cp_params cmd) of
               Inl e \<Rightarrow> Some (reject_answer env src (''could not decode params: '' @ err_text (ge_link env) e) s)
             | Inr p \<Rightarrow> conclude env src (run env op p s)))"

text \<open>
  The callback that \<^verbatim>\<open>main\<close> subscribes: dispatch, then answer on the inbox of a synchronous caller or on the
  event subject. A message that is not an envelope of version 1 is dropped.
\<close>

definition handle_message :: "'x env \<Rightarrow> string \<Rightarrow> 'x agent \<Rightarrow> 'x agent option" where
  "handle_message env data s =
     (case received data of
        None \<Rightarrow> Some s
      | Some src \<Rightarrow>
          (case Dispatch env src s of
             None \<Rightarrow> None
           | Some (result, s') \<Rightarrow>
               let subject = (if en_reply_to src \<noteq> [] then en_reply_to src else EvtSubject (ge_client env)) in
               Some (s'\<lparr>ag_world := snd (PublishToSubject (ge_link env) subject result (ag_world s'))\<rparr>)))"

subsection \<open>Answers\<close>

text \<open>An answer: a result of version 1 that carries the command's id and a status.\<close>

definition answers :: "envelope \<Rightarrow> status \<Rightarrow> envelope \<Rightarrow> bool" where
  "answers src st e \<longleftrightarrow> en_v e = 1 \<and> en_type e = ''result'' \<and>
     (\<exists>rest. en_payload e = Some (JObj ((''command_id'', JStr (en_id src)) # (''status'', JStr (status_str st)) # rest)))"

abbreviation after_random :: "'x env \<Rightarrow> 'x agent \<Rightarrow> 'x agent" where
  "after_random env s \<equiv> s\<lparr>ag_world := (ag_world s)\<lparr>ext := snd (lk_random (ge_link env) (ext (ag_world s)))\<rparr>\<rparr>"

lemma answer_answers:
  "\<exists>e. answer env src st msg out s = (e, after_random env s) \<and> answers src st e"
  by (cases out) (auto simp: answer_def ResultFor_def New_def enc_result_def answers_def Let_def split: prod.splits)

lemma conclude_answers:
  "conclude env src r = Some (e, s') \<Longrightarrow> answers src StatusFailed e \<or> answers src StatusCompleted e"
  using answer_answers[of env src]
  by (auto simp: conclude_def fail_answer_def ok_answer_def split: option.splits sum.splits prod.splits) (metis fst_conv)+

lemma conclude_None: "conclude env src r = None \<longleftrightarrow> r = None"
  by (auto simp: conclude_def split: option.splits sum.splits)

text \<open>The commands that get past the gate.\<close>

definition permitted :: "'x env \<Rightarrow> envelope \<Rightarrow> bool" where
  "permitted env src \<longleftrightarrow>
     (case DecodePayload dec_command zero_command src of
        Inl _ \<Rightarrow> False
      | Inr cmd \<Rightarrow> cp_operation cmd \<in> set (AllowedOperations (ge_agent env)) \<and>
          (cp_operation cmd = ''full_sync'' \<or> is_ok (decode_params (cp_params cmd))))"

lemma Dispatch_not_permitted:
  assumes "\<not> permitted env src"
  shows "\<exists>e. Dispatch env src s = Some (e, after_random env s) \<and> answers src StatusRejected e"
  using assms answer_answers[of env src StatusRejected _ None s]
  by (auto simp: Dispatch_def permitted_def reject_answer_def Let_def split: sum.splits)

lemma status_distinct: "answers src st e \<Longrightarrow> answers src st' e \<Longrightarrow> st = st'"
  by (cases st; cases st') (auto simp: answers_def)

lemma Dispatch_permitted:
  assumes "permitted env src"
  shows "Dispatch env src s = None \<or>
    (\<exists>e s'. Dispatch env src s = Some (e, s') \<and> (answers src StatusFailed e \<or> answers src StatusCompleted e))"
proof -
  obtain cmd where c: "DecodePayload dec_command zero_command src = Inr cmd"
    "cp_operation cmd \<in> set (AllowedOperations (ge_agent env))"
    "cp_operation cmd = ''full_sync'' \<or> is_ok (decode_params (cp_params cmd))"
    using assms by (auto simp: permitted_def split: sum.splits)
  then have "\<exists>r. Dispatch env src s = conclude env src r"
    by (cases "decode_params (cp_params cmd)"; cases "cp_operation cmd = ''full_sync''") (auto simp: Dispatch_def Let_def)
  then obtain r where "Dispatch env src s = conclude env src r" by blast
  then show ?thesis using conclude_answers[of env src r] by (metis option.exhaust surj_pair)
qed

text \<open>Only the cluster poll can panic.\<close>

lemma on_ext_Some [simp]: "on_ext f enc s \<noteq> None"
  by (simp add: on_ext_def split: prod.split)

lemma on_world_Some [simp]: "on_world f enc s \<noteq> None"
  by (simp add: on_world_def split: prod.split)

lemmas handler_defs = h_info_def h_metrics_def h_cpu_def h_memory_def h_disk_def h_network_def
  h_services_list_def h_services_get_def h_service_act_def h_vm_reboot_def h_vm_shutdown_def
  h_system_update_def h_capabilities_def h_set_interval_def h_exec_def h_bucket_stats_def
  h_bucket_create_def h_bucket_update_def h_bucket_delete_def h_worm_create_def h_worm_update_def
  h_worm_delete_def h_iam_create_def h_iam_delete_def h_iam_list_def h_reconcile_def h_block_def
  h_unblock_def h_blocked_list_def on_manager_def reconcile_with_def exec_map_def

lemma run_None:
  assumes "run env op p s = None"
  shows "op = ''s3.cluster.status'' \<and> PollCluster (ge_os env) (ge_s3 env) (Some (ge_svc env)) (ag_world s) = None"
proof -
  obtain h where "map_of run_table op = Some h" "h env p s = None"
    using assms by (auto simp: run_def split: option.splits)
  then have "(op, h) \<in> set run_table" by (blast dest: map_of_SomeD)
  then have "op = ''s3.cluster.status'' \<and> h = h_cluster_status"
    using \<open>h env p s = None\<close>
    by (simp add: run_table_def del: prod.inject)
      (elim disjE; auto simp: handler_defs Let_def split: option.splits sum.splits prod.splits if_splits)
  then show ?thesis using \<open>h env p s = None\<close> by (auto simp: h_cluster_status_def split: option.splits)
qed

lemma runFullSync_Some: "runFullSync env raw s \<noteq> None"
  by (simp add: runFullSync_def reconcile_with_def del: not_None_eq split: sum.split)

lemma Dispatch_None:
  assumes "Dispatch env src s = None"
  shows "''s3.cluster.status'' \<in> set (AllowedOperations (ge_agent env)) \<and>
    PollCluster (ge_os env) (ge_s3 env) (Some (ge_svc env)) (ag_world s) = None"
  using assms run_None[of env _ _ s]
  by (fastforce simp: Dispatch_def Let_def conclude_None runFullSync_Some split: sum.splits if_splits)

lemma find_self:
  "distinct (map f xs) \<Longrightarrow> x \<in> set xs \<Longrightarrow> find (\<lambda>s. f s = f x) xs = Some x"
  by (induction xs) (auto simp: image_iff)

lemma map_filter_find_self:
  assumes "distinct (map f xs)"
  shows "List.map_filter (\<lambda>k. find (\<lambda>s. f s = k) xs) (map f xs) = xs"
proof -
  have "List.map_filter (\<lambda>k. find (\<lambda>s. f s = k) xs) (map f ys) = ys" if "set ys \<subseteq> set xs" for ys
    using that by (induction ys) (auto simp: find_self[OF assms])
  then show ?thesis by blast
qed

lemma catalog_names_distinct: "distinct (map sc_operation operationCatalog)"
  by (simp add: operationCatalog_def machine_catalog_def storage_catalog_def schema_def)

text \<open>The answer's status: rejected exactly outside the gate.\<close>

lemma Dispatch_status:
  "case Dispatch env src s of
     None \<Rightarrow> ''s3.cluster.status'' \<in> set (AllowedOperations (ge_agent env)) \<and>
       (\<exists>err. os_url (ge_os env) (S3URL (ge_s3 env) @ ''/'') = Inl err)
   | Some (e, s') \<Rightarrow> \<exists>st. answers src st e \<and> (st = StatusRejected \<longleftrightarrow> \<not> permitted env src)"
proof (cases "permitted env src")
  case True
  from Dispatch_permitted[OF True, of s] show ?thesis
  proof
    assume none: "Dispatch env src s = None"
    then have "PollCluster (ge_os env) (ge_s3 env) (Some (ge_svc env)) (ag_world s) = None"
      using Dispatch_None by blast
    then have "\<exists>err. os_url (ge_os env) (S3URL (ge_s3 env) @ ''/'') = Inl err"
      by (rule iffD1[OF PollCluster_None])
    then show ?thesis using none Dispatch_None[OF none] by simp
  next
    assume "\<exists>e s'. Dispatch env src s = Some (e, s') \<and> (answers src StatusFailed e \<or> answers src StatusCompleted e)"
    then show ?thesis using True by auto
  qed
next
  case False
  then obtain e where "Dispatch env src s = Some (e, after_random env s)" "answers src StatusRejected e"
    using Dispatch_not_permitted by blast
  then show ?thesis using False by auto
qed

subsection \<open>Properties\<close>

text \<open>
  C1. The gate. A command that does not decode, whose operation is not configured, or whose parameters do
  not decode is answered with a rejection that carries its id, and nothing else happens: no file, no
  program, no request, no change of the agent's state apart from the random bytes of the answer's id.
\<close>

theorem Dispatch_gate:
  assumes "\<not> permitted env src"
  shows "\<exists>e. Dispatch env src s = Some (e, after_random env s) \<and> answers src StatusRejected e"
  by (rule Dispatch_not_permitted[OF assms])


text \<open>
  What the platform is told and what the agent does disagree. With the default configuration every
  permitted operation is one the dispatcher knows, but four of them (bucket update and the three WORM
  operations) are missing from the announced capabilities; and with no configured operation the whole
  catalog is announced while every command is rejected.
\<close>

theorem capabilities_disagree:
  "set default_operations - {''full_sync''} \<subseteq> set (map fst (run_table :: (string \<times> 'x handler) list)) \<and>
   map sc_operation (ca_operations (capabilities_of (cfg_agent setDefaults))) =
     filter (\<lambda>op. op \<notin> {''bucket_update'', ''worm_bucket_create'', ''worm_bucket_update'', ''worm_bucket_delete''})
       default_operations \<and>
   set (ca_operations (capabilities_of (c\<lparr>AllowedOperations := []\<rparr>))) = set operationCatalog \<and>
   (\<exists>e s'. Dispatch (env\<lparr>ge_agent := c\<lparr>AllowedOperations := []\<rparr>\<rparr>) src s = Some (e, s') \<and> answers src StatusRejected e)"
proof (intro conjI)
  show "set default_operations - {''full_sync''} \<subseteq> set (map fst (run_table :: (string \<times> 'x handler) list))"
    by (simp add: Diff_subset_conv default_operations_def run_table_def)
  show "map sc_operation (ca_operations (capabilities_of (cfg_agent setDefaults))) =
     filter (\<lambda>op. op \<notin> {''bucket_update'', ''worm_bucket_create'', ''worm_bucket_update'', ''worm_bucket_delete''})
       default_operations"
    by code_simp
  show "set (ca_operations (capabilities_of (c\<lparr>AllowedOperations := []\<rparr>))) = set operationCatalog"
    using map_filter_find_self[OF catalog_names_distinct] by (simp add: capabilities_of_def find_schema_def[abs_def])
  have "\<not> permitted (env\<lparr>ge_agent := c\<lparr>AllowedOperations := []\<rparr>\<rparr>) src"
    by (simp add: permitted_def split: sum.split)
  then show "\<exists>e s'. Dispatch (env\<lparr>ge_agent := c\<lparr>AllowedOperations := []\<rparr>\<rparr>) src s = Some (e, s') \<and> answers src StatusRejected e"
    using Dispatch_not_permitted by blast
qed


subsection \<open>Examples\<close>

definition sample_link :: "'x link" where
  "sample_link = \<lparr>lk_random = (\<lambda>x. (replicate 16 (CHR ''r''), x)), lk_publish = (\<lambda>s d x. (None, x)),
     lk_dial = (\<lambda>u n p x. (None, x)), lk_subscribe = (\<lambda>s x. (None, x)), lk_float = (\<lambda>r. ''0''), lk_time = (\<lambda>t. []), lk_quote = (\<lambda>s. s)\<rparr>"

definition no_gops :: "'x gops" where
  "no_gops = \<lparr>gp_host = Pair (Inl []), gp_percent = (\<lambda>_. Pair (Inl [])), gp_counts = Pair (Inl []),
     gp_load = Pair (Inl []), gp_memory = Pair (Inl []), gp_partitions = Pair (Inl []), gp_io = Pair None,
     gp_usage = (\<lambda>_. Pair (Inl [])), gp_net = Pair (Inl []), gp_interfaces = Pair (Inl [])\<rparr>"

definition sample_env :: "'x os \<Rightarrow> 'x env" where
  "sample_env os = \<lparr>ge_os = os, ge_link = sample_link, ge_gops = no_gops, ge_svc = WindowsManager,
     ge_exec = New_Executor, ge_s3 = sample_config, ge_agent = cfg_agent setDefaults,
     ge_client = \<lparr>cl_agent_uuid = ''u-1'', cl_agent_type = ''storage''\<rparr>, ge_uuid = ''u-1'', ge_type = ''storage''\<rparr>"

definition sample_agent :: "'x world \<Rightarrow> 'x agent" where
  "sample_agent w = \<lparr>ag_world = w, ag_sys = New_Module None, ag_traffic = 0, ag_chan = None,
     ag_desired = Some sample_desired\<rparr>"

definition exec_command :: envelope where
  "exec_command = sample_command\<lparr>en_payload := Some (JObj [(''operation'', JStr ''exec''),
     (''params'', JObj [(''command'', JStr ''/bin/sh'')])])\<rparr>"

text \<open>\<open>exec\<close> is not among the default operations.\<close>

theorem Dispatch_gate_witness:
  "\<exists>e. Dispatch (sample_env calm_os) exec_command (sample_agent (one_file ''/x'' [])) =
      Some (e, sample_agent (one_file ''/x'' [])) \<and> answers exec_command StatusRejected e"
proof -
  have "DecodePayload dec_command zero_command exec_command =
      Inr \<lparr>cp_operation = ''exec'', cp_params = Some (JObj [(''command'', JStr ''/bin/sh'')]), cp_timeout_s = 0\<rparr>"
    by (simp add: exec_command_def sample_command_def DecodePayload_def unmarshal_raw_def dec_command_def
        dec_raw_message_def field_def find_field_def zero_command_def)
  then have "\<not> permitted (sample_env calm_os) exec_command"
    by (simp add: permitted_def sample_env_def setDefaults_def default_operations_def)
  from Dispatch_gate[OF this, of "sample_agent (one_file ''/x'' [])"] show ?thesis
    by (simp add: sample_env_def sample_link_def sample_agent_def one_file_def)
qed


text \<open>An interval too large for a 64-bit count of nanoseconds wraps and becomes the minimum.\<close>

lemma large_interval_is_minimum: "clamp_interval (requested_interval 10000000000) = minTelemetryInterval"
  by code_simp

end
