(* ===== verification/IsoConfig.thy ===== *)
theory IsoConfig
  imports JsonDecode S3Types
begin

section \<open>The config drive (pkg/isoconfig/reader.go)\<close>

text \<open>
  The metadata file of the virtual machine's config drive and its accessors. YAML is read by a third-party
  package, the parameter \<open>yaml\<close>; the JSON fallback goes through the decoder of the development. The mount
  path is clean, as in the configuration, so joining it with a file name is concatenation.
\<close>

record virtual_disk =
  vd_disk_type :: string
  vd_device_number :: int
  vd_total_disk :: int

record network =
  nw_ip_addr :: string
  nw_ip_range_start :: string
  nw_ip_range_end :: string
  nw_gateway :: "string option"
  nw_subnet :: string
  nw_netmask :: string
  nw_network_address :: string
  nw_dhcp_server :: string
  nw_dns_nameservers :: "string slice"
  nw_mtu :: int

record ip_entry =
  ip_id :: string
  ip_addr :: string
  ip_version :: "string option"
  ip_is_reachable :: "bool option"

record network_card =
  nic_device_number :: int
  nic_mac_addr :: string
  nic_network :: network
  nic_ip_list :: "ip_entry slice"

record service_role =
  ro_name :: string
  ro_config :: string

record vm_metadata =
  vm_hostname :: string
  vm_username :: string
  vm_password :: string
  vm_agent_api_key :: string
  vm_virtual_machine_id :: string
  vm_disks :: "virtual_disk slice"
  vm_network_cards :: "network_card slice"
  vm_service_roles :: "service_role slice"
  vm_ssh_public_keys :: "string slice"

text \<open>The facade: a nil receiver and a nil \<^verbatim>\<open>raw\<close> behave alike, both are \<open>None\<close>.\<close>

type_synonym iso_metadata = "vm_metadata option"

subsection \<open>Accessors\<close>

definition iso_field :: "(vm_metadata \<Rightarrow> string) \<Rightarrow> iso_metadata \<Rightarrow> string" where
  "iso_field get m = (case m of None \<Rightarrow> [] | Some vm \<Rightarrow> get vm)"

definition VMID :: "iso_metadata \<Rightarrow> string" where "VMID = iso_field vm_virtual_machine_id"
definition Hostname :: "iso_metadata \<Rightarrow> string" where "Hostname = iso_field vm_hostname"
definition Username :: "iso_metadata \<Rightarrow> string" where "Username = iso_field vm_username"
definition Password :: "iso_metadata \<Rightarrow> string" where "Password = iso_field vm_password"
definition AgentAPIKey :: "iso_metadata \<Rightarrow> string" where "AgentAPIKey = iso_field vm_agent_api_key"
definition TenantID :: "iso_metadata \<Rightarrow> string" where "TenantID m = []"
definition APIKey :: "iso_metadata \<Rightarrow> string" where "APIKey m = Password m"
definition AgentToken :: "iso_metadata \<Rightarrow> string" where "AgentToken m = AgentAPIKey m"
definition ControlPlaneURL :: "iso_metadata \<Rightarrow> string" where "ControlPlaneURL m = []"

text \<open>The three searches return the first card that has something.\<close>

fun first_nic :: "(network_card \<Rightarrow> 'a option) \<Rightarrow> 'a \<Rightarrow> network_card list \<Rightarrow> 'a" where
  "first_nic get d [] = d"
| "first_nic get d (nic # nics) =
     (case get nic of Some v \<Rightarrow> v | None \<Rightarrow> first_nic get d nics)"

definition nics_of :: "iso_metadata \<Rightarrow> network_card list" where
  "nics_of m = (case m of None \<Rightarrow> [] | Some vm \<Rightarrow> elems (vm_network_cards vm))"

definition PrimaryIP :: "iso_metadata \<Rightarrow> string" where
  "PrimaryIP m =
     first_nic (\<lambda>nic. case elems (nic_ip_list nic) of [] \<Rightarrow> None | ip # _ \<Rightarrow> Some (ip_addr ip)) [] (nics_of m)"

definition Gateway_addr :: "iso_metadata \<Rightarrow> string" where
  "Gateway_addr m = first_nic (\<lambda>nic. nw_gateway (nic_network nic)) [] (nics_of m)"

definition DNSNameservers :: "iso_metadata \<Rightarrow> string slice" where
  "DNSNameservers m =
     first_nic (\<lambda>nic. if elems (nw_dns_nameservers (nic_network nic)) \<noteq> []
                      then Some (nw_dns_nameservers (nic_network nic)) else None) None (nics_of m)"

subsection \<open>The JSON form\<close>

text \<open>A pointer: null is nil, anything else decodes into the value it has or a fresh zero.\<close>

definition dec_ptr :: "'a \<Rightarrow> 'a decoder \<Rightarrow> 'a option decoder" where
  "dec_ptr zero d j old =
     (if j = JNull then Some None
      else map_option Some (d j (case old of None \<Rightarrow> zero | Some v \<Rightarrow> v)))"

text \<open>\<^verbatim>\<open>DataList\<close> and \<^verbatim>\<open>DataWrapper\<close>: an object with the one field data.\<close>

definition dec_data :: "'a decoder \<Rightarrow> 'a decoder" where
  "dec_data d = dec_struct [field ''data'' d id id]"

definition zero_disk_md :: virtual_disk where
  "zero_disk_md = \<lparr>vd_disk_type = [], vd_device_number = 0, vd_total_disk = 0\<rparr>"

definition dec_virtual_disk :: "virtual_disk decoder" where
  "dec_virtual_disk = dec_struct
     [field ''disk_type'' dec_string vd_disk_type vd_disk_type_update,
      field ''device_number'' dec_int vd_device_number vd_device_number_update,
      field ''total_disk'' dec_int vd_total_disk vd_total_disk_update]"

definition zero_network :: network where
  "zero_network = \<lparr>nw_ip_addr = [], nw_ip_range_start = [], nw_ip_range_end = [], nw_gateway = None, nw_subnet = [],
     nw_netmask = [], nw_network_address = [], nw_dhcp_server = [], nw_dns_nameservers = None, nw_mtu = 0\<rparr>"

definition dec_network :: "network decoder" where
  "dec_network = dec_struct
     [field ''ip_addr'' dec_string nw_ip_addr nw_ip_addr_update,
      field ''ip_range_start'' dec_string nw_ip_range_start nw_ip_range_start_update,
      field ''ip_range_end'' dec_string nw_ip_range_end nw_ip_range_end_update,
      field ''gateway'' (dec_ptr [] dec_string) nw_gateway nw_gateway_update,
      field ''subnet'' dec_string nw_subnet nw_subnet_update,
      field ''netmask'' dec_string nw_netmask nw_netmask_update,
      field ''network'' dec_string nw_network_address nw_network_address_update,
      field ''dhcp_server'' dec_string nw_dhcp_server nw_dhcp_server_update,
      field ''dns_nameservers'' (dec_slice [] dec_string) nw_dns_nameservers nw_dns_nameservers_update,
      field ''mtu'' dec_int nw_mtu nw_mtu_update]"

definition zero_ip :: ip_entry where
  "zero_ip = \<lparr>ip_id = [], ip_addr = [], ip_version = None, ip_is_reachable = None\<rparr>"

definition dec_ip_entry :: "ip_entry decoder" where
  "dec_ip_entry = dec_struct
     [field ''id'' dec_string ip_id ip_id_update,
      field ''ip_addr'' dec_string ip_addr ip_addr_update,
      field ''version'' (dec_ptr [] dec_string) ip_version ip_version_update,
      field ''is_reachable'' (dec_ptr False dec_bool) ip_is_reachable ip_is_reachable_update]"

definition zero_nic :: network_card where
  "zero_nic = \<lparr>nic_device_number = 0, nic_mac_addr = [], nic_network = zero_network, nic_ip_list = None\<rparr>"

definition dec_network_card :: "network_card decoder" where
  "dec_network_card = dec_struct
     [field ''device_number'' dec_int nic_device_number nic_device_number_update,
      field ''mac_addr'' dec_string nic_mac_addr nic_mac_addr_update,
      field ''network'' (dec_data dec_network) nic_network nic_network_update,
      field ''ipList'' (dec_data (dec_slice zero_ip dec_ip_entry)) nic_ip_list nic_ip_list_update]"

definition zero_role :: service_role where
  "zero_role = \<lparr>ro_name = [], ro_config = []\<rparr>"

definition dec_service_role :: "service_role decoder" where
  "dec_service_role = dec_struct
     [field ''name'' dec_string ro_name ro_name_update,
      field ''config'' dec_string ro_config ro_config_update]"

definition zero_vm :: vm_metadata where
  "zero_vm = \<lparr>vm_hostname = [], vm_username = [], vm_password = [], vm_agent_api_key = [],
     vm_virtual_machine_id = [], vm_disks = None, vm_network_cards = None, vm_service_roles = None,
     vm_ssh_public_keys = None\<rparr>"

definition dec_vm :: "vm_metadata decoder" where
  "dec_vm = dec_struct
     [field ''hostname'' dec_string vm_hostname vm_hostname_update,
      field ''username'' dec_string vm_username vm_username_update,
      field ''password'' dec_string vm_password vm_password_update,
      field ''agent_api_key'' dec_string vm_agent_api_key vm_agent_api_key_update,
      field ''virtual_machine_id'' dec_string vm_virtual_machine_id vm_virtual_machine_id_update,
      field ''virtualDisks'' (dec_data (dec_slice zero_disk_md dec_virtual_disk)) vm_disks vm_disks_update,
      field ''virtualNetworkCards'' (dec_data (dec_slice zero_nic dec_network_card)) vm_network_cards vm_network_cards_update,
      field ''serviceRoles'' (dec_data (dec_slice zero_role dec_service_role)) vm_service_roles vm_service_roles_update,
      field ''SSHPublicKeys'' (dec_slice [] dec_string) vm_ssh_public_keys vm_ssh_public_keys_update]"

subsection \<open>Reading\<close>

definition iso_path :: "string \<Rightarrow> string \<Rightarrow> string" where
  "iso_path mount name = (if mount = [] then name else mount @ ''/'' @ name)"

definition Read :: "'x os \<Rightarrow> (string \<Rightarrow> string + vm_metadata) \<Rightarrow> string \<Rightarrow> 'x world \<Rightarrow> iso_metadata res" where
  "Read os yaml mount w =
     (case read_file os (iso_path mount ''metadata.yaml'') w of
        RdData d \<Rightarrow>
          (case yaml d of
             Inl e \<Rightarrow> Inl (Wrap ''parsing metadata.yaml'' (OsErr e))
           | Inr vm \<Rightarrow> Inr (Some vm))
      | RdError e \<Rightarrow> Inl (Wrap ''reading metadata.yaml'' (OsErr e))
      | RdNotExist \<Rightarrow>
          (case read_file os (iso_path mount ''metadata.json'') w of
             RdData d \<Rightarrow>
               (case unmarshal dec_vm zero_vm d of
                  Inl e \<Rightarrow> Inl (Wrap ''parsing metadata.json'' e)
                | Inr vm \<Rightarrow> Inr (Some vm))
           | RdError e \<Rightarrow> Inl (Wrap ''reading metadata.json'' (OsErr e))
           | RdNotExist \<Rightarrow> Inr None))"

text \<open>Every accessor of absent metadata returns its zero value.\<close>

lemma accessors_None:
  "VMID None = []" "Hostname None = []" "Username None = []" "Password None = []" "AgentAPIKey None = []"
  "PrimaryIP None = []" "Gateway_addr None = []" "DNSNameservers None = None"
  by (simp_all add: VMID_def Hostname_def Username_def Password_def AgentAPIKey_def iso_field_def
      PrimaryIP_def Gateway_addr_def DNSNameservers_def nics_of_def)

end
