(* ===== verification/Agent.thy ===== *)
theory Agent
  imports Dispatcher IsoConfig
begin

section \<open>The agent's start (cmd/agent)\<close>

text \<open>
  \<^verbatim>\<open>run\<close> of \<^verbatim>\<open>cmd/agent/main.go\<close> up to the point where the loops and the subscription are live: configuration,
  logger, identity, service manager, admin credential, connection, subscription, capabilities. What the
  third-party parts do are parameters: viper, the YAML reader, the D-Bus connection, gopsutil, NATS.
  The signal handling that follows is not modelled.
\<close>

subsection \<open>The logger\<close>

text \<open>
  What \<^verbatim>\<open>buildLogger\<close> assembles: one core for standard output and one for the log file, if configured. The
  parameter \<open>log_env\<close> is zap's parser of level names and the two calls on the log file.
\<close>

record log_env =
  le_level :: "string \<Rightarrow> int option"
  le_mkdir :: "string \<Rightarrow> string option"
  le_open :: "string \<Rightarrow> string option"

datatype log_encoder = ConsoleEncoder | JSONEncoder

record log_core =
  lc_encoder :: log_encoder
  lc_file :: "string option"
  lc_level :: int

definition InfoLevel :: int where "InfoLevel = 0"

definition buildLogger :: "log_env \<Rightarrow> log_config \<Rightarrow> log_core list res" where
  "buildLogger le cfg =
     (let level = (case le_level le (LogLevel cfg) of None \<Rightarrow> InfoLevel | Some l \<Rightarrow> l);
          stdoutCore = \<lparr>lc_encoder = (if LogFormat cfg = ''console'' then ConsoleEncoder else JSONEncoder),
                        lc_file = None, lc_level = level\<rparr>
      in if LogFile cfg = [] then Inr [stdoutCore]
         else
           (case le_mkdir le (path_dir (LogFile cfg)) of
              Some e \<Rightarrow> Inl (Wrap ''creating log directory'' (OsErr e))
            | None \<Rightarrow>
                (case le_open le (LogFile cfg) of
                   Some e \<Rightarrow> Inl (Wrap (''opening log file '' @ LogFile cfg) (OsErr e))
                 | None \<Rightarrow> Inr [stdoutCore, \<lparr>lc_encoder = JSONEncoder, lc_file = Some (LogFile cfg), lc_level = level\<rparr>])))"

subsection \<open>Starting\<close>

text \<open>\<^verbatim>\<open>newServiceManager\<close> of the two platforms: a failed connection gives a manager without a bus.\<close>

definition newServiceManager :: "bool \<Rightarrow> (string + 'x bus) \<Rightarrow> 'x manager" where
  "newServiceManager windows conn =
     (if windows then WindowsManager
      else LinuxManager (case conn of Inl _ \<Rightarrow> None | Inr b \<Rightarrow> Some b))"

text \<open>The configured identity, overridden by a config drive that names the machine.\<close>

definition resolve_identity :: "nats_config \<Rightarrow> iso_metadata res \<Rightarrow> string \<times> string" where
  "resolve_identity cfg isom =
     (case isom of
        Inl _ \<Rightarrow> (NatsAgentUUID cfg, NatsAPIKey cfg)
      | Inr m \<Rightarrow> if VMID m \<noteq> [] then (VMID m, AgentAPIKey m) else (NatsAgentUUID cfg, NatsAPIKey cfg))"

definition iso_of :: "iso_metadata res \<Rightarrow> iso_metadata" where
  "iso_of isom = (case isom of Inl _ \<Rightarrow> None | Inr m \<Rightarrow> m)"

definition agent_type_of :: "config \<Rightarrow> string" where
  "agent_type_of cfg = (if AgentType (cfg_agent cfg) = [] then ''storage'' else AgentType (cfg_agent cfg))"

definition Start :: "'x env \<Rightarrow> 'x agent \<Rightarrow> 'x agent" where
  "Start env s = s\<lparr>ag_world := snd (sendCapabilities env (ag_world s))\<rparr>"

definition agent_run ::
  "viper \<Rightarrow> log_env \<Rightarrow> (string \<Rightarrow> string + vm_metadata) \<Rightarrow> bool \<Rightarrow> string + 'x bus
    \<Rightarrow> 'x os \<Rightarrow> 'x link \<Rightarrow> 'x gops \<Rightarrow> string \<Rightarrow> 'x world \<Rightarrow> ('x env \<times> 'x agent) res \<times> 'x world" where
  "agent_run vp le yaml windows conn os lk gp cfgFile w =
     (case Load vp cfgFile of
        Inl e \<Rightarrow> (Inl (Wrap ''loading config'' e), w)
      | Inr cfg \<Rightarrow>
     (case buildLogger le (cfg_log cfg) of
        Inl e \<Rightarrow> (Inl (Wrap ''building logger'' e), w)
      | Inr _ \<Rightarrow>
          let agentType = agent_type_of cfg;
              isom = Read os yaml (MountPath (cfg_iso cfg)) w;
              (agentUUID, agentAPIKey) = resolve_identity (cfg_nats cfg) isom;
              svc = newServiceManager windows conn;
              sysMod = New_Module (Some (VMID (iso_of isom), TenantID (iso_of isom)));
              w1 = snd (EnsureAdmin New_Executor os (cfg_s3 cfg) w)
          in (case Connect lk (cfg_nats cfg) agentUUID agentAPIKey agentType w1 of
                (Inl e, w2) \<Rightarrow> (Inl (Wrap ''NATS connection failed'' e), w2)
              | (Inr nc, w2) \<Rightarrow>
                  let env = \<lparr>ge_os = os, ge_link = lk, ge_gops = gp, ge_svc = svc, ge_exec = New_Executor,
                             ge_s3 = cfg_s3 cfg, ge_agent = cfg_agent cfg, ge_client = nc,
                             ge_uuid = agentUUID, ge_type = agentType\<rparr>
                  in (case Subscribe lk nc w2 of
                        (Inl e, w3) \<Rightarrow> (Inl (Wrap ''subscribing to NATS cmd subject'' e), w3)
                      | (Inr _, w3) \<Rightarrow>
                          let s = Start env \<lparr>ag_world = w3, ag_sys = sysMod, ag_traffic = 0, ag_chan = None,
                                             ag_desired = None\<rparr>
                          in (Inr (env, s), ag_world s)))))"

text \<open>
  The configured API key is documented as the fallback for a drive without one; but a drive that names the
  machine replaces the key even with nothing.
\<close>

lemma iso_without_key_drops_configured_key:
  assumes "vm_virtual_machine_id vm \<noteq> []" "vm_agent_api_key vm = []"
  shows "resolve_identity cfg (Inr (Some vm)) = (vm_virtual_machine_id vm, [])"
  using assms by (simp add: resolve_identity_def VMID_def AgentAPIKey_def iso_field_def)

text \<open>A started agent serves exactly the configuration it loaded, under the identity it connected with.\<close>

lemma agent_run_env:
  assumes "agent_run vp le yaml windows conn os lk gp f w = (Inr (env, s), w')"
  shows "\<exists>cfg. Load vp f = Inr cfg \<and> ge_agent env = cfg_agent cfg \<and> ge_s3 env = cfg_s3 cfg \<and>
    ge_uuid env = fst (resolve_identity (cfg_nats cfg) (Read os yaml (MountPath (cfg_iso cfg)) w)) \<and>
    cl_agent_uuid (ge_client env) = ge_uuid env \<and> ag_desired s = None \<and> ag_world s = w'"
  using assms
  by (auto simp: agent_run_def Let_def Connect_def Subscribe_def Start_def
      split: sum.splits option.splits prod.splits)

end
