(* ===== verification/Frame.thy ===== *)
theory Frame
  imports Observer Blocklist Reconcile
begin

section \<open>What the operations leave unchanged\<close>

text \<open>
  Frame lemmas for every operation that touches the world: which files it can change, whatever the outside
  does, with no assumption on the state it starts from. The programs it runs and the servers it talks to
  act on \<open>ext\<close>; the files here are those the agent's own code writes.
\<close>

definition only_writes :: "string set \<Rightarrow> 'x world \<Rightarrow> 'x world \<Rightarrow> bool" where
  "only_writes files w w' \<longleftrightarrow> (\<forall>q. q \<notin> files \<longrightarrow> fs w' q = fs w q)"

lemma only_writes_refl [simp]: "only_writes files w w"
  by (simp add: only_writes_def)

lemma only_writes_fs: "fs w' = fs w \<Longrightarrow> only_writes files w w'"
  by (simp add: only_writes_def)

lemma only_writes_trans: "only_writes files w w1 \<Longrightarrow> only_writes files w1 w2 \<Longrightarrow> only_writes files w w2"
  by (simp add: only_writes_def)

lemma only_writes_mono: "only_writes A w w' \<Longrightarrow> A \<subseteq> B \<Longrightarrow> only_writes B w w'"
  by (auto simp: only_writes_def)

fun aw_temp :: "aw_phase \<Rightarrow> string set" where
  "aw_temp (AwCreated t) = {t}"
| "aw_temp (AwModeSet t) = {t}"
| "aw_temp (AwOwned t) = {t}"
| "aw_temp (AwWritten t) = {t}"
| "aw_temp (AwClosed t) = {t}"
| "aw_temp (AwRemoving t r) = {t}"
| "aw_temp _ = {}"

lemma aw_step_only_writes:
  assumes "aw_temp ph \<subseteq> {temp_name os path w}" "aw_step os path data perm (ph, w) = (ph', w')"
  shows "aw_temp ph' \<subseteq> {temp_name os path w'} \<and> temp_name os path w' = temp_name os path w
    \<and> only_writes {path, temp_name os path w} w w'"
  using assms by (cases ph) (auto simp: only_writes_def temp_name_def Let_def split: option.splits)

lemma aw_exec_only_writes:
  assumes "aw_temp ph \<subseteq> {temp_name os path w}"
  shows "only_writes {path, temp_name os path w} w (snd (aw_exec os path data perm (ph, w)))"
  using assms
proof (induction "aw_rank ph" arbitrary: ph w rule: less_induct)
  case less
  show ?case
  proof (cases "aw_rank ph = 0")
    case True
    then obtain r where "ph = AwDone r" by (cases ph) auto
    then show ?thesis by (simp add: aw_exec.simps)
  next
    case False
    obtain ph' w' where s: "aw_step os path data perm (ph, w) = (ph', w')" by fastforce
    have "aw_rank ph' < aw_rank ph" using aw_step_rank[OF False] s by (metis fst_conv)
    moreover have "aw_exec os path data perm (ph, w) = aw_exec os path data perm (ph', w')"
      using s False aw_exec.simps[of os path data perm ph w] by (cases ph) (simp_all del: aw_step.simps)
    ultimately show ?thesis
      using aw_step_only_writes[OF less.prems s] less.hyps[of ph' w'] only_writes_trans by fastforce
  qed
qed

lemma atomic_write_only_writes:
  "only_writes {path, temp_name os path w} w (snd (atomic_write os path data perm w))"
  by (simp add: atomic_write_def aw_exec_only_writes)

lemma serviceHealth_fs [frame_simps]: "fs (snd (serviceHealth svc name w)) = fs w"
  by (auto simp: serviceHealth_def Let_def split: option.splits prod.splits sum.splits)

lemma getBody_fs [frame_simps]: "fs (snd (getBody os url w)) = fs w"
  using send_fs[of os _ w] by (auto simp: getBody_def split: prod.splits sum.splits) (metis snd_conv)+

lemma head_ok_fs [frame_simps]: "fs (snd (head_ok os url w)) = fs w"
  using send_fs[of os _ w] by (auto simp: head_ok_def split: prod.splits sum.splits) (metis snd_conv)+

lemma pollMaster_fs [frame_simps]: "fs (snd (pollMaster os cfg svc now w)) = fs w"
  by (simp add: pollMaster_def getJSON_def Let_def case_prod_unfold frame_simps)

lemma pollVolume_fs [frame_simps]: "fs (snd (pollVolume os cfg svc now w)) = fs w"
  by (simp add: pollVolume_def getJSON_def Let_def case_prod_unfold frame_simps)

lemma pollFiler_fs [frame_simps]: "fs (snd (pollFiler os cfg svc now w)) = fs w"
  by (simp add: pollFiler_def Let_def case_prod_unfold frame_simps)

lemma pollNginx_fs [frame_simps]: "fs (snd (pollNginx svc now w)) = fs w"
  by (simp add: pollNginx_def Let_def case_prod_unfold frame_simps)

lemma pollS3Gateway_fs: "pollS3Gateway os cfg svc now w = Some (c, w') \<Longrightarrow> fs w' = fs w"
  by (auto simp: pollS3Gateway_def Let_def case_prod_unfold frame_simps split: sum.splits)

lemma PollCluster_fs: "PollCluster os cfg svc w = Some (c, w') \<Longrightarrow> fs w' = fs w"
  by (auto simp: PollCluster_def Let_def case_prod_unfold frame_simps split: option.splits dest!: pollS3Gateway_fs)

lemma BucketStats_fs [frame_simps]: "fs (snd (BucketStats os cfg w)) = fs w"
proof -
  have v: "fs (snd (volumeStatsByCollection os cfg w1)) = fs w1" for w1
    by (simp add: volumeStatsByCollection_def getJSON_def Let_def case_prod_unfold frame_simps)
  have s: "send os req w = (r, w1) \<Longrightarrow> fs w1 = fs w" for req r w1
    using send_fs[of os req w] by simp
  show ?thesis
    by (auto simp: BucketStats_def v case_prod_unfold Let_def dest: s split: sum.splits)
       (metis s prod.collapse)+
qed

lemma write_reload_only_writes:
  "only_writes {IAMFile cfg, temp_name os (IAMFile cfg) w} w (snd (write_reload e os cfg f w))"
proof -
  obtain r1 w1 where wr: "writeIAM os cfg f w = (r1, w1)" by fastforce
  then have "only_writes {IAMFile cfg, temp_name os (IAMFile cfg) w} w w1"
    using atomic_write_only_writes[of "IAMFile cfg" os w "json_indent (enc_iam f)" "0x1A0"] by (simp add: writeIAM_def)
  moreover have "fs (snd (write_reload e os cfg f w)) = fs w1"
    using wr by (simp add: write_reload_def frame_simps split: sum.split)
  ultimately show ?thesis by (simp add: only_writes_def)
qed

lemma CreateIAMUser_only_writes:
  "only_writes {IAMFile cfg, temp_name os (IAMFile cfg) w} w (snd (CreateIAMUser e os cfg u secret w))"
  using write_reload_only_writes by (auto simp: CreateIAMUser_def split: sum.splits)

lemma DeleteIAMUser_only_writes:
  "only_writes {IAMFile cfg, temp_name os (IAMFile cfg) w} w (snd (DeleteIAMUser e os cfg name w))"
  using write_reload_only_writes by (auto simp: DeleteIAMUser_def Let_def split: sum.splits prod.splits)

lemma BlockAccessKey_only_writes:
  "only_writes {NginxBlockedKeysFile cfg, temp_name os (NginxBlockedKeysFile cfg) w} w
     (snd (BlockAccessKey e os cfg k reason w))"
proof -
  have "only_writes {NginxBlockedKeysFile cfg, temp_name os (NginxBlockedKeysFile cfg) w} w
      (snd (case atomic_write os (NginxBlockedKeysFile cfg) d 0x1A4 w of
              (Inl x, w1) \<Rightarrow> (Inl x, w1) | (Inr _, w1) \<Rightarrow> reload_nginx e os w1))" for d
    using atomic_write_only_writes[of "NginxBlockedKeysFile cfg" os w d "0x1A4"]
    by (auto simp: only_writes_def frame_simps split: prod.splits sum.splits)
  then show ?thesis by (auto simp: BlockAccessKey_def Let_def split: read_result.splits)
qed

lemma UnblockAccessKey_only_writes:
  "only_writes {NginxBlockedKeysFile cfg, temp_name os (NginxBlockedKeysFile cfg) w} w
     (snd (UnblockAccessKey e os cfg k w))"
proof -
  obtain r w' where b: "UnblockAccessKey e os cfg k w = (r, w')" by fastforce
  then show ?thesis
  proof (cases rule: UnblockAccessKey_cases)
    case (written d r1 w1)
    then show ?thesis
      using b atomic_write_only_writes[of "NginxBlockedKeysFile cfg" os w _ "0x1A4"] by (metis only_writes_def snd_conv)
  qed (use b in simp_all)
qed

subsection \<open>Everything the agent manages\<close>

definition agent_files :: "'x os \<Rightarrow> s3_config \<Rightarrow> string set" where
  "agent_files os cfg =
     insert (IAMFile cfg) (range (temp_name os (IAMFile cfg))) \<union>
     insert (NginxBlockedKeysFile cfg) (range (temp_name os (NginxBlockedKeysFile cfg)))"

lemma manager_only_writes [intro]:
  "only_writes (agent_files os cfg) w (snd (CreateIAMUser e os cfg u secret w))"
  "only_writes (agent_files os cfg) w (snd (DeleteIAMUser e os cfg name w))"
  "only_writes (agent_files os cfg) w (snd (BlockAccessKey e os cfg k reason w))"
  "only_writes (agent_files os cfg) w (snd (UnblockAccessKey e os cfg k w))"
  "only_writes (agent_files os cfg) w (snd (write_reload e os cfg f w))"
proof -
  have i: "{IAMFile cfg, temp_name os (IAMFile cfg) w} \<subseteq> agent_files os cfg"
    and n: "{NginxBlockedKeysFile cfg, temp_name os (NginxBlockedKeysFile cfg) w} \<subseteq> agent_files os cfg"
    by (auto simp: agent_files_def)
  show "only_writes (agent_files os cfg) w (snd (CreateIAMUser e os cfg u secret w))"
    by (rule only_writes_mono[OF CreateIAMUser_only_writes i])
  show "only_writes (agent_files os cfg) w (snd (DeleteIAMUser e os cfg name w))"
    by (rule only_writes_mono[OF DeleteIAMUser_only_writes i])
  show "only_writes (agent_files os cfg) w (snd (BlockAccessKey e os cfg k reason w))"
    by (rule only_writes_mono[OF BlockAccessKey_only_writes n])
  show "only_writes (agent_files os cfg) w (snd (UnblockAccessKey e os cfg k w))"
    by (rule only_writes_mono[OF UnblockAccessKey_only_writes n])
  show "only_writes (agent_files os cfg) w (snd (write_reload e os cfg f w))"
    by (rule only_writes_mono[OF write_reload_only_writes i])
qed

lemma EnsureAdmin_only_writes: "only_writes (agent_files os cfg) w (snd (EnsureAdmin e os cfg w))"
  using manager_only_writes(5) by (auto simp: EnsureAdmin_def split: sum.split)

end
