(* ===== verification/Guarantee.thy ===== *)
theory Guarantee
  imports Agent Frame
begin

section \<open>What the agent guarantees about the files, handler by handler\<close>

text \<open>
  A guarantee is a relation between the world before and after a piece of code. The locale asks that it is
  transitive, holds wherever the files are unchanged, and holds of the four operations that write files;
  then every handler of the dispatcher and every loop of the publisher keeps it, which is proved here once.
  Two guarantees interpret it: only the managed files change (\<open>only_writes\<close>, below), and the identities
  evolve by whole additions and deletions (\<open>iam_keeps\<close>, in \<open>IamLife\<close>). What reaches the operations is valid
  UTF-8, because it was decoded from a message.
\<close>

locale world_guarantee =
  fixes R :: "'x os \<Rightarrow> s3_config \<Rightarrow> 'x world \<Rightarrow> 'x world \<Rightarrow> bool"
  assumes R_fs: "fs w' = fs w \<Longrightarrow> R os cfg w w'"
    and R_trans: "R os cfg w w1 \<Longrightarrow> R os cfg w1 w2 \<Longrightarrow> R os cfg w w2"
    and R_create: "ok_identity (new_identity u secret) \<Longrightarrow> R os cfg w (snd (CreateIAMUser e os cfg u secret w))"
    and R_delete: "R os cfg w (snd (DeleteIAMUser e os cfg n w))"
    and R_block: "R os cfg w (snd (BlockAccessKey e os cfg k reason w))"
    and R_unblock: "R os cfg w (snd (UnblockAccessKey e os cfg k w))"

interpretation files: world_guarantee "\<lambda>os cfg. only_writes (agent_files os cfg)"
  by unfold_locales (auto intro: only_writes_fs only_writes_trans)

subsection \<open>Decoded input\<close>

definition acl_ok :: "bucket_acl \<Rightarrow> bool" where
  "acl_ok a \<longleftrightarrow> valid_utf8 (acl_bucket_id a)"

definition params_ok :: "params \<Rightarrow> bool" where
  "params_ok p \<longleftrightarrow> valid_utf8 (p_name p) \<and> valid_utf8 (p_access_key p) \<and> valid_utf8 (p_secret_key p)
     \<and> (\<forall>a \<in> set (p_bucket_acls p). acl_ok a)"

definition user_ok :: "iam_user \<Rightarrow> bool" where
  "user_ok u \<longleftrightarrow> valid_utf8 (iu_name u) \<and> valid_utf8 (iu_access_key u) \<and> valid_utf8 (iu_secret_key u)
     \<and> (\<forall>a \<in> set (iu_bucket_acls u). acl_ok a)"

definition desired_ok :: "full_sync_payload \<Rightarrow> bool" where
  "desired_ok d \<longleftrightarrow> (\<forall>u \<in> set (fsp_iam_users d). user_ok u)"

definition cached_ok :: "'x agent \<Rightarrow> bool" where
  "cached_ok s \<longleftrightarrow> (\<forall>d. ag_desired s = Some d \<longrightarrow> desired_ok d)"

definition payload_ok :: "envelope \<Rightarrow> bool" where
  "payload_ok e \<longleftrightarrow> (\<forall>j. en_payload e = Some j \<longrightarrow> wf_json j)"

lemma buildActions_ok: "\<forall>a \<in> set (iu_bucket_acls u). acl_ok a \<Longrightarrow> \<forall>x \<in> set (buildActions u). valid_utf8 x"
proof -
  have "acl_ok a \<Longrightarrow> \<forall>x \<in> set (acl_actions a). valid_utf8 x" for a
    by (simp add: acl_actions_def acl_ok_def Let_def valid_utf8_ascii valid_utf8_append)
  then show "\<forall>a \<in> set (iu_bucket_acls u). acl_ok a \<Longrightarrow> ?thesis"
    by (auto simp: buildActions_def valid_utf8_ascii)
qed

lemma ok_new_identity:
  "valid_utf8 (iu_name u) \<Longrightarrow> valid_utf8 (iu_access_key u) \<Longrightarrow> valid_utf8 secret \<Longrightarrow>
     \<forall>a \<in> set (iu_bucket_acls u). acl_ok a \<Longrightarrow> ok_identity (new_identity u secret)"
  using buildActions_ok[of u] by (simp add: ok_identity_def new_identity_def ok_credential_def)

lemma keeps_list: "keeps P d \<Longrightarrow> P zero \<Longrightarrow> keeps (\<lambda>xs. \<forall>x \<in> set xs. P x) (dec_list zero d)"
proof -
  assume "keeps P d" "P zero"
  then have s: "keeps (\<lambda>s. \<forall>x \<in> set (elems s). P x) (dec_slice zero d)" by (rule keeps_slice)
  show ?thesis
    unfolding keeps_def dec_list_def using keepsD[OF s] by fastforce
qed

lemma keeps_acls: "keeps (\<lambda>xs. \<forall>a \<in> set xs. acl_ok a) (dec_list zero_acl dec_acl)"
proof -
  have "keeps acl_ok dec_acl"
    unfolding dec_acl_def
    by (rule keeps_struct, simp, intro conjI keeps_field[OF keeps_string, where get = acl_bucket_id] keeps_field[OF keeps_any])
       (simp_all add: acl_ok_def)
  then show ?thesis by (rule keeps_list) (simp add: acl_ok_def zero_acl_def)
qed

lemma keeps_dec_user: "keeps user_ok dec_user"
  unfolding dec_user_def
  by (rule keeps_struct, simp, intro conjI keeps_field[OF keeps_acls];
      (rule keeps_field[OF keeps_string]; simp add: user_ok_def; fail
       | rule keeps_field[OF keeps_any]; simp add: user_ok_def; fail
       | simp add: user_ok_def))

lemma keeps_dec_params: "keeps params_ok dec_params"
  unfolding dec_params_def
  by (rule keeps_struct, simp, intro conjI keeps_field[OF keeps_acls];
      (rule keeps_field[OF keeps_string]; simp add: params_ok_def; fail
       | rule keeps_field[OF keeps_any]; simp add: params_ok_def; fail
       | simp add: params_ok_def))

lemma keeps_dec_full_sync: "keeps desired_ok dec_full_sync"
proof -
  have "keeps (\<lambda>us. \<forall>u \<in> set us. user_ok u) (dec_list zero_user dec_user)"
    by (rule keeps_list[OF keeps_dec_user]) (simp add: user_ok_def zero_user_def)
  then show ?thesis
    unfolding dec_full_sync_def
    by (intro keeps_struct, simp, intro conjI keeps_field[where get = fsp_iam_users] keeps_field[OF keeps_any])
       (simp_all add: desired_ok_def)
qed

lemma keeps_raw_message: "keeps (\<lambda>r. \<forall>j. r = Some j \<longrightarrow> wf_json j) dec_raw_message"
  by (simp add: keeps_def dec_raw_message_def)

lemma keeps_dec_envelope: "keeps payload_ok dec_envelope"
  unfolding dec_envelope_def
  by (rule keeps_struct, simp, intro conjI keeps_field[OF keeps_raw_message] keeps_field[OF keeps_any])
     (simp_all add: payload_ok_def)

lemma received_ok: "received data = Some src \<Longrightarrow> payload_ok src"
  using unmarshal_keeps[OF keeps_dec_envelope, of zero_envelope data]
  by (auto simp: received_def payload_ok_def zero_envelope_def split: sum.splits if_splits)

lemma unmarshal_raw_keeps:
  "keeps P d \<Longrightarrow> P zero \<Longrightarrow> \<forall>j. r = Some j \<longrightarrow> wf_json j \<Longrightarrow> unmarshal_raw d zero r = Inr v \<Longrightarrow> P v"
  by (auto simp: unmarshal_raw_def split: option.splits dest: keepsD)

lemma command_ok:
  assumes "payload_ok src" "DecodePayload dec_command zero_command src = Inr cmd"
  shows "\<forall>j. cp_params cmd = Some j \<longrightarrow> wf_json j"
proof -
  let ?P = "\<lambda>c. \<forall>j. cp_params c = Some j \<longrightarrow> wf_json j"
  have k: "keeps ?P dec_command"
    unfolding dec_command_def
    by (rule keeps_struct, simp, intro conjI keeps_field[OF keeps_raw_message] keeps_field[OF keeps_any]) simp_all
  have z: "?P zero_command" by (simp add: zero_command_def)
  show ?thesis
    by (rule unmarshal_raw_keeps[OF k z assms(1)[unfolded payload_ok_def] assms(2)[unfolded DecodePayload_def]])
qed

lemma decode_params_ok:
  assumes "\<forall>j. raw = Some j \<longrightarrow> wf_json j" "decode_params raw = Inr p"
  shows "params_ok p"
proof -
  have z: "params_ok zero_params" by (simp add: params_ok_def zero_params_def)
  then show ?thesis
    using assms unmarshal_raw_keeps[OF keeps_dec_params z assms(1)]
    by (auto simp: decode_params_def split: option.splits if_splits)
qed

subsection \<open>Frames of the publisher\<close>

lemma New_fs [frame_simps]: "fs (snd (New os lk u t m p w)) = fs w"
  by (simp add: New_def split: sum.split prod.split)

lemma PublishToSubject_fs [frame_simps]: "fs (snd (PublishToSubject lk subject e w)) = fs w"
  by (simp add: PublishToSubject_def Let_def split: prod.split option.split)

lemma publish_event_fs [frame_simps]: "fs (snd (publish_event env t p w)) = fs w"
  by (simp add: publish_event_def Publish_def case_prod_unfold Let_def frame_simps split: sum.split)

lemma sendCapabilities_fs [frame_simps]: "fs (snd (sendCapabilities env w)) = fs w"
  by (simp add: sendCapabilities_def Let_def frame_simps)

lemma sendTelemetry_frame:
  "fs (ag_world (sendTelemetry env s)) = fs (ag_world s)" "ag_chan (sendTelemetry env s) = ag_chan s"
  "ag_desired (sendTelemetry env s) = ag_desired s"
  by (simp_all add: sendTelemetry_def Let_def frame_simps split: prod.split sum.split)

lemma FlushTraffic_frame: "FlushTraffic env s = (r, s') \<Longrightarrow> ag_world s' = ag_world s \<and> ag_chan s' = ag_chan s \<and> ag_desired s' = ag_desired s"
  by (auto simp: FlushTraffic_def split: prod.splits)

subsection \<open>What a handler may change\<close>

text \<open>
  The world as the guarantee says, the interval channel only to a value that is not below the minimum, or
  to empty, and the cached desired state only to one decoded from a message.
\<close>

definition proper ::
  "('x os \<Rightarrow> s3_config \<Rightarrow> 'x world \<Rightarrow> 'x world \<Rightarrow> bool) \<Rightarrow> 'x env \<Rightarrow> 'x agent \<Rightarrow> 'x agent \<Rightarrow> bool" where
  "proper R env s s' \<longleftrightarrow>
     R (ge_os env) (ge_s3 env) (ag_world s) (ag_world s') \<and>
     (ag_chan s' = ag_chan s \<or> (\<forall>d. ag_chan s' = Some d \<longrightarrow> minTelemetryInterval \<le> d)) \<and>
     (cached_ok s \<longrightarrow> cached_ok s')"

lemma in_scope_ok: "desired_ok d \<Longrightarrow> desired_ok (in_scope sc d)"
  by (simp add: in_scope_def desired_ok_def)

context world_guarantee
begin

lemma R_refl [simp]: "R os cfg w w"
  by (rule R_fs) simp

lemma R_reload: "fs w' = fs w1 \<Longrightarrow> R os cfg w w1 \<Longrightarrow> R os cfg w w'"
  using R_trans R_fs by blast

lemma item_loop_R:
  assumes "\<And>x w. x \<in> set xs \<Longrightarrow> R os cfg w (snd (f x w))" "item_loop skip f label xs (n, errs, w) = (n', errs', w')"
  shows "R os cfg w w'"
  using assms
proof (induction xs arbitrary: n errs w)
  case (Cons x xs)
  obtain r w1 where f: "f x w = (r, w1)" by fastforce
  have x: "R os cfg w w1" using f Cons.prems(1)[of x w] by simp
  have "R os cfg w2 (snd (f y w2))" if "y \<in> set xs" for y w2 using Cons.prems(1) that by simp
  from Cons.IH[OF this] show ?case
    using f x Cons.prems(2) by (auto split: if_splits sum.splits intro: R_trans)
qed simp

lemma Reconcile_R:
  assumes "desired_ok desired"
  shows "R os cfg w (snd (Reconcile e os cfg desired w))"
proof -
  have l: "ListBuckets os cfg w = (r, w1) \<Longrightarrow> R os cfg w w1" for r w1
    using ListBuckets_fs[of os cfg w] by (auto intro: R_fs)
  have cb: "R os cfg x (snd (CreateBucket os cfg b x))" and db: "R os cfg x (snd (DeleteBucket os cfg n False x))" for x b n
    by (auto intro: R_fs simp: frame_simps)
  have cu: "R os cfg x (snd (CreateIAMUser e os cfg u (iu_secret_key u) x))" if "u \<in> set (fsp_iam_users desired)" for x u
    using that assms by (intro R_create ok_new_identity) (auto simp: desired_ok_def user_ok_def)
  have cul: "R os cfg x x'" if "item_loop sk (\<lambda>u. CreateIAMUser e os cfg u (iu_secret_key u)) lab
      (fsp_iam_users desired) (n, errs, x) = (n', errs', x')" for sk lab n errs x n' errs' x'
    by (rule item_loop_R[OF _ that]) (rule cu)
  show ?thesis
    by (auto simp: Reconcile_def Let_def split: sum.split prod.split
        dest!: l item_loop_R[OF cb] item_loop_R[OF db] cul item_loop_R[OF R_delete])
       (meson R_trans)+
qed

lemma proper_refl [simp]: "proper R env s s"
  by (simp add: proper_def)

lemma proper_trans: "proper R env s s1 \<Longrightarrow> proper R env s1 s2 \<Longrightarrow> proper R env s s2"
  by (auto simp: proper_def intro: R_trans)

lemma proper_cached: "proper R env s s' \<Longrightarrow> cached_ok s \<Longrightarrow> cached_ok s'"
  by (simp add: proper_def)

lemma proper_world: "R (ge_os env) (ge_s3 env) (ag_world s) w' \<Longrightarrow> proper R env s (s\<lparr>ag_world := w'\<rparr>)"
  by (simp add: proper_def cached_ok_def)

lemma proper_fs:
  "fs (ag_world s') = fs (ag_world s) \<Longrightarrow> ag_chan s' = ag_chan s \<Longrightarrow> ag_desired s' = ag_desired s \<Longrightarrow> proper R env s s'"
  by (simp add: proper_def R_fs cached_ok_def)

lemma on_ext_proper: "on_ext f enc s = Some (r, s') \<Longrightarrow> proper R env s s'"
  by (auto simp: on_ext_def intro: proper_fs split: prod.splits)

lemma on_world_proper:
  assumes "on_world f enc s = Some (r, s')"
    and "R (ge_os env) (ge_s3 env) (ag_world s) (snd (f (ag_world s)))"
  shows "proper R env s s'"
  using assms by (auto simp: on_world_def intro: proper_world split: prod.splits)

lemma sendHeartbeat_proper: "proper R env s (sendHeartbeat env s)"
  by (auto simp: sendHeartbeat_def Let_def frame_simps intro!: proper_fs split: prod.split sum.split)

lemma publishHealth_proper: "proper R env s (publishHealth env ev s)"
  by (rule proper_fs) (simp_all add: publishHealth_def frame_simps)

lemma sendS3Telemetry_proper:
  assumes "sendS3Telemetry env s = Some s'"
  shows "proper R env s s'"
proof -
  obtain c w1 where p: "PollCluster (ge_os env) (ge_s3 env) (Some (ge_svc env)) (ag_world s) = Some (c, w1)"
    using assms by (auto simp: sendS3Telemetry_def split: option.splits)
  obtain r w2 where b: "BucketStats (ge_os env) (ge_s3 env) w1 = (r, w2)" by fastforce
  obtain t s1 where f: "FlushTraffic env (s\<lparr>ag_world := w2\<rparr>) = (t, s1)" by fastforce
  show ?thesis
    using assms p b f PollCluster_fs[OF p] BucketStats_fs[of "ge_os env" "ge_s3 env" w1] FlushTraffic_frame[OF f]
    by (auto simp: sendS3Telemetry_def Let_def frame_simps intro!: proper_fs)
qed

subsection \<open>Every operation of the dispatcher\<close>

lemma exec_map_proper: "exec_map env cmd args s = Some (r, s') \<Longrightarrow> proper R env s s'"
  unfolding exec_map_def
  by (erule on_world_proper)
     (use Execute_fs[of "ge_exec env" "ge_os env" cmd args "ag_world s"] in
      \<open>auto intro!: R_fs split: prod.split option.split\<close>)

lemma on_manager_proper:
  assumes "on_manager f out s = Some (r, s')"
    and "R (ge_os env) (ge_s3 env) (ag_world s) (snd (f (ag_world s)))"
  shows "proper R env s s'"
  using assms by (auto simp: on_manager_def intro: on_world_proper)

lemma reconcile_with_proper:
  "desired_ok desired \<Longrightarrow> reconcile_with env desired s = Some (r, s') \<Longrightarrow> proper R env s s'"
  unfolding reconcile_with_def
  by (erule on_world_proper)
     (use Reconcile_R[of desired "ge_os env" "ge_s3 env" "ag_world s" "ge_exec env"] in
      \<open>auto split: prod.split option.split\<close>)

lemma h_set_interval_proper: "h_set_interval env p s = Some (r, s') \<Longrightarrow> proper R env s s'"
  by (auto simp: h_set_interval_def SetTelemetryInterval_def clamp_interval_def proper_def cached_ok_def Let_def split: if_splits)

lemma h_system_update_proper:
  assumes "h_system_update env p s = Some (r, s')"
  shows "proper R env s s'"
proof (rule proper_fs)
  have e: "Execute x os c as w = (z, w') \<Longrightarrow> fs w' = fs w" for x os c as w z and w' :: "'a world"
    using Execute_fs[of x os c as w] by simp
  show "fs (ag_world s') = fs (ag_world s)"
    using assms by (auto simp: h_system_update_def split: sum.splits if_splits prod.splits option.splits dest!: e)
  show "ag_chan s' = ag_chan s" "ag_desired s' = ag_desired s"
    using assms by (auto simp: h_system_update_def split: sum.splits if_splits prod.splits option.splits)
qed

lemma h_bucket_stats_proper:
  assumes "h_bucket_stats env p s = Some (r, s')"
  shows "proper R env s s'"
proof (cases "BucketStats (ge_os env) (ge_s3 env) (ag_world s)")
  case (Pair b w1)
  then have "fs w1 = fs (ag_world s)" using BucketStats_fs[of "ge_os env" "ge_s3 env" "ag_world s"] by simp
  then show ?thesis
    using assms Pair
    by (auto simp: h_bucket_stats_def intro!: proper_fs split: sum.splits prod.splits dest: FlushTraffic_frame)
qed

lemma h_cluster_status_proper: "h_cluster_status env p s = Some (r, s') \<Longrightarrow> proper R env s s'"
  by (auto simp: h_cluster_status_def intro!: proper_fs split: option.splits dest: PollCluster_fs)

text \<open>The remaining handlers are wrappers of an operation with a frame lemma.\<close>

lemma query_proper:
  "h_metrics env p s = Some (r, s') \<Longrightarrow> proper R env s s'"
  "h_disk env p s = Some (r, s') \<Longrightarrow> proper R env s s'"
  "h_blocked_list env p s = Some (r, s') \<Longrightarrow> proper R env s s'"
  "h_iam_list env p s = Some (r, s') \<Longrightarrow> proper R env s s'"
  "h_capabilities env p s = Some (r, s') \<Longrightarrow> proper R env s s'"
proof -
  show "h_metrics env p s = Some (r, s') \<Longrightarrow> proper R env s s'" "h_disk env p s = Some (r, s') \<Longrightarrow> proper R env s s'"
    by (auto simp: h_metrics_def h_disk_def intro!: proper_fs split: prod.splits)
  show "h_blocked_list env p s = Some (r, s') \<Longrightarrow> proper R env s s'"
    "h_iam_list env p s = Some (r, s') \<Longrightarrow> proper R env s s'"
    unfolding h_blocked_list_def h_iam_list_def by (erule on_world_proper; simp)+
  show "h_capabilities env p s = Some (r, s') \<Longrightarrow> proper R env s s'"
    unfolding h_capabilities_def
    by (erule on_world_proper)
       (use sendCapabilities_fs[of env "ag_world s"] in
        \<open>auto simp: SendCapabilities_def intro!: R_fs split: prod.split\<close>)
qed

lemma manager_handler_proper:
  assumes "h \<in> {h_bucket_create, h_bucket_update, h_bucket_delete, h_worm_create, h_worm_update, h_worm_delete,
      h_iam_create, h_iam_delete, h_block, h_unblock}" "h env p s = Some (r, s')" "params_ok p"
  shows "proper R env s s'"
  using assms
  by (auto simp: h_bucket_create_def h_bucket_update_def h_bucket_delete_def h_worm_create_def h_worm_update_def
      h_worm_delete_def h_iam_create_def h_iam_delete_def h_block_def h_unblock_def
      elim!: on_manager_proper)
     (auto simp: zero_user_def params_ok_def frame_simps intro!: R_create R_delete R_block R_unblock ok_new_identity
       intro: R_fs)

lemma handler_proper:
  assumes "(op, h) \<in> set run_table" "h env p s = Some (r, s')" "params_ok p" "cached_ok s"
  shows "proper R env s s'"
proof -
  consider "h \<in> {h_bucket_create, h_bucket_update, h_bucket_delete, h_worm_create, h_worm_update, h_worm_delete,
      h_iam_create, h_iam_delete, h_block, h_unblock}"
    | "h \<in> {h_metrics, h_disk, h_blocked_list, h_iam_list, h_capabilities, h_set_interval, h_system_update,
      h_bucket_stats, h_cluster_status}"
    | "h \<in> {h_info, h_cpu, h_memory, h_network, h_services_list, h_services_get} \<union> range h_service_act"
    | "h \<in> {h_vm_reboot, h_vm_shutdown, h_exec}"
    | "h = h_reconcile"
    using assms(1) unfolding run_table_def by (simp only: list.set insert_iff empty_iff prod.inject) blast
  then show ?thesis
  proof cases
    case 1
    then show ?thesis using assms(2,3) by (rule manager_handler_proper)
  next
    case 2
    then show ?thesis
      using assms(2) by (auto intro: query_proper h_set_interval_proper h_system_update_proper h_bucket_stats_proper
          h_cluster_status_proper)
  next
    case 3
    then show ?thesis
      using assms(2) by (auto simp: h_info_def h_cpu_def h_memory_def h_network_def h_services_list_def
          h_services_get_def h_service_act_def intro: on_ext_proper)
  next
    case 4
    then show ?thesis
      using assms(2) by (auto simp: h_vm_reboot_def h_vm_shutdown_def h_exec_def intro: exec_map_proper split: if_splits)
  next
    case 5
    then show ?thesis
      using assms(2,4) in_scope_ok
      by (auto simp: h_reconcile_def cached_ok_def intro: reconcile_with_proper split: option.splits)
  qed
qed

lemma run_proper:
  "run env op p s = Some (r, s') \<Longrightarrow> params_ok p \<Longrightarrow> cached_ok s \<Longrightarrow> proper R env s s'"
  by (auto simp: run_def split: option.splits dest: map_of_SomeD intro: handler_proper)

lemma runFullSync_proper:
  assumes "runFullSync env raw s = Some (r, s')" "\<forall>j. raw = Some j \<longrightarrow> wf_json j"
  shows "proper R env s s'"
proof -
  let ?zero = "\<lparr>fsp_buckets = [], fsp_iam_users = []\<rparr>"
  have z: "desired_ok ?zero" by (simp add: desired_ok_def)
  show ?thesis
  proof (cases "unmarshal_raw dec_full_sync ?zero raw")
    case (Inl e)
    then show ?thesis using assms(1) by (simp add: runFullSync_def)
  next
    case (Inr d)
    then have d: "desired_ok d" using unmarshal_raw_keeps[OF keeps_dec_full_sync z assms(2)] by blast
    then have "proper R env s (s\<lparr>ag_desired := Some d\<rparr>)" by (simp add: proper_def cached_ok_def)
    moreover have "proper R env (s\<lparr>ag_desired := Some d\<rparr>) s'"
      using assms(1) Inr reconcile_with_proper[OF d] by (simp add: runFullSync_def)
    ultimately show ?thesis by (rule proper_trans)
  qed
qed

lemma answer_proper: "answer env src st msg out s = (e, s') \<Longrightarrow> proper R env s s'"
  using answer_answers[of env src st msg out s] by (auto intro!: proper_fs)

lemma conclude_proper:
  assumes "conclude env src (Some (r, s1)) = Some (e, s')"
  shows "proper R env s1 s'"
  using assms by (auto simp: conclude_def fail_answer_def ok_answer_def intro: answer_proper split: sum.splits)

lemma Dispatch_proper:
  assumes "Dispatch env src s = Some (e, s')" "payload_ok src" "cached_ok s"
  shows "proper R env s s'"
proof -
  have c: "proper R env s s'" if "conclude env src x = Some (e, s')" "\<And>r s1. x = Some (r, s1) \<Longrightarrow> proper R env s s1" for x
    using that conclude_None[of env src x] conclude_proper proper_trans by (cases x) fastforce+
  show ?thesis
  proof (cases "DecodePayload dec_command zero_command src")
    case (Inl x)
    then show ?thesis using assms(1) by (auto simp: Dispatch_def reject_answer_def intro: answer_proper)
  next
    case (Inr cmd)
    note raw = command_ok[OF assms(2) Inr]
    have full: "proper R env s s1" if "runFullSync env (cp_params cmd) s = Some (r, s1)" for r s1
      by (rule runFullSync_proper[OF that raw])
    have one: "proper R env s s1"
      if "decode_params (cp_params cmd) = Inr p" "run env (cp_operation cmd) p s = Some (r, s1)" for p r s1
      by (rule run_proper[OF that(2) decode_params_ok[OF raw that(1)] assms(3)])
    show ?thesis
      using assms(1) Inr full one
      by (auto simp: Dispatch_def reject_answer_def Let_def split: sum.splits if_splits intro: answer_proper c)
  qed
qed

lemma handle_message_proper:
  assumes "handle_message env data s = Some s'" "cached_ok s"
  shows "proper R env s s'"
proof (cases "received data")
  case None
  then show ?thesis using assms by (simp add: handle_message_def)
next
  case (Some src)
  then obtain e s1 where d: "Dispatch env src s = Some (e, s1)"
    using assms by (auto simp: handle_message_def split: option.splits)
  then have "proper R env s1 s'"
    using assms Some by (auto simp: handle_message_def Let_def frame_simps intro!: proper_fs)
  then show ?thesis using Dispatch_proper[OF d received_ok[OF Some] assms(2)] proper_trans by blast
qed

end

end
