(* ===== verification/IamLife.thy ===== *)
theory IamLife
  imports Guarantee
begin

section \<open>The identities over the agent's life\<close>

text \<open>
  The abstract view of the identities file: a list that changes only by whole steps, an identity added as
  \<^verbatim>\<open>CreateIAMUser\<close> or \<^verbatim>\<open>EnsureAdmin\<close> makes it, or all identities of one name removed. Every handler of the
  agent is a sequence of such steps, failed writes and restarts included, and the file always parses.
\<close>

inductive iam_change :: "s3_config \<Rightarrow> iam_identity list \<Rightarrow> iam_identity list \<Rightarrow> bool" for cfg where
  user_added: "ok_identity (new_identity u secret) \<Longrightarrow> iam_change cfg ids (add_identity (new_identity u secret) ids)"
| name_removed: "n \<in> set (map id_name ids) \<Longrightarrow> iam_change cfg ids (del_identity n ids)"
| admin_added: "\<not> (\<exists>i \<in> set ids. has_access_key (AdminAccessKey cfg) i) \<Longrightarrow>
    iam_change cfg ids (add_identity (admin_identity cfg) ids)"

abbreviation iam_evolves :: "s3_config \<Rightarrow> iam_identity list \<Rightarrow> iam_identity list \<Rightarrow> bool" where
  "iam_evolves cfg \<equiv> (iam_change cfg)\<^sup>*\<^sup>*"

text \<open>The identities file is neither the block list nor a temporary file.\<close>

definition iam_apart :: "'x os \<Rightarrow> s3_config \<Rightarrow> bool" where
  "iam_apart os cfg \<longleftrightarrow> NginxBlockedKeysFile cfg \<noteq> IAMFile cfg \<and>
     (\<forall>w. temp_name os (IAMFile cfg) w \<noteq> IAMFile cfg) \<and>
     (\<forall>w. temp_name os (NginxBlockedKeysFile cfg) w \<noteq> IAMFile cfg)"

definition iam_keeps :: "'x os \<Rightarrow> s3_config \<Rightarrow> 'x world \<Rightarrow> 'x world \<Rightarrow> bool" where
  "iam_keeps os cfg w w' \<longleftrightarrow>
     (iam_apart os cfg \<longrightarrow> (\<forall>f. iam_state cfg f w \<longrightarrow>
        (\<exists>f'. iam_state cfg f' w' \<and> iam_evolves cfg (elems (if_identities f)) (elems (if_identities f')))))"

lemma iam_keepsD:
  "iam_keeps os cfg w w' \<Longrightarrow> iam_apart os cfg \<Longrightarrow> iam_state cfg f w \<Longrightarrow>
     \<exists>f'. iam_state cfg f' w' \<and> iam_evolves cfg (elems (if_identities f)) (elems (if_identities f'))"
  unfolding iam_keeps_def by blast

lemma iam_keeps_same: "fs w' (IAMFile cfg) = fs w (IAMFile cfg) \<Longrightarrow> iam_keeps os cfg w w'"
  using iam_state_cong[of w' cfg w] by (auto simp: iam_keeps_def)

lemma iam_keeps_trans: "iam_keeps os cfg w w1 \<Longrightarrow> iam_keeps os cfg w1 w2 \<Longrightarrow> iam_keeps os cfg w w2"
  unfolding iam_keeps_def by (meson rtranclp_trans)

lemma iam_keeps_step:
  assumes "\<And>f. iam_apart os cfg \<Longrightarrow> iam_state cfg f w \<Longrightarrow>
      iam_state cfg f w' \<or> (\<exists>f'. iam_state cfg f' w' \<and> iam_change cfg (elems (if_identities f)) (elems (if_identities f')))"
  shows "iam_keeps os cfg w w'"
  unfolding iam_keeps_def using assms by blast

lemma CreateIAMUser_keeps:
  assumes "ok_identity (new_identity u secret)"
  shows "iam_keeps os cfg w (snd (CreateIAMUser e os cfg u secret w))"
proof (rule iam_keeps_step)
  fix f assume a: "iam_apart os cfg" "iam_state cfg f w"
  obtain r w' where c: "CreateIAMUser e os cfg u secret w = (r, w')" by fastforce
  have t: "temp_name os (IAMFile cfg) w \<noteq> IAMFile cfg" using a(1) by (simp add: iam_apart_def)
  show "iam_state cfg f (snd (CreateIAMUser e os cfg u secret w)) \<or> (\<exists>f'. iam_state cfg f' (snd (CreateIAMUser e os cfg u secret w)) \<and>
      iam_change cfg (elems (if_identities f)) (elems (if_identities f')))"
    using CreateIAMUser_state[OF t a(2) assms c] user_added[OF assms, of cfg "elems (if_identities f)"] c by fastforce
qed

lemma DeleteIAMUser_keeps: "iam_keeps os cfg w (snd (DeleteIAMUser e os cfg n w))"
proof (rule iam_keeps_step)
  fix f assume a: "iam_apart os cfg" "iam_state cfg f w"
  obtain r w' where c: "DeleteIAMUser e os cfg n w = (r, w')" by fastforce
  have t: "temp_name os (IAMFile cfg) w \<noteq> IAMFile cfg" using a(1) by (simp add: iam_apart_def)
  show "iam_state cfg f (snd (DeleteIAMUser e os cfg n w)) \<or> (\<exists>f'. iam_state cfg f' (snd (DeleteIAMUser e os cfg n w)) \<and>
      iam_change cfg (elems (if_identities f)) (elems (if_identities f')))"
    using DeleteIAMUser_state[OF t a(2) c] name_removed[of n "elems (if_identities f)" cfg] a(2) c
    by (fastforce split: if_splits)
qed

text \<open>The block list lives in another file.\<close>

lemma blocklist_keeps:
  assumes "only_writes {NginxBlockedKeysFile cfg, temp_name os (NginxBlockedKeysFile cfg) w} w w'"
  shows "iam_keeps os cfg w w'"
proof -
  have "IAMFile cfg \<notin> {NginxBlockedKeysFile cfg, temp_name os (NginxBlockedKeysFile cfg) w}" if "iam_apart os cfg"
    using that unfolding iam_apart_def by (metis insertE singletonD)
  then have "iam_apart os cfg \<Longrightarrow> iam_keeps os cfg w w'"
    using assms unfolding only_writes_def by (intro iam_keeps_same) blast
  then show ?thesis by (auto simp: iam_keeps_def)
qed

interpretation identities: world_guarantee iam_keeps
  by unfold_locales
     (auto intro: iam_keeps_same iam_keeps_trans CreateIAMUser_keeps DeleteIAMUser_keeps
       blocklist_keeps[OF BlockAccessKey_only_writes] blocklist_keeps[OF UnblockAccessKey_only_writes])

lemma EnsureAdmin_keeps:
  assumes "ok_identity (admin_identity cfg)"
  shows "iam_keeps os cfg w (snd (EnsureAdmin e os cfg w))"
proof (rule iam_keeps_step)
  fix f assume a: "iam_apart os cfg" "iam_state cfg f w"
  have t: "temp_name os (IAMFile cfg) w \<noteq> IAMFile cfg" using a(1) by (simp add: iam_apart_def)
  let ?f' = "\<lparr>if_identities = Some (add_identity (admin_identity cfg) (elems (if_identities f)))\<rparr>"
  have same: "EnsureAdmin e os cfg w = (r, w) \<Longrightarrow> iam_state cfg f (snd (EnsureAdmin e os cfg w))" for r
    using a(2) by simp
  show "iam_state cfg f (snd (EnsureAdmin e os cfg w)) \<or> (\<exists>f'. iam_state cfg f' (snd (EnsureAdmin e os cfg w)) \<and>
      iam_change cfg (elems (if_identities f)) (elems (if_identities f')))"
  proof (cases "readIAM os cfg w")
    case (Inl x)
    then show ?thesis using a(2) by (simp add: EnsureAdmin_def)
  next
    case (Inr g)
    then have g: "g = f" using readIAM_state[OF a(2)] by blast
    show ?thesis
    proof (cases "AdminAccessKey cfg = [] \<or> (\<exists>i \<in> set (elems (if_identities f)). has_access_key (AdminAccessKey cfg) i)")
      case True
      then show ?thesis using a(2) Inr g by (auto simp: EnsureAdmin_def)
    next
      case False
      have eq: "f\<lparr>if_identities := slice_append (if_identities f) [admin_identity cfg]\<rparr> = ?f'"
        by (simp add: slice_append_def add_identity_def)
      obtain r w' where wr: "write_reload e os cfg ?f' w = (r, w')" by fastforce
      then have "EnsureAdmin e os cfg w = (r, w')"
        using False Inr g eq by (simp add: EnsureAdmin_def)
      moreover have "ok_iam ?f'" using a(2) assms by (auto simp: ok_iam_def iam_state_def add_identity_def)
      ultimately show ?thesis
        using write_reload_state[OF t a(2) _ wr] admin_added[of "elems (if_identities f)" cfg] False by auto
    qed
  qed
qed

subsection \<open>What cannot happen to an identity\<close>

inductive_simps iam_change_iff: "iam_change cfg ids ids'"

text \<open>Along an evolution an identity stays in the list as long as its name is not removed.\<close>

lemma iam_change_keeps_others:
  "iam_change cfg ids ids' \<Longrightarrow> i \<in> set ids \<Longrightarrow> i \<in> set ids' \<or> id_name i \<notin> id_name ` set ids'"
  by (auto simp: iam_change_iff add_identity_def del_identity_def)

lemma iam_change_ok:
  "iam_change cfg ids ids' \<Longrightarrow> ok_identity (admin_identity cfg) \<Longrightarrow> \<forall>i \<in> set ids. ok_identity i \<Longrightarrow>
     \<forall>i \<in> set ids'. ok_identity i"
  by (auto simp: iam_change_iff add_identity_def del_identity_def)

text \<open>The stock configuration keeps the files apart, whatever random names the system chooses.\<close>

lemma iam_apart_default: "iam_apart os default_s3"
  by (simp add: iam_apart_def default_s3_def temp_name_def path_dir_def)

end
