(* ===== verification/Lifecycle.thy ===== *)
theory Lifecycle
  imports Guarantee IamLife
begin

section \<open>The running agent\<close>

text \<open>
  What \<^verbatim>\<open>run\<close> leaves running: the subscription callback, the loops of the publisher, the watcher and the
  audit tailer, as one machine whose events are the messages and the ticks. Every handler is one step; the
  two channels on which handlers really interleave have their own step relations in \<open>Publisher\<close>. The
  state adds to the agent what the loops keep in local variables.
\<close>

record 'x daemon =
  dm_agent :: "'x agent"
  dm_period :: int
  dm_seen :: "cluster_components option"
  dm_audit :: audit_tailer

datatype daemon_event =
    Message string
  | HeartbeatTick
  | TelemetryTurn loop_event
  | S3TelemetryTick
  | WatchTick
  | AuditTick
  | AuditBatch

definition daemon_init :: "'x env \<Rightarrow> 'x agent \<Rightarrow> 'x daemon" where
  "daemon_init env s =
     \<lparr>dm_agent = s, dm_period = loop_interval (TelemetryInterval (ge_agent env)), dm_seen = None,
      dm_audit = \<lparr>at_offset = 0, at_ch = [], at_dropped = []\<rparr>\<rparr>"

definition watch_tick :: "'x env \<Rightarrow> 'x daemon \<Rightarrow> 'x daemon option" where
  "watch_tick env d =
     (case PollCluster (ge_os env) (ge_s3 env) (Some (ge_svc env)) (ag_world (dm_agent d)) of
        None \<Rightarrow> None
      | Some (cur, w1) \<Rightarrow>
          let (ev, seen) = watch_poll (ge_s3 env) cur (dm_seen d);
              s1 = (dm_agent d)\<lparr>ag_world := w1\<rparr>
          in Some (d\<lparr>dm_agent := (case ev of None \<Rightarrow> s1 | Some e \<Rightarrow> publishHealth env e s1), dm_seen := seen\<rparr>))"

definition audit_tick :: "'x env \<Rightarrow> 'x daemon \<Rightarrow> 'x daemon" where
  "audit_tick env d =
     (let (t, w1) = audit_poll (ge_os env) (ge_s3 env) (dm_audit d, ag_world (dm_agent d)) in
      d\<lparr>dm_agent := (dm_agent d)\<lparr>ag_world := w1\<rparr>, dm_audit := t\<rparr>)"

text \<open>The audit loop takes everything that is queued, if anything is.\<close>

definition audit_batch :: "'x env \<Rightarrow> 'x daemon \<Rightarrow> 'x daemon" where
  "audit_batch env d =
     (let batch = at_ch (dm_audit d) in
      if batch = [] then d
      else d\<lparr>dm_agent := (dm_agent d)\<lparr>ag_world := snd (publish_batch env batch (ag_world (dm_agent d)))\<rparr>,
             dm_audit := (dm_audit d)\<lparr>at_ch := []\<rparr>\<rparr>)"

definition daemon_step :: "'x env \<Rightarrow> daemon_event \<Rightarrow> 'x daemon \<Rightarrow> 'x daemon option" where
  "daemon_step env ev d =
     (case ev of
        Message data \<Rightarrow> map_option (\<lambda>s. d\<lparr>dm_agent := s\<rparr>) (handle_message env data (dm_agent d))
      | HeartbeatTick \<Rightarrow> Some (d\<lparr>dm_agent := sendHeartbeat env (dm_agent d)\<rparr>)
      | TelemetryTurn e \<Rightarrow>
          (let (p, s) = telemetry_turn env e (dm_period d, dm_agent d) in Some (d\<lparr>dm_agent := s, dm_period := p\<rparr>))
      | S3TelemetryTick \<Rightarrow> map_option (\<lambda>s. d\<lparr>dm_agent := s\<rparr>) (sendS3Telemetry env (dm_agent d))
      | WatchTick \<Rightarrow> watch_tick env d
      | AuditTick \<Rightarrow> Some (audit_tick env d)
      | AuditBatch \<Rightarrow> Some (audit_batch env d))"

fun daemon_run :: "'x env \<Rightarrow> daemon_event list \<Rightarrow> 'x daemon \<Rightarrow> 'x daemon option" where
  "daemon_run env [] d = Some d"
| "daemon_run env (ev # evs) d =
     (case daemon_step env ev d of None \<Rightarrow> None | Some d' \<Rightarrow> daemon_run env evs d')"

subsection \<open>Every event\<close>

text \<open>
  The invariant of a running agent, relative to the world \<open>w0\<close> it started in: only its own files differ, a
  waiting interval and the telemetry period are not below the minimum unless the period is the configured
  one, and the audit channel is within its capacity.
\<close>

definition daemon_inv ::
  "('x os \<Rightarrow> s3_config \<Rightarrow> 'x world \<Rightarrow> 'x world \<Rightarrow> bool) \<Rightarrow> 'x env \<Rightarrow> 'x world \<Rightarrow> 'x daemon \<Rightarrow> bool" where
  "daemon_inv R env w0 d \<longleftrightarrow>
     R (ge_os env) (ge_s3 env) w0 (ag_world (dm_agent d)) \<and>
     (\<forall>v. ag_chan (dm_agent d) = Some v \<longrightarrow> minTelemetryInterval \<le> v) \<and>
     cached_ok (dm_agent d) \<and>
     (dm_period d = loop_interval (TelemetryInterval (ge_agent env)) \<or> minTelemetryInterval \<le> dm_period d) \<and>
     length (at_ch (dm_audit d)) \<le> audit_capacity"

lemma queryRetainUntil_fs: "fs (snd (queryRetainUntil os cfg b k w)) = fs w"
proof -
  have "fs w' = fs w" if "send os req w = (r, w')" for req r w' using send_fs[of os req w] that by simp
  then show ?thesis by (auto simp: queryRetainUntil_def split: sum.split prod.split)
qed

lemma audit_line_fs: "fs (snd (audit_line os cfg l tw)) = fs (snd tw)"
  using queryRetainUntil_fs[of os cfg _ _ "snd tw"]
  by (cases tw) (simp add: audit_line_def Let_def case_prod_unfold split: option.split)

lemma audit_poll_fs: "audit_poll os cfg (t, w) = (t', w') \<Longrightarrow> fs w' = fs w"
proof -
  have "fs (snd (fold (audit_line os cfg) ls tw)) = fs (snd tw)" for ls tw
    by (induction ls arbitrary: tw) (simp_all add: audit_line_fs)
  then show "audit_poll os cfg (t, w) = (t', w') \<Longrightarrow> fs w' = fs w"
    by (simp add: audit_poll_def case_prod_unfold) (metis snd_conv)
qed

lemma audit_poll_capacity:
  assumes "audit_poll os cfg (t, w) = (t', w')" "length (at_ch t) \<le> audit_capacity"
  shows "length (at_ch t') \<le> audit_capacity"
proof -
  obtain off ls where "readNewLines os cfg (at_offset t) w = (off, ls)" by fastforce
  then show ?thesis
    using assms audit_lines_spec[of os cfg ls "t\<lparr>at_offset := off\<rparr>" w t' w'] by (auto simp: audit_poll_def)
qed

context world_guarantee
begin

lemma proper_inv:
  "daemon_inv R env w0 d \<Longrightarrow> proper R env (dm_agent d) s' \<Longrightarrow> daemon_inv R env w0 (d\<lparr>dm_agent := s'\<rparr>)"
  by (auto simp: daemon_inv_def proper_def intro: R_trans)

lemma inv_cached: "daemon_inv R env w0 d \<Longrightarrow> cached_ok (dm_agent d)"
  by (simp add: daemon_inv_def)

lemma watch_tick_inv:
  assumes "watch_tick env d = Some d'" "daemon_inv R env w0 d"
  shows "daemon_inv R env w0 d'"
proof -
  obtain cur w1 where p: "PollCluster (ge_os env) (ge_s3 env) (Some (ge_svc env)) (ag_world (dm_agent d)) = Some (cur, w1)"
    using assms(1) by (auto simp: watch_tick_def split: option.splits)
  obtain ev seen where ev: "watch_poll (ge_s3 env) cur (dm_seen d) = (ev, seen)" by fastforce
  let ?s1 = "(dm_agent d)\<lparr>ag_world := w1\<rparr>"
  have "proper R env (dm_agent d) ?s1" using PollCluster_fs[OF p] by (simp add: proper_fs)
  then have "proper R env (dm_agent d) (case ev of None \<Rightarrow> ?s1 | Some e \<Rightarrow> publishHealth env e ?s1)"
    by (cases ev) (auto intro: proper_trans publishHealth_proper)
  from proper_inv[OF assms(2) this] show ?thesis
    using assms(1) p ev by (auto simp: watch_tick_def daemon_inv_def Let_def)
qed

text \<open>Handlers that change no file and only the loop's own variables.\<close>

lemma quiet_inv:
  assumes "daemon_inv R env w0 d" "fs (ag_world (dm_agent d')) = fs (ag_world (dm_agent d))"
    and "ag_chan (dm_agent d') = ag_chan (dm_agent d) \<or> ag_chan (dm_agent d') = None"
    and "ag_desired (dm_agent d') = ag_desired (dm_agent d)"
    and "dm_period d' = dm_period d \<or> minTelemetryInterval \<le> dm_period d'"
    and "length (at_ch (dm_audit d')) \<le> audit_capacity"
  shows "daemon_inv R env w0 d'"
  using assms by (auto simp: daemon_inv_def cached_ok_def intro: R_reload)

lemma audit_tick_inv: "daemon_inv R env w0 d \<Longrightarrow> daemon_inv R env w0 (audit_tick env d)"
proof -
  assume i: "daemon_inv R env w0 d"
  obtain t w1 where p: "audit_poll (ge_os env) (ge_s3 env) (dm_audit d, ag_world (dm_agent d)) = (t, w1)" by fastforce
  have "length (at_ch t) \<le> audit_capacity" using i audit_poll_capacity[OF p] by (simp add: daemon_inv_def)
  then show ?thesis
    using audit_poll_fs[OF p] by (intro quiet_inv[OF i]) (simp_all add: audit_tick_def p)
qed

lemma audit_batch_inv: "daemon_inv R env w0 d \<Longrightarrow> daemon_inv R env w0 (audit_batch env d)"
proof (rule quiet_inv)
  show "daemon_inv R env w0 d \<Longrightarrow> daemon_inv R env w0 d" .
  assume "daemon_inv R env w0 d"
  then have "length (at_ch (dm_audit d)) \<le> audit_capacity" by (simp add: daemon_inv_def)
  then show "length (at_ch (dm_audit (audit_batch env d))) \<le> audit_capacity"
    by (simp add: audit_batch_def Let_def)
qed (simp_all add: audit_batch_def publish_batch_def Let_def frame_simps)

lemma telemetry_turn_inv:
  assumes "telemetry_turn env e (dm_period d, dm_agent d) = (p, s)" "daemon_inv R env w0 d"
  shows "daemon_inv R env w0 (d\<lparr>dm_agent := s, dm_period := p\<rparr>)"
proof (rule quiet_inv[OF assms(2)])
  show "dm_period (d\<lparr>dm_agent := s, dm_period := p\<rparr>) = dm_period d \<or>
      minTelemetryInterval \<le> dm_period (d\<lparr>dm_agent := s, dm_period := p\<rparr>)"
    using assms by (auto simp: telemetry_turn_def daemon_inv_def split: loop_event.splits option.splits)
  show "length (at_ch (dm_audit (d\<lparr>dm_agent := s, dm_period := p\<rparr>))) \<le> audit_capacity"
    using assms(2) by (simp add: daemon_inv_def)
qed (use assms(1) in \<open>auto simp: telemetry_turn_def sendTelemetry_frame split: loop_event.splits option.splits\<close>)

lemma daemon_step_inv:
  assumes "daemon_step env ev d = Some d'" "daemon_inv R env w0 d"
  shows "daemon_inv R env w0 d'"
  using assms inv_cached[OF assms(2)]
  by (cases ev)
     (auto simp: daemon_step_def Let_def split: prod.splits
       intro: proper_inv handle_message_proper sendHeartbeat_proper sendS3Telemetry_proper watch_tick_inv
         audit_tick_inv audit_batch_inv telemetry_turn_inv)

lemma daemon_run_inv: "daemon_run env evs d = Some d' \<Longrightarrow> daemon_inv R env w0 d \<Longrightarrow> daemon_inv R env w0 d'"
  by (induction evs arbitrary: d) (auto split: option.splits dest: daemon_step_inv)

text \<open>A freshly started agent, when the start itself keeps the guarantee.\<close>

lemma daemon_init_inv:
  assumes "ag_chan s = None" "ag_desired s = None" "R (ge_os env) (ge_s3 env) w (ag_world s)"
  shows "daemon_inv R env w (daemon_init env s)"
  using assms by (simp add: daemon_inv_def daemon_init_def cached_ok_def)

end

text \<open>The start itself: EnsureAdmin is all it writes.\<close>

lemma agent_run_start:
  assumes "agent_run vp le yaml windows conn os lk gp f w = (Inr (env, s), w')"
  shows "ge_os env = os \<and> ag_chan s = None \<and> ag_desired s = None \<and>
    fs (ag_world s) = fs (snd (EnsureAdmin New_Executor os (ge_s3 env) w))"
  using assms
  by (auto simp: agent_run_def Let_def Connect_def Subscribe_def Start_def sendCapabilities_fs
      split: sum.splits option.splits prod.splits)

abbreviation files_inv :: "'x env \<Rightarrow> 'x world \<Rightarrow> 'x daemon \<Rightarrow> bool" where
  "files_inv \<equiv> daemon_inv (\<lambda>os cfg. only_writes (agent_files os cfg))"

lemma agent_run_files_inv:
  assumes "agent_run vp le yaml windows conn os lk gp f w = (Inr (env, s), w')"
  shows "files_inv env w (daemon_init env s)"
  using agent_run_start[OF assms] EnsureAdmin_only_writes[of os "ge_s3 env" w New_Executor]
  by (intro files.daemon_init_inv) (simp_all add: only_writes_def)

lemma agent_run_iam_inv:
  assumes "agent_run vp le yaml windows conn os lk gp f w = (Inr (env, s), w')"
    and "ok_identity (admin_identity (ge_s3 env))"
  shows "daemon_inv iam_keeps env w (daemon_init env s)"
  using agent_run_start[OF assms(1)] EnsureAdmin_keeps[OF assms(2), of os w New_Executor]
  by (intro identities.daemon_init_inv) (auto intro: identities.R_reload)

subsection \<open>No handler is lost\<close>

lemma handle_message_None:
  assumes "handle_message env data s = None"
  shows "\<exists>e. os_url (ge_os env) (S3URL (ge_s3 env) @ ''/'') = Inl e"
proof -
  obtain src where "Dispatch env src s = None"
    using assms by (auto simp: handle_message_def Let_def split: option.splits)
  then show ?thesis using Dispatch_None PollCluster_None by blast
qed

lemma daemon_step_None:
  assumes "daemon_step env ev d = None"
  shows "\<exists>e. os_url (ge_os env) (S3URL (ge_s3 env) @ ''/'') = Inl e"
proof -
  have p: "PollCluster (ge_os env) (ge_s3 env) (Some (ge_svc env)) w = None \<Longrightarrow> ?thesis" for w
    using PollCluster_None by blast
  show ?thesis
    using assms
    by (cases ev)
       (auto simp: daemon_step_def watch_tick_def sendS3Telemetry_def Let_def
         split: prod.splits option.splits intro: handle_message_None p)
qed

subsection \<open>Examples\<close>

definition stock_log :: log_env where
  "stock_log = \<lparr>le_level = (\<lambda>l. Some 0), le_mkdir = (\<lambda>d. None), le_open = (\<lambda>f. None)\<rparr>"

definition sample_events :: "daemon_event list" where
  "sample_events = [HeartbeatTick, Message ''garbage'', WatchTick, S3TelemetryTick, AuditTick, AuditBatch,
     TelemetryTurn Ticked, TelemetryTurn NewInterval]"

lemma stock_run:
  "\<exists>env s w'. agent_run stock_viper stock_log (\<lambda>d. Inl []) True (Inl []) calm_os sample_link no_gops [] (one_file ''f'' [])
     = (Inr (env, s), w') \<and> ge_os env = calm_os \<and> ge_s3 env = default_s3"
  by (auto simp: agent_run_def Load_def stock_viper_def stock_log_def buildLogger_def Connect_def Subscribe_def
      sample_link_def setDefaults_def Let_def split: prod.split)

end
