(* ===== verification/Ctl.thy ===== *)
theory Ctl
  imports Frame Config Encode
begin

section \<open>The control command line (cmd/ctl, pkg/cmdutil)\<close>

text \<open>
  The commands of \<^verbatim>\<open>s3dctl\<close> as functions from the loaded configuration and the world to what they print,
  an error, and the next world; \<open>None\<close> is a panic. Flag parsing and the lookup of the command are cobra's.
  \<open>tty\<close> says whether standard output is a terminal. Text outside ASCII is its UTF-8 bytes.
\<close>

subsection \<open>Output helpers\<close>

definition rune_count :: "string \<Rightarrow> nat" where
  "rune_count s = length (filter (\<lambda>c. \<not> is_cont c) s)"

definition to_upper_str :: "string \<Rightarrow> string" where
  "to_upper_str s = map to_upper s"

text \<open>
  \<^verbatim>\<open>text/tabwriter\<close> with padding 2 on lines of equally many cells: every cell but the last of a line is
  filled up to the widest of its column plus two.
\<close>

definition column_width :: "string list list \<Rightarrow> nat \<Rightarrow> nat" where
  "column_width ls j = foldr max (map (\<lambda>l. if j < length l then rune_count (l ! j) else 0) ls) 0 + 2"

fun pad_cells :: "(nat \<Rightarrow> nat) \<Rightarrow> nat \<Rightarrow> string list \<Rightarrow> string" where
  "pad_cells width j [] = []"
| "pad_cells width j [c] = c"
| "pad_cells width j (c # cs) = c @ replicate (width j - rune_count c) (CHR '' '') @ pad_cells width (Suc j) cs"

definition PrintTable :: "string list \<Rightarrow> string list list \<Rightarrow> string" where
  "PrintTable headers rows =
     (let upper = map to_upper_str headers;
          ls = upper # map (\<lambda>h. replicate (length h) (CHR ''-'')) upper # rows
      in concat (map (\<lambda>l. pad_cells (column_width ls) 0 l @ [newline]) ls))"

definition esc :: char where "esc = CHR 0x1B"

definition green :: "bool \<Rightarrow> string \<Rightarrow> string" where
  "green tty s = (if \<not> tty then s else [esc] @ ''[32m'' @ s @ [esc] @ ''[0m'')"

definition red :: "bool \<Rightarrow> string \<Rightarrow> string" where
  "red tty s = (if \<not> tty then s else [esc] @ ''[31m'' @ s @ [esc] @ ''[0m'')"

definition boolStr :: "bool \<Rightarrow> bool \<Rightarrow> string" where
  "boolStr tty b = (if b then green tty ''yes'' else red tty ''no'')"

definition check_mark :: string where "check_mark = [CHR 0xE2, CHR 0x9C, CHR 0x93]"
definition cross_mark :: string where "cross_mark = [CHR 0xE2, CHR 0x9C, CHR 0x97]"
definition em_dash :: string where "em_dash = [CHR 0xE2, CHR 0x80, CHR 0x94]"

text \<open>
  The other helpers, as what they write to standard output and to standard error. The argument of
  \<^verbatim>\<open>PrintJSON\<close> is any Go value: the JSON that encodes it, or the error of the encoder.
\<close>

definition PrintSuccess :: "string \<Rightarrow> string" where
  "PrintSuccess message = check_mark @ '' '' @ message @ [newline]"

definition PrintError :: "string \<Rightarrow> string" where
  "PrintError message = ''ERROR: '' @ message @ [newline]"

definition PrintJSON :: "string + json \<Rightarrow> string \<times> string" where
  "PrintJSON v =
     (case v of
        Inl e \<Rightarrow> ([], PrintError (''JSON encoding error: '' @ e))
      | Inr j \<Rightarrow> (json_show False True 0 j @ [newline], []))"

lemma PrintJSON_parses:
  assumes "wf_json j" "depth j \<le> max_depth"
  shows "snd (PrintJSON (Inr j)) = [] \<and> json_parse (fst (PrintJSON (Inr j))) = Some j"
proof -
  have "json_lex [newline] = Some []" by (subst json_lex.simps, subst json_lex.simps) (simp add: is_json_space_def)
  then have "json_lex (json_show False True 0 j @ [newline]) = Some (toks j)"
    using lexesD[OF lexes_show[OF assms(1), of False True 0], of "[newline]"] by simp
  then show ?thesis using run_toks[of j "[]"] assms(2) by (simp add: PrintJSON_def json_parse_def)
qed

definition bool_word :: "bool \<Rightarrow> string" where
  "bool_word b = (if b then ''true'' else ''false'')"

text \<open>The loop of \<^verbatim>\<open>formatBytes\<close>: the divisor and the exponent, until less than 1024 units remain.\<close>

function unit_loop :: "nat \<Rightarrow> nat \<Rightarrow> nat \<Rightarrow> nat \<times> nat" where
  "unit_loop n d e = (if n \<ge> 1024 then unit_loop (n div 1024) (d * 1024) (Suc e) else (d, e))"
  by auto
termination by (relation "measure (\<lambda>(n, d, e). n)") auto

declare unit_loop.simps [simp del]

text \<open>\<open>None\<close>: the index into the unit letters is out of range.\<close>

definition formatBytes :: "u64 \<Rightarrow> string option" where
  "formatBytes b =
     (if unat b < 1024 then Some (nat_str (unat b) @ '' B'')
      else
        let (d, e) = unit_loop (unat b div 1024) 1024 0 in
        if e < 6 then
          Some (fixed1 (f64 (f64 (of_nat (unat b)) / f64 (of_nat d))) @ '' '' @ [''KMGTPE'' ! e] @ ''B'')
        else None)"

text \<open>\<^verbatim>\<open>Duration.Hours\<close> and \<^verbatim>\<open>Duration.Minutes\<close>.\<close>

definition in_unit :: "int \<Rightarrow> int \<Rightarrow> rat" where
  "in_unit u d = f64 (f64 (of_int (go_div d u)) + f64 (f64 (of_int (go_mod d u)) / of_int u))"

definition formatSeconds :: "i64 \<Rightarrow> string" where
  "formatSeconds s =
     (let d = sint (s * word_of_int second);
          h = trunc (in_unit (3600 * second) d);
          days = go_div h 24; hours = go_mod h 24;
          minutes = go_mod (trunc (in_unit (60 * second) d)) 60
      in if days > 0 then int_str days @ ''d '' @ int_str hours @ ''h '' @ int_str minutes @ ''m''
         else int_str hours @ ''h '' @ int_str minutes @ ''m'')"

subsection \<open>Preflight checks\<close>

record check_result =
  ck_name :: string
  ck_ok :: bool
  ck_detail :: string

definition svcCheck :: "string \<Rightarrow> service_health \<Rightarrow> check_result" where
  "svcCheck label h =
     \<lparr>ck_name = label, ck_ok = sh_active h,
      ck_detail = (if sh_name h = [] then ''D-Bus unavailable'' else sh_sub_state h)\<rparr>"

definition apiCheck :: "string \<Rightarrow> bool \<Rightarrow> string \<Rightarrow> check_result" where
  "apiCheck label reachable detail = \<lparr>ck_name = label, ck_ok = reachable, ck_detail = detail\<rparr>"

definition no_such_file :: "string \<Rightarrow> string" where
  "no_such_file path = ''open '' @ path @ '': no such file or directory''"

definition fileReadCheck :: "'x os \<Rightarrow> string \<Rightarrow> string \<Rightarrow> 'x world \<Rightarrow> check_result" where
  "fileReadCheck os label path w =
     (case os_fail os (OpOpen path) (ext w) of
        Some e \<Rightarrow> \<lparr>ck_name = label, ck_ok = False, ck_detail = e\<rparr>
      | None \<Rightarrow>
          (case fs w path of
             None \<Rightarrow> \<lparr>ck_name = label, ck_ok = False, ck_detail = no_such_file path\<rparr>
           | Some _ \<Rightarrow> \<lparr>ck_name = label, ck_ok = True, ck_detail = path\<rparr>))"

definition fileJSONCheck :: "'x os \<Rightarrow> string \<Rightarrow> string \<Rightarrow> 'x world \<Rightarrow> check_result" where
  "fileJSONCheck os label path w =
     (case read_file os path w of
        RdError e \<Rightarrow> \<lparr>ck_name = label, ck_ok = False, ck_detail = e\<rparr>
      | RdNotExist \<Rightarrow> \<lparr>ck_name = label, ck_ok = False, ck_detail = no_such_file path\<rparr>
      | RdData d \<Rightarrow>
          let trimmed = trim_space d in
          if \<not> (has_prefix trimmed ''{'' \<and> has_suffix trimmed ''}'')
          then \<lparr>ck_name = label, ck_ok = False, ck_detail = ''invalid JSON structure''\<rparr>
          else \<lparr>ck_name = label, ck_ok = True, ck_detail = ''valid''\<rparr>)"

text \<open>
  A path without a slash makes the slice bounds negative: a panic. The test file is named by
  \<^verbatim>\<open>os.CreateTemp\<close>, which adds a slash unless the directory ends in one.
\<close>

definition write_test_name :: "'x os \<Rightarrow> string \<Rightarrow> 'x world \<Rightarrow> string" where
  "write_test_name os dir w =
     dir @ (if has_suffix dir ''/'' then [] else ''/'') @ ''.s3dctl-write-test-'' @ os_temp os (ext w)"

definition write_test_dir :: "string \<Rightarrow> string option" where
  "write_test_dir path =
     (case last_index_char (CHR ''/'') path of
        None \<Rightarrow> None
      | Some i \<Rightarrow> Some (if take i path = [] then ''.'' else take i path))"

definition fileWriteCheck :: "'x os \<Rightarrow> string \<Rightarrow> string \<Rightarrow> 'x world \<Rightarrow> (check_result \<times> 'x world) option" where
  "fileWriteCheck os label path w =
     (case write_test_dir path of
        None \<Rightarrow> None
      | Some dir \<Rightarrow>
          (case os_fail os (OpCreateTemp dir) (ext w) of
             Some e \<Rightarrow> Some (\<lparr>ck_name = label, ck_ok = False, ck_detail = e\<rparr>, w)
           | None \<Rightarrow>
               let tmp = write_test_name os dir w;
                   w1 = set_file tmp (Some \<lparr>f_data = [], f_mode = 0x180, f_uid = fst (os_owner os),
                                            f_gid = snd (os_owner os)\<rparr>) w;
                   w2 = (if os_fail os (OpRemove tmp) (ext w1) = None then set_file tmp None w1 else w1)
               in Some (\<lparr>ck_name = label, ck_ok = True, ck_detail = path\<rparr>, w2)))"

definition cluster_checks :: "s3_config \<Rightarrow> cluster_components \<Rightarrow> check_result list" where
  "cluster_checks cfg c =
     [svcCheck ''weed-master service'' (mc_service (cc_master c)),
      svcCheck ''weed-volume service'' (vc_service (cc_volume c)),
      svcCheck ''weed-filer service'' (fc_service (cc_filer c)),
      svcCheck ''weed-s3 service'' (gc_service (cc_s3 c)),
      svcCheck ''nginx service'' (nc_service (cc_nginx c)),
      apiCheck ''master API reachable'' (mc_reachable (cc_master c)) (''GET '' @ MasterURL cfg @ ''/cluster/status''),
      apiCheck ''volume API reachable'' (vc_reachable (cc_volume c)) (''GET '' @ VolumeURL cfg @ ''/status''),
      apiCheck ''filer API reachable'' (fc_reachable (cc_filer c)) (''HEAD '' @ FilerURL cfg @ ''/''),
      apiCheck ''s3 gateway reachable'' (gc_reachable (cc_s3 c)) (''HEAD '' @ S3URL cfg @ ''/'')]"

definition check_row :: "bool \<Rightarrow> check_result \<Rightarrow> string list" where
  "check_row tty r =
     [ck_name r, if ck_ok r then green tty (check_mark @ '' PASS'') else red tty (cross_mark @ '' FAIL''), ck_detail r]"

type_synonym 'x command = "((string \<times> go_error option) \<times> 'x world) option"

definition runChecks :: "'x os \<Rightarrow> s3_config \<Rightarrow> 'x manager \<Rightarrow> bool \<Rightarrow> 'x world \<Rightarrow> 'x command" where
  "runChecks os cfg svc tty w =
     (case PollCluster os cfg (Some svc) w of
        None \<Rightarrow> None
      | Some (c, w1) \<Rightarrow>
          (case fileWriteCheck os ''blocked_keys.conf writable'' (NginxBlockedKeysFile cfg) w1 of
             None \<Rightarrow> None
           | Some (wr, w2) \<Rightarrow>
               let results = cluster_checks cfg c @
                     [fileReadCheck os ''s3.json readable'' (IAMFile cfg) w1,
                      fileJSONCheck os ''s3.json valid JSON'' (IAMFile cfg) w1,
                      fileReadCheck os ''blocked_keys.conf readable'' (NginxBlockedKeysFile cfg) w1, wr];
                   out = PrintTable [''Check'', ''Status'', ''Detail''] (map (check_row tty) results)
               in Some ((out, if \<forall>r \<in> set results. ck_ok r then None else Some (Msg ''one or more checks failed'')), w2)))"

subsection \<open>Commands\<close>

definition printClusterStatus :: "bool \<Rightarrow> cluster_components \<Rightarrow> string" where
  "printClusterStatus tty c =
     PrintTable [''Component'', ''Service'', ''API'', ''Detail'']
       [[''weed-master'', boolStr tty (sh_active (mc_service (cc_master c))), boolStr tty (mc_reachable (cc_master c)),
         ''leader='' @ bool_word (mc_is_leader (cc_master c)) @ '' peers='' @ nat_str (mc_peers (cc_master c))],
        [''weed-volume'', boolStr tty (sh_active (vc_service (cc_volume c))), boolStr tty (vc_reachable (cc_volume c)),
         ''total='' @ nat_str (vc_total (cc_volume c)) @ '' writable='' @ nat_str (vc_writable (cc_volume c)) @
         '' degraded='' @ nat_str (vc_degraded (cc_volume c)) @ '' cap='' @ fixed1 (vc_capacity_pct (cc_volume c)) @ ''%''],
        [''weed-filer'', boolStr tty (sh_active (fc_service (cc_filer c))), boolStr tty (fc_reachable (cc_filer c)), []],
        [''weed-s3'', boolStr tty (sh_active (gc_service (cc_s3 c))), boolStr tty (gc_reachable (cc_s3 c)),
         ''buckets='' @ nat_str (gc_bucket_count (cc_s3 c))],
        [''nginx'', boolStr tty (sh_active (nc_service (cc_nginx c))), em_dash, sh_sub_state (nc_service (cc_nginx c))]]"

definition cluster_status :: "'x os \<Rightarrow> s3_config \<Rightarrow> 'x manager \<Rightarrow> bool \<Rightarrow> 'x world \<Rightarrow> 'x command" where
  "cluster_status os cfg svc tty w =
     (case PollCluster os cfg (Some svc) w of
        None \<Rightarrow> None
      | Some (c, w1) \<Rightarrow> Some ((printClusterStatus tty c, None), w1))"

definition cluster_volumes :: "'x os \<Rightarrow> s3_config \<Rightarrow> 'x manager \<Rightarrow> bool \<Rightarrow> 'x world \<Rightarrow> 'x command" where
  "cluster_volumes os cfg svc tty w =
     (case PollCluster os cfg (Some svc) w of
        None \<Rightarrow> None
      | Some (c, w1) \<Rightarrow>
          let v = cc_volume c in
          (case (formatBytes (vc_bytes_total v), formatBytes (vc_bytes_used v)) of
             (Some tot, Some usd) \<Rightarrow>
               Some ((PrintTable [''Field'', ''Value'']
                 [[''Service active'', boolStr tty (sh_active (vc_service v))], [''API reachable'', boolStr tty (vc_reachable v)],
                  [''Total volumes'', nat_str (vc_total v)], [''Writable'', nat_str (vc_writable v)],
                  [''Degraded'', nat_str (vc_degraded v)], [''Read-only'', nat_str (vc_readonly v)],
                  [''Capacity total'', tot], [''Capacity used'', usd],
                  [''Capacity %'', fixed1 (vc_capacity_pct v) @ ''%'']], None), w1)
           | _ \<Rightarrow> None))"

definition buckets_list :: "'x os \<Rightarrow> s3_config \<Rightarrow> 'x world \<Rightarrow> 'x command" where
  "buckets_list os cfg w =
     (case BucketStats os cfg w of
        (Inl e, w1) \<Rightarrow> Some (([], Some e), w1)
      | (Inr stats, w1) \<Rightarrow>
          if stats = [] then Some ((''No buckets found.'' @ [newline], None), w1)
          else if \<forall>b \<in> set stats. formatBytes (bu_size_bytes b) \<noteq> None then
            Some ((PrintTable [''Bucket'', ''Objects'', ''Size'', ''Health'']
              (map (\<lambda>b. [bu_name b, int_str (sint (bu_object_count b)), the (formatBytes (bu_size_bytes b)),
                         bu_replica_health b]) stats), None), w1)
          else None)"

definition iam_list :: "'x os \<Rightarrow> s3_config \<Rightarrow> 'x world \<Rightarrow> 'x command" where
  "iam_list os cfg w =
     (case ListIAM os cfg w of
        Inl e \<Rightarrow> Some (([], Some e), w)
      | Inr users \<Rightarrow>
          if users = [] then Some ((''No IAM identities found.'' @ [newline], None), w)
          else Some ((PrintTable [''Name'', ''Access Key''] (map (\<lambda>u. [iu_name u, iu_access_key u]) users), None), w))"

text \<open>A confirmation that quotes its subject, or the manager's error.\<close>

definition confirmed :: "'x link \<Rightarrow> string \<Rightarrow> string \<Rightarrow> string \<Rightarrow> unit res \<times> 'x world \<Rightarrow> 'x command" where
  "confirmed lk before subject after r =
     (case r of
        (Inl e, w) \<Rightarrow> Some (([], Some e), w)
      | (Inr _, w) \<Rightarrow> Some ((before @ lk_quote lk subject @ after @ [newline], None), w))"

text \<open>The action list of \<^verbatim>\<open>--actions\<close> is split and then not used.\<close>

definition iam_create ::
  "'x link \<Rightarrow> 'x os \<Rightarrow> s3_config \<Rightarrow> string \<Rightarrow> string \<Rightarrow> string \<Rightarrow> string \<Rightarrow> 'x world \<Rightarrow> 'x command" where
  "iam_create lk os cfg name ak sk actions w =
     (if name = [] \<or> ak = [] \<or> sk = []
      then Some (([], Some (Msg ''--name, --access-key, and --secret-key are required'')), w)
      else confirmed lk ''IAM identity '' name '' created.''
             (CreateIAMUser New_Executor os cfg
                \<lparr>iu_user_id = [], iu_name = name, iu_owner_tenant_id = [], iu_access_key = ak, iu_secret_key = [],
                 iu_bucket_acls = []\<rparr> sk w))"

definition iam_delete :: "'x link \<Rightarrow> 'x os \<Rightarrow> s3_config \<Rightarrow> string \<Rightarrow> 'x world \<Rightarrow> 'x command" where
  "iam_delete lk os cfg name w =
     confirmed lk ''IAM identity '' name '' deleted.'' (DeleteIAMUser New_Executor os cfg name w)"

definition blocked_list :: "'x os \<Rightarrow> s3_config \<Rightarrow> 'x world \<Rightarrow> 'x command" where
  "blocked_list os cfg w =
     (case ListBlocked os cfg w of
        Inl e \<Rightarrow> Some (([], Some e), w)
      | Inr keys \<Rightarrow>
          if keys = [] then Some ((''No access keys are currently blocked.'' @ [newline], None), w)
          else Some ((PrintTable [''Blocked Access Key''] (map (\<lambda>k. [k]) keys), None), w))"

definition blocked_add :: "'x link \<Rightarrow> 'x os \<Rightarrow> s3_config \<Rightarrow> string \<Rightarrow> string \<Rightarrow> 'x world \<Rightarrow> 'x command" where
  "blocked_add lk os cfg key reason w =
     confirmed lk ''Access key '' key '' blocked.'' (BlockAccessKey New_Executor os cfg key reason w)"

definition blocked_remove :: "'x link \<Rightarrow> 'x os \<Rightarrow> s3_config \<Rightarrow> string \<Rightarrow> 'x world \<Rightarrow> 'x command" where
  "blocked_remove lk os cfg key w =
     confirmed lk ''Access key '' key '' unblocked.'' (UnblockAccessKey New_Executor os cfg key w)"

definition version :: "string" where
  "version = ''s3dctl '' @ AgentVersion @ [newline]"

subsection \<open>The command line as a whole\<close>

definition loadDeps :: "viper \<Rightarrow> string \<Rightarrow> config res" where
  "loadDeps vp cfgFile =
     (case Load vp cfgFile of Inl e \<Rightarrow> Inl (Wrap ''loading config'' e) | Inr cfg \<Rightarrow> Inr cfg)"

text \<open>The two platforms' \<^verbatim>\<open>newServiceManager\<close>: it never returns nil, a failed connection is a manager without a bus.\<close>

definition ctl_service_manager :: "bool \<Rightarrow> (string + 'x bus) \<Rightarrow> 'x manager" where
  "ctl_service_manager windows conn =
     (if windows then WindowsManager
      else LinuxManager (case conn of Inl _ \<Rightarrow> None | Inr b \<Rightarrow> Some b))"

datatype ctl_command =
    CtlCheck
  | CtlClusterStatus
  | CtlClusterVolumes
  | CtlBucketsList
  | CtlIamList
  | CtlIamCreate string string string string
  | CtlIamDelete string
  | CtlBlockedList
  | CtlBlockedAdd string string
  | CtlBlockedRemove string
  | CtlVersion

text \<open>Only \<^verbatim>\<open>iam create\<close> looks at its flags before it loads the configuration.\<close>

definition ctl_exec ::
  "'x os \<Rightarrow> 'x link \<Rightarrow> bool \<Rightarrow> s3_config \<Rightarrow> 'x manager \<Rightarrow> ctl_command \<Rightarrow> 'x world \<Rightarrow> 'x command" where
  "ctl_exec os lk tty cfg svc cmd w =
     (case cmd of
        CtlCheck \<Rightarrow> runChecks os cfg svc tty w
      | CtlClusterStatus \<Rightarrow> cluster_status os cfg svc tty w
      | CtlClusterVolumes \<Rightarrow> cluster_volumes os cfg svc tty w
      | CtlBucketsList \<Rightarrow> buckets_list os cfg w
      | CtlIamList \<Rightarrow> iam_list os cfg w
      | CtlIamCreate name ak sk acts \<Rightarrow> iam_create lk os cfg name ak sk acts w
      | CtlIamDelete name \<Rightarrow> iam_delete lk os cfg name w
      | CtlBlockedList \<Rightarrow> blocked_list os cfg w
      | CtlBlockedAdd key reason \<Rightarrow> blocked_add lk os cfg key reason w
      | CtlBlockedRemove key \<Rightarrow> blocked_remove lk os cfg key w
      | CtlVersion \<Rightarrow> Some ((version, None), w))"

definition flags_missing :: "ctl_command \<Rightarrow> bool" where
  "flags_missing cmd =
     (case cmd of CtlIamCreate name ak sk acts \<Rightarrow> name = [] \<or> ak = [] \<or> sk = [] | _ \<Rightarrow> False)"

definition s3dctl ::
  "viper \<Rightarrow> bool \<Rightarrow> string + 'x bus \<Rightarrow> 'x os \<Rightarrow> 'x link \<Rightarrow> bool \<Rightarrow> string \<Rightarrow> ctl_command \<Rightarrow> 'x world \<Rightarrow> 'x command"
  where
  "s3dctl vp windows conn os lk tty cfgFile cmd w =
     (if cmd = CtlVersion then Some ((version, None), w)
      else if flags_missing cmd
      then Some (([], Some (Msg ''--name, --access-key, and --secret-key are required'')), w)
      else
        (case loadDeps vp cfgFile of
           Inl e \<Rightarrow> Some (([], Some e), w)
         | Inr cfg \<Rightarrow> ctl_exec os lk tty (cfg_s3 cfg) (ctl_service_manager windows conn) cmd w))"

subsection \<open>Sizes never run out of units\<close>

lemma unit_loop_bound:
  assumes "n < 1024 ^ Suc k"
  shows "snd (unit_loop n d e) \<le> e + k"
  using assms
proof (induction k arbitrary: n d e)
  case 0
  then show ?case by (simp add: unit_loop.simps[of n])
next
  case (Suc k)
  show ?case
  proof (cases "n \<ge> 1024")
    case True
    have "n div 1024 < 1024 ^ Suc k" using Suc.prems by (simp add: div_less_iff_less_mult)
    from Suc.IH[OF this, of "d * 1024" "Suc e"] show ?thesis using True by (simp add: unit_loop.simps[of n])
  qed (simp add: unit_loop.simps[of n])
qed

lemma formatBytes_Some: "formatBytes b \<noteq> None"
proof -
  have "unat b < 2 ^ 64" using unsigned_less[of b] by simp
  then have "unat b div 1024 < 1024 ^ Suc 5" by (simp add: div_less_iff_less_mult)
  from unit_loop_bound[OF this, of 1024 0] show ?thesis
    by (auto simp: formatBytes_def split: prod.split)
qed

text \<open>The unit is the largest one that does not exceed the value.\<close>

lemma unit_loop_fits:
  assumes "0 < n" "0 < d"
  shows "let (d', e') = unit_loop n d e in
    d' = d * 1024 ^ (e' - e) \<and> e \<le> e' \<and> d' div d \<le> n \<and> n < 1024 * (d' div d)"
  using assms
proof (induction n d e rule: unit_loop.induct)
  case (1 n d e)
  show ?case
  proof (cases "1024 \<le> n")
    case True
    obtain d' e' where r: "unit_loop (n div 1024) (d * 1024) (Suc e) = (d', e')" by fastforce
    have "0 < n div 1024" using True by (simp add: div_greater_zero_iff)
    from 1(1)[OF True this] 1(3) r
    have ih: "d' = d * 1024 * 1024 ^ (e' - Suc e)" "Suc e \<le> e'"
      "1024 ^ (e' - Suc e) \<le> n div 1024" "n div 1024 < 1024 * 1024 ^ (e' - Suc e)"
      by (auto simp: mult.assoc)
    have p: "(1024::nat) ^ (e' - e) = 1024 * 1024 ^ (e' - Suc e)"
      using ih(2) by (metis Suc_diff_le diff_Suc_Suc power_Suc)
    have "1024 * 1024 ^ (e' - Suc e) \<le> n" using ih(3) by (simp add: less_eq_div_iff_mult_less_eq mult.commute)
    moreover have "n < 1024 * (1024 * 1024 ^ (e' - Suc e))" using ih(4) by (simp add: div_less_iff_less_mult mult.commute)
    ultimately show ?thesis using True 1(3) ih(1,2) r p by (simp add: unit_loop.simps[of n] Suc_leD)
  next
    case False
    then show ?thesis using 1(2,3) by (simp add: unit_loop.simps[of n])
  qed
qed

lemma formatBytes_1536: "formatBytes 1536 = Some ''1.5 KB''"
  by (simp add: formatBytes_def unit_loop.simps) code_simp

lemma formatSeconds_90061: "formatSeconds 90061 = ''1d 1h 1m''"
  by code_simp

subsection \<open>Panics\<close>

lemma write_test_dir_None [simp]: "write_test_dir path = None \<longleftrightarrow> CHR ''/'' \<notin> set path"
  by (simp add: write_test_dir_def flip: last_index_char_None split: option.split)

lemma fileWriteCheck_None: "fileWriteCheck os label path w = None \<longleftrightarrow> CHR ''/'' \<notin> set path"
  by (simp add: fileWriteCheck_def Let_def flip: write_test_dir_None split: option.split)

lemma runChecks_None:
  "runChecks os cfg svc tty w = None \<longleftrightarrow>
     (\<exists>e. os_url os (S3URL cfg @ ''/'') = Inl e) \<or> CHR ''/'' \<notin> set (NginxBlockedKeysFile cfg)"
proof (cases "PollCluster os cfg (Some svc) w")
  case None
  then show ?thesis using PollCluster_None[of os cfg "Some svc" w] by (simp add: runChecks_def)
next
  case (Some cw)
  then have "\<nexists>e. os_url os (S3URL cfg @ ''/'') = Inl e" using PollCluster_None[of os cfg "Some svc" w] by auto
  then show ?thesis
    using Some fileWriteCheck_None[of os _ "NginxBlockedKeysFile cfg" "snd cw"]
    by (cases "fileWriteCheck os ''blocked_keys.conf writable'' (NginxBlockedKeysFile cfg) (snd cw)")
       (auto simp: runChecks_def Let_def split: prod.splits)
qed

text \<open>
  The preflight checks panic exactly on a gateway address that is not a URL or a block-list path
  without a slash; every other condition is a line of the report.
\<close>

theorem runChecks_panics:
  "runChecks os cfg svc tty w = None \<longleftrightarrow>
     (\<exists>e. os_url os (S3URL cfg @ ''/'') = Inl e) \<or> last_index_char (CHR ''/'') (NginxBlockedKeysFile cfg) = None"
  by (simp add: runChecks_None)

subsection \<open>What a command can write\<close>

text \<open>The files a command may touch: the one it manages and the temporary files beside it.\<close>

definition may_write :: "'x os \<Rightarrow> s3_config \<Rightarrow> ctl_command \<Rightarrow> string set" where
  "may_write os cfg cmd =
     (case cmd of
        CtlCheck \<Rightarrow>
          (case write_test_dir (NginxBlockedKeysFile cfg) of
             None \<Rightarrow> {} | Some dir \<Rightarrow> range (write_test_name os dir))
      | CtlIamCreate _ _ _ _ \<Rightarrow> insert (IAMFile cfg) (range (temp_name os (IAMFile cfg)))
      | CtlIamDelete _ \<Rightarrow> insert (IAMFile cfg) (range (temp_name os (IAMFile cfg)))
      | CtlBlockedAdd _ _ \<Rightarrow> insert (NginxBlockedKeysFile cfg) (range (temp_name os (NginxBlockedKeysFile cfg)))
      | CtlBlockedRemove _ \<Rightarrow> insert (NginxBlockedKeysFile cfg) (range (temp_name os (NginxBlockedKeysFile cfg)))
      | _ \<Rightarrow> {})"

lemma confirmed_world:
  "confirmed lk before subject after rw = Some (r, w') \<Longrightarrow> w' = snd rw"
  by (auto simp: confirmed_def split: prod.splits sum.splits)

lemma fileWriteCheck_only_writes:
  assumes "fileWriteCheck os label path w = Some (r, w')" "write_test_dir path = Some dir"
  shows "only_writes (range (write_test_name os dir)) w w'"
  using assms by (auto simp: fileWriteCheck_def only_writes_def Let_def split: option.splits)

lemma runChecks_only_writes:
  assumes "runChecks os cfg svc tty w = Some (r, w')"
  shows "only_writes (may_write os cfg CtlCheck) w w'"
proof -
  from assms obtain c w1 wr where p: "PollCluster os cfg (Some svc) w = Some (c, w1)"
    and c: "fileWriteCheck os ''blocked_keys.conf writable'' (NginxBlockedKeysFile cfg) w1 = Some (wr, w')"
    by (auto simp: runChecks_def Let_def split: option.splits)
  then obtain dir where "write_test_dir (NginxBlockedKeysFile cfg) = Some dir"
    by (auto simp: fileWriteCheck_def split: option.splits)
  then show ?thesis
    using fileWriteCheck_only_writes[OF c] PollCluster_fs[OF p] by (simp add: may_write_def only_writes_def)
qed

lemma ctl_exec_only_writes:
  assumes "ctl_exec os lk tty cfg svc cmd w = Some (r, w')"
  shows "only_writes (may_write os cfg cmd) w w'"
proof (cases cmd)
  case CtlCheck
  then show ?thesis using assms by (simp add: ctl_exec_def runChecks_only_writes)
next
  case CtlClusterStatus
  then show ?thesis using assms
    by (auto simp: ctl_exec_def cluster_status_def split: option.splits dest!: PollCluster_fs intro: only_writes_fs)
next
  case CtlClusterVolumes
  then show ?thesis using assms
    by (auto simp: ctl_exec_def cluster_volumes_def Let_def split: option.splits dest!: PollCluster_fs intro: only_writes_fs)
next
  case CtlBucketsList
  then show ?thesis using assms BucketStats_fs[of os cfg w]
    by (auto simp: ctl_exec_def buckets_list_def split: prod.splits sum.splits if_splits intro!: only_writes_fs)
next
  case (CtlIamCreate name ak sk acts)
  then show ?thesis using assms
    by (auto simp: ctl_exec_def iam_create_def may_write_def split: if_splits dest!: confirmed_world
        intro!: only_writes_mono[OF CreateIAMUser_only_writes])
next
  case (CtlIamDelete name)
  then show ?thesis using assms
    by (auto simp: ctl_exec_def iam_delete_def may_write_def dest!: confirmed_world
        intro!: only_writes_mono[OF DeleteIAMUser_only_writes])
next
  case (CtlBlockedAdd key reason)
  then show ?thesis using assms
    by (auto simp: ctl_exec_def blocked_add_def may_write_def dest!: confirmed_world
        intro!: only_writes_mono[OF BlockAccessKey_only_writes])
next
  case (CtlBlockedRemove key)
  then show ?thesis using assms
    by (auto simp: ctl_exec_def blocked_remove_def may_write_def dest!: confirmed_world
        intro!: only_writes_mono[OF UnblockAccessKey_only_writes])
qed (use assms in \<open>auto simp: ctl_exec_def iam_list_def blocked_list_def split: sum.splits if_splits\<close>)

text \<open>
  C37. A command of the control program changes no file but the one it manages (the identities for
  iam create and delete, the block list for blocked add and remove) and temporary files beside it; check
  can leave its write-test file; listing commands, and every command whose configuration does not load,
  change none.
\<close>

theorem s3dctl_only_writes:
  assumes "s3dctl vp windows conn os lk tty f cmd w = Some (r, w')"
  shows "case Load vp f of Inl _ \<Rightarrow> w' = w | Inr cfg \<Rightarrow> only_writes (may_write os (cfg_s3 cfg) cmd) w w'"
proof (cases "cmd = CtlVersion \<or> flags_missing cmd")
  case True
  then show ?thesis using assms by (auto simp: s3dctl_def split: if_splits sum.split)
next
  case False
  then show ?thesis using assms
    by (auto simp: s3dctl_def loadDeps_def intro!: ctl_exec_only_writes split: sum.splits)
qed

definition quoting_link :: "unit link" where
  "quoting_link = \<lparr>lk_random = (\<lambda>x. (replicate 16 (CHR ''r''), x)), lk_publish = (\<lambda>s d x. (None, x)),
     lk_dial = (\<lambda>u n p x. (None, x)), lk_subscribe = (\<lambda>s x. (None, x)), lk_float = (\<lambda>q. []),
     lk_time = (\<lambda>t. []), lk_quote = (\<lambda>s. quote # s @ [quote])\<rparr>"

theorem s3dctl_only_writes_witness:
  "\<exists>r w'. s3dctl stock_viper True (Inl []) calm_os quoting_link False [] (CtlBlockedAdd ''AK1'' ''abuse'') (one_file ''f'' [])
      = Some (r, w') \<and>
    only_writes (may_write (calm_os :: unit os) default_s3 (CtlBlockedAdd ''AK1'' ''abuse'')) (one_file ''f'' []) w'"
proof -
  let ?cmd = "CtlBlockedAdd ''AK1'' ''abuse''"
  have l: "Load stock_viper [] = Inr setDefaults" by (simp add: Load_def stock_viper_def)
  have "\<exists>r w'. confirmed lk before subject after rw = Some (r, w')" for lk before subject after and rw :: "unit res \<times> unit world"
    by (auto simp: confirmed_def split: prod.split sum.split)
  then obtain r w' where s: "s3dctl stock_viper True (Inl []) calm_os quoting_link False [] ?cmd (one_file ''f'' []) = Some (r, w')"
    by (simp add: s3dctl_def loadDeps_def l flags_missing_def ctl_exec_def blocked_add_def) metis
  show ?thesis using s s3dctl_only_writes[OF s] l by (auto simp: setDefaults_def)
qed

end
