(* ===== verification/Concurrent.thy ===== *)
theory Concurrent
  imports IamLife
begin

section \<open>Several processes on one file\<close>

text \<open>
  The agent and any number of \<^verbatim>\<open>s3dctl\<close> processes change the identities file without a lock: each reads
  it, edits the decoded value in memory and runs \<open>atomic_write\<close>. Here they interleave system call by
  system call; a reader runs in one step, a writer in the phases of \<open>aw_step\<close>, and between two steps the
  outside may change in any way. What a process writes is a function \<open>edit\<close> of the content it read.
\<close>

datatype task = Reading | Writing aw_phase string | Stopped

fun task_temp :: "task \<Rightarrow> string set" where
  "task_temp (Writing ph d) = aw_temp ph"
| "task_temp _ = {}"

definition content :: "string \<Rightarrow> 'x world \<Rightarrow> string option" where
  "content path w = map_option f_data (fs w path)"

text \<open>
  The documented behaviour of \<^verbatim>\<open>os.CreateTemp\<close> among several processes: the name did not exist, and it is
  not one that another process still uses.
\<close>

definition temp_new :: "'x os \<Rightarrow> string \<Rightarrow> ('p \<Rightarrow> task) \<Rightarrow> 'x world \<Rightarrow> bool" where
  "temp_new os path tasks w \<longleftrightarrow> temp_fresh os path w \<and> (\<forall>p. temp_name os path w \<notin> task_temp (tasks p))"

inductive file_step ::
  "'x os \<Rightarrow> string \<Rightarrow> nat \<Rightarrow> ('p \<Rightarrow> string option \<Rightarrow> string option)
    \<Rightarrow> ('p \<Rightarrow> task) \<times> 'x world \<Rightarrow> ('p \<Rightarrow> task) \<times> 'x world \<Rightarrow> bool"
  for os path perm edit where
  read: "tasks p = Reading \<Longrightarrow> os_fail os (OpRead path) (ext w) = None \<Longrightarrow> edit p (content path w) = Some d \<Longrightarrow>
    file_step os path perm edit (tasks, w) (tasks(p := Writing AwStart d), w)"
| stop: "tasks p = Reading \<Longrightarrow> os_fail os (OpRead path) (ext w) \<noteq> None \<or> edit p (content path w) = None \<Longrightarrow>
    file_step os path perm edit (tasks, w) (tasks(p := Stopped), w)"
| create: "tasks p = Writing AwStart d \<Longrightarrow> temp_new os path tasks w \<Longrightarrow>
    aw_step os path d perm (AwStart, w) = (ph', w') \<Longrightarrow>
    file_step os path perm edit (tasks, w) (tasks(p := Writing ph' d), w')"
| continue: "tasks p = Writing ph d \<Longrightarrow> ph \<noteq> AwStart \<Longrightarrow> aw_step os path d perm (ph, w) = (ph', w') \<Longrightarrow>
    file_step os path perm edit (tasks, w) (tasks(p := Writing ph' d), w')"
| outside: "file_step os path perm edit (tasks, w) (tasks, w\<lparr>ext := x\<rparr>)"

abbreviation file_run ::
  "'x os \<Rightarrow> string \<Rightarrow> nat \<Rightarrow> ('p \<Rightarrow> string option \<Rightarrow> string option)
    \<Rightarrow> ('p \<Rightarrow> task) \<times> 'x world \<Rightarrow> ('p \<Rightarrow> task) \<times> 'x world \<Rightarrow> bool" where
  "file_run os path perm edit \<equiv> (file_step os path perm edit)\<^sup>*\<^sup>*"

subsection \<open>What every interleaving keeps\<close>

text \<open>
  A property of the content that every edit establishes holds of the file at every moment: a reader never
  finds a partial document. The interface is the edits, the operations they belong to that are within the
  contract, and the property.
\<close>

locale shared_file =
  fixes good :: "string option \<Rightarrow> bool"
    and valid :: "'op \<Rightarrow> bool"
    and edit :: "'op \<Rightarrow> string option \<Rightarrow> string option"
  assumes edit_good: "valid op \<Longrightarrow> good c \<Longrightarrow> edit op c = Some d \<Longrightarrow> good (Some d)"
begin

text \<open>The data a process has to have in its temporary file.\<close>

fun task_ok :: "'x world \<Rightarrow> string \<Rightarrow> task \<Rightarrow> bool" where
  "task_ok w path (Writing ph d) \<longleftrightarrow> good (Some d) \<and> path \<notin> aw_temp ph \<and>
     (case ph of
        AwWritten t \<Rightarrow> (\<forall>n. fs w t = Some n \<longrightarrow> f_data n = d)
      | AwClosed t \<Rightarrow> (\<forall>n. fs w t = Some n \<longrightarrow> f_data n = d)
      | _ \<Rightarrow> True)"
| "task_ok w path _ \<longleftrightarrow> True"

definition shared_inv :: "string \<Rightarrow> ('p \<Rightarrow> task) \<times> 'x world \<Rightarrow> bool" where
  "shared_inv path st \<longleftrightarrow> good (content path (snd st)) \<and>
     (\<forall>p. task_ok (snd st) path (fst st p)) \<and>
     (\<forall>p q. p \<noteq> q \<longrightarrow> task_temp (fst st p) \<inter> task_temp (fst st q) = {})"

lemma shared_invI:
  "good (content path w) \<Longrightarrow> (\<And>p. task_ok w path (tasks p)) \<Longrightarrow>
     (\<And>p q. p \<noteq> q \<Longrightarrow> task_temp (tasks p) \<inter> task_temp (tasks q) = {}) \<Longrightarrow> shared_inv path (tasks, w)"
  by (simp add: shared_inv_def)

lemma task_ok_frame:
  assumes "task_ok w path t" "\<forall>q \<in> task_temp t. fs w' q = fs w q"
  shows "task_ok w' path t"
proof (cases t)
  case (Writing ph d)
  then show ?thesis using assms by (cases ph) auto
qed simp_all

text \<open>One system call of a writer.\<close>

lemma aw_step_shared:
  assumes "aw_step os path d perm (ph, w) = (ph', w')" "task_ok w path (Writing ph d)" "good (content path w)"
    and "ph = AwStart \<Longrightarrow> temp_name os path w \<noteq> path"
  shows "task_ok w' path (Writing ph' d) \<and> good (content path w') \<and>
    aw_temp ph' \<subseteq> (if ph = AwStart then {temp_name os path w} else aw_temp ph) \<and>
    (\<forall>q. q \<noteq> path \<longrightarrow> q \<notin> aw_temp ph \<longrightarrow> q \<notin> aw_temp ph' \<longrightarrow> fs w' q = fs w q)"
  using assms
  by (cases ph) (auto simp: Let_def content_def split: option.splits)

lemma writer_step:
  assumes "shared_inv path (tasks, w)" "tasks p = Writing ph d" "aw_step os path d perm (ph, w) = (ph', w')"
    and "ph = AwStart \<Longrightarrow> temp_new os path tasks w"
  shows "shared_inv path (tasks(p := Writing ph' d), w')"
proof (rule shared_invI)
  have inv: "good (content path w)" "\<And>q. task_ok w path (tasks q)"
      "\<And>q r. q \<noteq> r \<Longrightarrow> task_temp (tasks q) \<inter> task_temp (tasks r) = {}"
    using assms(1) by (simp_all add: shared_inv_def)
  have new: "ph = AwStart \<Longrightarrow> temp_name os path w \<noteq> path \<and> (\<forall>q. temp_name os path w \<notin> task_temp (tasks q))"
    using assms(4) by (simp add: temp_new_def temp_fresh_def)
  have s: "task_ok w' path (Writing ph' d)" "good (content path w')"
      "aw_temp ph' \<subseteq> (if ph = AwStart then {temp_name os path w} else aw_temp ph)"
      "\<And>q. q \<noteq> path \<Longrightarrow> q \<notin> aw_temp ph \<Longrightarrow> q \<notin> aw_temp ph' \<Longrightarrow> fs w' q = fs w q"
    using aw_step_shared[OF assms(3) _ inv(1)] inv(2)[of p] assms(2) new by auto
  have apart: "aw_temp ph' \<inter> task_temp (tasks q) = {}" "aw_temp ph \<inter> task_temp (tasks q) = {}" if "q \<noteq> p" for q
    using s(3) new inv(3)[OF that] assms(2) by (auto split: if_splits)
  show "good (content path w')" by (rule s(2))
  show "task_ok w' path ((tasks(p := Writing ph' d)) q)" for q
  proof (cases "q = p")
    case False
    have "path \<notin> task_temp (tasks q)" using inv(2)[of q] by (cases "tasks q") simp_all
    then have "fs w' x = fs w x" if "x \<in> task_temp (tasks q)" for x
      using that apart[OF False] by (intro s(4)) (auto simp: disjoint_iff)
    then have "\<forall>x \<in> task_temp (tasks q). fs w' x = fs w x" by (rule ballI)
    then have "task_ok w' path (tasks q)" by (rule task_ok_frame[OF inv(2)])
    then show ?thesis using False by simp
  next
    case True
    then show ?thesis using s(1) by simp
  qed
  show "task_temp ((tasks(p := Writing ph' d)) q) \<inter> task_temp ((tasks(p := Writing ph' d)) r) = {}" if "q \<noteq> r" for q r
    using that inv(3)[of q r] apart(1)[of q] apart(1)[of r] by (cases "q = p"; cases "r = p") (simp_all add: Int_commute)
qed

lemma file_step_inv:
  assumes "file_step os path perm (\<lambda>p. edit (ops p)) st st'" "shared_inv path st" "\<And>p. valid (ops p)"
  shows "shared_inv path st'"
  using assms(1)
proof (cases rule: file_step.cases)
  case (read tasks p w d)
  then have "good (Some d)" using assms(2) edit_good[OF assms(3)] by (auto simp: shared_inv_def)
  then show ?thesis using assms(2) read by (auto simp: shared_inv_def)
next
  case (create tasks p d w ph' w')
  then show ?thesis using writer_step assms(2) by metis
next
  case (continue tasks p ph d w ph' w')
  then show ?thesis using writer_step assms(2) by metis
next
  case (outside tasks w x)
  then have "task_ok (w\<lparr>ext := x\<rparr>) path (tasks p)" for p
    using assms(2) task_ok_frame[of w path "tasks p" "w\<lparr>ext := x\<rparr>"] by (simp add: shared_inv_def)
  then show ?thesis using outside assms(2) by (simp add: shared_inv_def content_def)
next
  case (stop tasks p w)
  then show ?thesis using assms(2) by (auto simp: shared_inv_def)
qed

lemma file_run_good:
  assumes "file_run os path perm (\<lambda>p. edit (ops p)) (\<lambda>_. Reading, w) (tasks, w')" "good (content path w)"
    and "\<And>p. valid (ops p)"
  shows "good (content path w')"
proof -
  have "shared_inv path (tasks, w')"
    using assms(1)
  proof (induction rule: rtranclp_induct)
    case base
    then show ?case using assms(2) by (simp add: shared_inv_def)
  next
    case (step st st')
    then show ?case using file_step_inv assms(3) by blast
  qed
  then show ?thesis by (simp add: shared_inv_def)
qed

end

subsection \<open>The operations on the identities as edits\<close>

datatype iam_op = AddUser iam_user string | RemoveUser string | AddAdmin

fun iam_edit_file :: "s3_config \<Rightarrow> iam_op \<Rightarrow> iam_file \<Rightarrow> iam_file option" where
  "iam_edit_file cfg (AddUser u secret) f =
     Some (f\<lparr>if_identities := slice_append (if_identities f) [new_identity u secret]\<rparr>)"
| "iam_edit_file cfg (RemoveUser n) f =
     (if n \<in> id_name ` set (elems (if_identities f))
      then Some (f\<lparr>if_identities := Some (del_identity n (elems (if_identities f)))\<rparr>) else None)"
| "iam_edit_file cfg AddAdmin f =
     (if AdminAccessKey cfg = [] \<or> (\<exists>i \<in> set (elems (if_identities f)). has_access_key (AdminAccessKey cfg) i) then None
      else Some (f\<lparr>if_identities := slice_append (if_identities f) [admin_identity cfg]\<rparr>))"

definition parse_iam :: "string option \<Rightarrow> iam_file option" where
  "parse_iam c =
     (case c of
        None \<Rightarrow> Some empty_iam
      | Some d \<Rightarrow> (case unmarshal dec_iam empty_iam d of Inl _ \<Rightarrow> None | Inr f \<Rightarrow> Some f))"

definition iam_edit :: "s3_config \<Rightarrow> iam_op \<Rightarrow> string option \<Rightarrow> string option" where
  "iam_edit cfg op c =
     map_option (\<lambda>f. json_indent (enc_iam f)) (Option.bind (parse_iam c) (iam_edit_file cfg op))"

fun iam_op_run :: "executor \<Rightarrow> 'x os \<Rightarrow> s3_config \<Rightarrow> iam_op \<Rightarrow> 'x world \<Rightarrow> unit res \<times> 'x world" where
  "iam_op_run e os cfg (AddUser u secret) w = CreateIAMUser e os cfg u secret w"
| "iam_op_run e os cfg (RemoveUser n) w = DeleteIAMUser e os cfg n w"
| "iam_op_run e os cfg AddAdmin w = EnsureAdmin e os cfg w"

lemma readIAM_parse:
  assumes "os_fail os (OpRead (IAMFile cfg)) (ext w) = None"
  shows "case parse_iam (content (IAMFile cfg) w) of
      None \<Rightarrow> \<exists>e. readIAM os cfg w = Inl e | Some f \<Rightarrow> readIAM os cfg w = Inr f"
  using assms
  by (auto simp: parse_iam_def content_def readIAM_def read_file_def split: option.splits sum.splits)

lemma write_reload_edit:
  "fs (snd (write_reload e os cfg f w)) = fs (snd (atomic_write os (IAMFile cfg) (json_indent (enc_iam f)) 0x1A0 w))"
  by (auto simp: write_reload_def writeIAM_def frame_simps split: sum.split prod.split)

text \<open>A process that runs alone does to the files what the code's operation does.\<close>

lemma iam_op_edit:
  assumes "os_fail os (OpRead (IAMFile cfg)) (ext w) = None"
  shows "fs (snd (iam_op_run e os cfg op w)) =
    (case iam_edit cfg op (content (IAMFile cfg) w) of
       None \<Rightarrow> fs w
     | Some d \<Rightarrow> fs (snd (atomic_write os (IAMFile cfg) d 0x1A0 w)))"
proof (cases "parse_iam (content (IAMFile cfg) w)")
  case None
  then show ?thesis
    using readIAM_parse[OF assms]
    by (cases op) (auto simp: iam_edit_def CreateIAMUser_def DeleteIAMUser_def EnsureAdmin_def)
next
  case (Some f)
  then have r: "readIAM os cfg w = Inr f" using readIAM_parse[OF assms] by simp
  show ?thesis
  proof (cases op)
    case (RemoveUser n)
    let ?ids = "elems (if_identities f)"
    obtain arr k found where fl: "filter_loop n (length ?ids) 0 0 False ?ids = (arr, k, found)" by (metis prod_cases3)
    then have "take k arr = del_identity n ?ids" "found = (n \<in> id_name ` set ?ids)"
      using filter_loop_all[OF fl] by auto
    then show ?thesis using RemoveUser Some r fl by (simp add: iam_edit_def DeleteIAMUser_def write_reload_edit)
  qed (use Some r in \<open>simp_all add: iam_edit_def CreateIAMUser_def EnsureAdmin_def write_reload_edit\<close>)
qed

definition iam_good :: "s3_config \<Rightarrow> iam_identity list \<Rightarrow> string option \<Rightarrow> bool" where
  "iam_good cfg ids0 c \<longleftrightarrow>
     (\<exists>f. parse_iam c = Some f \<and> ok_iam f \<and> iam_evolves cfg ids0 (elems (if_identities f)))"

fun iam_op_valid :: "s3_config \<Rightarrow> iam_op \<Rightarrow> bool" where
  "iam_op_valid cfg (AddUser u secret) = ok_identity (new_identity u secret)"
| "iam_op_valid cfg (RemoveUser n) = True"
| "iam_op_valid cfg AddAdmin = ok_identity (admin_identity cfg)"

lemma iam_edit_file_change:
  assumes "iam_edit_file cfg op f = Some f'" "iam_op_valid cfg op" "ok_iam f"
  shows "ok_iam f' \<and> iam_change cfg (elems (if_identities f)) (elems (if_identities f'))"
proof (cases op)
  case (AddUser u secret)
  then show ?thesis
    using assms user_added[of u secret cfg "elems (if_identities f)"] by (auto simp: ok_iam_def add_identity_def)
next
  case (RemoveUser n)
  then show ?thesis
    using assms name_removed[of n "elems (if_identities f)" cfg]
    by (auto simp: ok_iam_def del_identity_def split: if_splits)
next
  case AddAdmin
  then show ?thesis
    using assms admin_added[of "elems (if_identities f)" cfg]
    by (auto simp: ok_iam_def add_identity_def split: if_splits)
qed

interpretation shared_iam: shared_file "iam_good cfg ids0" "iam_op_valid cfg" "iam_edit cfg" for cfg ids0
proof unfold_locales
  fix op c d
  assume v: "iam_op_valid cfg op" and g: "iam_good cfg ids0 c" and e: "iam_edit cfg op c = Some d"
  obtain f where f: "parse_iam c = Some f" "ok_iam f" "iam_evolves cfg ids0 (elems (if_identities f))"
    using g by (auto simp: iam_good_def)
  obtain f' where f': "iam_edit_file cfg op f = Some f'" "d = json_indent (enc_iam f')"
    using e f(1) by (auto simp: iam_edit_def)
  have s: "ok_iam f'" "iam_change cfg (elems (if_identities f)) (elems (if_identities f'))"
    using iam_edit_file_change[OF f'(1) v f(2)] by simp_all
  have "parse_iam (Some d) = Some f'" using f'(2) unmarshal_iam[OF s(1)] by (simp add: parse_iam_def)
  then show "iam_good cfg ids0 (Some d)"
    using s f(3) by (auto simp: iam_good_def intro: rtranclp.rtrancl_into_rtrancl)
qed

lemma iam_state_parse: "iam_state cfg f w \<longleftrightarrow> ok_iam f \<and> parse_iam (content (IAMFile cfg) w) = Some f"
  by (auto simp: iam_state_def parse_iam_def content_def split: option.splits sum.splits)

subsection \<open>The operations on the block list as edits\<close>

datatype block_op = AddBlock string string string | RemoveBlock string

fun block_edit :: "block_op \<Rightarrow> string option \<Rightarrow> string option" where
  "block_edit (AddBlock k reason date) c =
     (let data = (case c of None \<Rightarrow> [] | Some d \<Rightarrow> d) in
      if k = [] \<or> contains data (quoted k) then None else Some (data @ block_entry reason date k))"
| "block_edit (RemoveBlock k) c = (if k = [] then None else map_option (unblock_text k) c)"

fun block_op_valid :: "block_op \<Rightarrow> bool" where
  "block_op_valid (AddBlock k r d) \<longleftrightarrow> plain k \<and> plain r \<and> plain d \<and> k \<noteq> quota_text"
| "block_op_valid (RemoveBlock k) \<longleftrightarrow> plain k \<and> k \<noteq> quota_text"

inductive block_change :: "block_item list \<Rightarrow> block_item list \<Rightarrow> bool" where
  blocked_added: "k \<notin> set (item_keys items) \<Longrightarrow> block_change items (add_item (r, d, k) items)"
| blocked_removed: "block_change items (del_item k items)"

definition block_good :: "block_item list \<Rightarrow> string option \<Rightarrow> bool" where
  "block_good items0 c \<longleftrightarrow> (\<exists>items. ok_items items \<and> block_change\<^sup>*\<^sup>* items0 items \<and>
     (case c of None \<Rightarrow> items = [Blank] | Some d \<Rightarrow> d = file_of items))"

lemma blocked_state_content:
  "blocked_state cfg items w \<longleftrightarrow> ok_items items \<and>
     (case content (NginxBlockedKeysFile cfg) w of None \<Rightarrow> items = [Blank] | Some d \<Rightarrow> d = file_of items)"
  by (auto simp: blocked_state_def content_def split: option.splits)

interpretation shared_blocks: shared_file "block_good items0" block_op_valid block_edit for items0
proof unfold_locales
  fix op c d
  assume v: "block_op_valid op" and g: "block_good items0 c" and e: "block_edit op c = Some d"
  obtain items where i: "ok_items items" "block_change\<^sup>*\<^sup>* items0 items"
      "(case c of None \<Rightarrow> [] | Some d \<Rightarrow> d) = file_of items"
    using g by (auto simp: block_good_def file_of_Blank split: option.splits)
  have "\<exists>items'. ok_items items' \<and> block_change items items' \<and> d = file_of items'"
  proof (cases op)
    case (AddBlock k r dt)
    then have k: "k \<notin> set (item_keys items)" "d = file_of items @ block_entry r dt k"
      using e v i(3) contains_file_of_iff[OF i(1), of k] by (auto simp: Let_def split: if_splits)
    then have "d = file_of (add_item (r, dt, k) items)" "ok_items (add_item (r, dt, k) items)"
      using v AddBlock i(1) by (auto simp: block_file_of add_item_def ok_items_def)
    then show ?thesis using blocked_added[OF k(1)] by blast
  next
    case (RemoveBlock k)
    then have "d = file_of (del_item k items)"
      using e v i by (auto simp: unblock_file_of split: if_splits option.splits)
    moreover have "ok_items (del_item k items)"
      using i(1) blocked.inv_del[of items k] del_item_absent[of k items] by (cases "k \<in> set (item_keys items)") auto
    ultimately show ?thesis using blocked_removed by blast
  qed
  then show "block_good items0 (Some d)"
    using i(2) by (auto simp: block_good_def intro: rtranclp.rtrancl_into_rtrancl)
qed

lemma ListBlocked_ok:
  "blocked_state cfg items w \<Longrightarrow> os_fail os (OpRead (NginxBlockedKeysFile cfg)) (ext w) = None \<Longrightarrow>
     ListBlocked os cfg w = Inr (item_keys items)"
  by (auto simp: ListBlocked_def blocked_state_def read_file_def keys_of_file_of split: option.splits)

fun block_op_run :: "executor \<Rightarrow> 'x os \<Rightarrow> s3_config \<Rightarrow> block_op \<Rightarrow> 'x world \<Rightarrow> unit res \<times> 'x world" where
  "block_op_run e os cfg (AddBlock k reason date) w = BlockAccessKey e os cfg k reason w"
| "block_op_run e os cfg (RemoveBlock k) w = UnblockAccessKey e os cfg k w"

fun dated :: "'x os \<Rightarrow> 'x world \<Rightarrow> block_op \<Rightarrow> bool" where
  "dated os w (AddBlock k reason date) = (date = os_date os (ext w))"
| "dated os w (RemoveBlock k) = True"

lemma block_op_edit:
  assumes "os_fail os (OpRead (NginxBlockedKeysFile cfg)) (ext w) = None" "dated os w op"
  shows "fs (snd (block_op_run e os cfg op w)) =
    (case block_edit op (content (NginxBlockedKeysFile cfg) w) of
       None \<Rightarrow> fs w
     | Some d \<Rightarrow> fs (snd (atomic_write os (NginxBlockedKeysFile cfg) d 0x1A4 w)))"
  using assms
  by (cases op; cases "fs w (NginxBlockedKeysFile cfg)")
     (auto simp: BlockAccessKey_def UnblockAccessKey_def content_def read_file_def Let_def frame_simps
       split: sum.split prod.split)

subsection \<open>A process that is not interrupted\<close>

lemma aw_exec_step:
  "aw_rank ph \<noteq> 0 \<Longrightarrow> aw_step os path d perm (ph, w) = (ph', w') \<Longrightarrow>
     aw_exec os path d perm (ph, w) = aw_exec os path d perm (ph', w')"
  using aw_exec.simps[of os path d perm ph w] by (cases ph) (simp_all del: aw_step.simps)

lemma aw_step_not_start: "aw_step os path d perm (ph, w) = (ph', w') \<Longrightarrow> ph' \<noteq> AwStart \<or> ph = AwStart"
  by (cases ph) (auto simp: Let_def split: option.splits)

lemma finish_write:
  "tasks p = Writing ph d \<Longrightarrow> ph \<noteq> AwStart \<Longrightarrow> aw_exec os path d perm (ph, w) = (r, w') \<Longrightarrow>
     file_run os path perm edit (tasks, w) (tasks(p := Writing (AwDone r) d), w')"
proof (induction "aw_rank ph" arbitrary: ph tasks w rule: less_induct)
  case less
  show ?case
  proof (cases "aw_rank ph = 0")
    case True
    then obtain r' where "ph = AwDone r'" by (cases ph) auto
    then have "tasks(p := Writing (AwDone r) d) = tasks" "w' = w"
      using less.prems by (auto simp: aw_exec.simps)
    then show ?thesis by simp
  next
    case False
    obtain ph1 w1 where s: "aw_step os path d perm (ph, w) = (ph1, w1)" by fastforce
    have "aw_rank ph1 < aw_rank ph" using aw_step_rank[OF False] s by (metis fst_conv)
    moreover have "aw_exec os path d perm (ph1, w1) = (r, w')"
      using aw_exec_step[OF False s] less.prems(3) by simp
    moreover have "ph1 \<noteq> AwStart" using aw_step_not_start[OF s] less.prems(2) by blast
    ultimately have "file_run os path perm edit (tasks(p := Writing ph1 d), w1)
        ((tasks(p := Writing ph1 d))(p := Writing (AwDone r) d), w')"
      by (intro less.hyps) simp_all
    moreover have "file_step os path perm edit (tasks, w) (tasks(p := Writing ph1 d), w1)"
      using less.prems(1,2) s by (rule continue)
    ultimately show ?thesis by (simp add: converse_rtranclp_into_rtranclp)
  qed
qed

lemma solo_write:
  assumes "tasks p = Writing AwStart d" "temp_new os path tasks w" "atomic_write os path d perm w = (r, w')"
  shows "file_run os path perm edit (tasks, w) (tasks(p := Writing (AwDone r) d), w')"
proof -
  obtain ph1 w1 where s: "aw_step os path d perm (AwStart, w) = (ph1, w1)" by fastforce
  have "aw_exec os path d perm (ph1, w1) = (r, w')"
    using assms(3) aw_exec_step[OF _ s] by (simp add: atomic_write_def)
  moreover have "ph1 \<noteq> AwStart" using s by (auto simp: Let_def split: option.splits)
  ultimately have "file_run os path perm edit (tasks(p := Writing ph1 d), w1)
      ((tasks(p := Writing ph1 d))(p := Writing (AwDone r) d), w')"
    by (intro finish_write) simp_all
  moreover have "file_step os path perm edit (tasks, w) (tasks(p := Writing ph1 d), w1)"
    using assms(1,2) s by (rule create)
  ultimately show ?thesis by (simp add: converse_rtranclp_into_rtranclp)
qed

text \<open>Two creations that both read before either writes: the second replaces the first.\<close>

lemma two_creations:
  assumes "\<And>op x. os_fail os op x = None" "temp_fresh os (IAMFile cfg) w" "iam_state cfg f w"
    and "ok_identity (new_identity u1 s1)" "ok_identity (new_identity u2 s2)"
  shows "\<exists>d1 d2 w'. file_run os (IAMFile cfg) 0x1A0
      (\<lambda>first. iam_edit cfg (if first then AddUser u1 s1 else AddUser u2 s2)) (\<lambda>_. Reading, w)
      (\<lambda>first. Writing (AwDone (Inr ())) (if first then d1 else d2), w') \<and>
    iam_state cfg \<lparr>if_identities = Some (elems (if_identities f) @ [new_identity u2 s2])\<rparr> w'"
proof -
  let ?p = "IAMFile cfg"
  let ?edit = "\<lambda>first. iam_edit cfg (if first then AddUser u1 s1 else AddUser u2 s2)"
  let ?f = "\<lambda>u s. \<lparr>if_identities = Some (elems (if_identities f) @ [new_identity u s])\<rparr>"
  let ?d1 = "json_indent (enc_iam (?f u1 s1))" and ?d2 = "json_indent (enc_iam (?f u2 s2))"
  have e: "iam_edit cfg (AddUser u s) (content ?p w) = Some (json_indent (enc_iam (?f u s)))" for u s
    using assms(3) by (cases f) (simp add: iam_state_parse iam_edit_def slice_append_def)
  let ?t0 = "\<lambda>_::bool. Reading"
  let ?t1 = "?t0(True := Writing AwStart ?d1)"
  let ?t2 = "?t1(False := Writing AwStart ?d2)"
  have 1: "file_step os ?p 0x1A0 ?edit (?t0, w) (?t1, w)" using e assms(1) by (intro read) simp_all
  have 2: "file_step os ?p 0x1A0 ?edit (?t1, w) (?t2, w)" using e assms(1) by (intro read) simp_all
  obtain w1 where w1: "atomic_write os ?p ?d1 0x1A0 w = (Inr (), w1)"
    using atomic_write_succeeds[of os w ?p ?d1] assms(1) by (metis prod.collapse)
  have 3: "file_run os ?p 0x1A0 ?edit (?t2, w) (?t2(True := Writing (AwDone (Inr ())) ?d1), w1)"
    by (rule solo_write[OF _ _ w1]) (use assms(2) in \<open>simp_all add: temp_new_def\<close>)
  let ?t3 = "?t2(True := Writing (AwDone (Inr ())) ?d1)"
  obtain w2 where w2: "atomic_write os ?p ?d2 0x1A0 w1 = (Inr (), w2)"
    using atomic_write_succeeds[of os w1 ?p ?d2] assms(1) by (metis prod.collapse)
  have fresh: "temp_fresh os ?p w1" by (rule temp_fresh_after[OF assms(2) w1])
  have 4: "file_run os ?p 0x1A0 ?edit (?t3, w1) (?t3(False := Writing (AwDone (Inr ())) ?d2), w2)"
    by (rule solo_write[OF _ _ w2]) (use fresh in \<open>simp_all add: temp_new_def\<close>)
  have t: "?t3(False := Writing (AwDone (Inr ())) ?d2)
      = (\<lambda>first. Writing (AwDone (Inr ())) (if first then ?d1 else ?d2))"
    by (rule HOL.ext) simp
  have run: "file_run os ?p 0x1A0 ?edit (?t0, w) (?t3(False := Writing (AwDone (Inr ())) ?d2), w2)"
    using 1 2 3 4 by (meson converse_rtranclp_into_rtranclp rtranclp_trans)
  obtain n where "fs w2 ?p = Some n" "f_data n = ?d2"
    using atomic_write_data[OF temp_fresh_apart[OF fresh] w2 refl] by blast
  moreover have "ok_iam (?f u2 s2)" using assms(3,5) by (auto simp: iam_state_def ok_iam_def)
  ultimately have "iam_state cfg (?f u2 s2) w2" by (simp add: iam_state_def unmarshal_iam)
  with run[unfolded t] show ?thesis by blast
qed

subsection \<open>Properties\<close>

text \<open>
  C17. The edits are the code's: where the file can be read, a create, delete or ensure-admin, a block or an
  unblock leaves the files as its edit of the content followed by atomicWrite leaves them, and untouched where
  the edit makes nothing.
\<close>

theorem operations_are_edits:
  assumes "os_fail os (OpRead (IAMFile cfg)) (ext w) = None"
    and "os_fail os (OpRead (NginxBlockedKeysFile cfg)) (ext w) = None" "dated os w bop"
  shows "fs (snd (iam_op_run e os cfg op w)) =
      (case iam_edit cfg op (content (IAMFile cfg) w) of
         None \<Rightarrow> fs w
       | Some d \<Rightarrow> fs (snd (atomic_write os (IAMFile cfg) d 0x1A0 w))) \<and>
    fs (snd (block_op_run e os cfg bop w)) =
      (case block_edit bop (content (NginxBlockedKeysFile cfg) w) of
         None \<Rightarrow> fs w
       | Some d \<Rightarrow> fs (snd (atomic_write os (NginxBlockedKeysFile cfg) d 0x1A4 w)))"
  using iam_op_edit[OF assms(1)] block_op_edit[OF assms(2,3)] by blast

text \<open>
  C7. However the agent and any number of s3dctl processes interleave their system calls on the identities
  file, a reader finds at every moment a complete file that parses, and its identities are the result of
  some sequence of whole additions and removals on the initial ones.
\<close>

theorem shared_identities:
  assumes "file_run os (IAMFile cfg) 0x1A0 (\<lambda>p. iam_edit cfg (ops p)) (\<lambda>_. Reading, w) (tasks, w')"
    and "iam_state cfg f w" "\<And>p. iam_op_valid cfg (ops p)"
  shows "\<exists>f'. iam_state cfg f' w' \<and> iam_evolves cfg (elems (if_identities f)) (elems (if_identities f'))"
proof -
  have "iam_good cfg (elems (if_identities f)) (content (IAMFile cfg) w)"
    using assms(2) by (auto simp: iam_good_def iam_state_parse)
  from shared_iam.file_run_good[OF assms(1) this assms(3)] show ?thesis
    by (auto simp: iam_good_def iam_state_parse)
qed


text \<open>
  C18. But without a lock an update can be lost: two processes that both create a user can both succeed, and
  the file then has only the second one.
\<close>

theorem update_lost:
  assumes "\<And>op x. os_fail os op x = None" "temp_fresh os (IAMFile cfg) w" "iam_state cfg f w"
    and "ok_identity (new_identity u1 s1)" "ok_identity (new_identity u2 s2)"
  shows "\<exists>d1 d2 w'. file_run os (IAMFile cfg) 0x1A0
      (\<lambda>first. iam_edit cfg (if first then AddUser u1 s1 else AddUser u2 s2)) (\<lambda>_. Reading, w)
      (\<lambda>first. Writing (AwDone (Inr ())) (if first then d1 else d2), w') \<and>
    iam_state cfg \<lparr>if_identities = Some (elems (if_identities f) @ [new_identity u2 s2])\<rparr> w'"
  by (rule two_creations[OF assms])

subsection \<open>Examples\<close>

definition second_user :: iam_user where
  "second_user = sample_user\<lparr>iu_name := ''bob'', iu_access_key := ''AK2''\<rparr>"

lemma second_identity_ok: "ok_identity (new_identity second_user ''SK2'')"
  by code_simp

definition sample_creations :: "bool \<Rightarrow> iam_op" where
  "sample_creations first = (if first then AddUser sample_user ''SK1'' else AddUser second_user ''SK2'')"

lemma sample_creations_edit:
  "(\<lambda>p. iam_edit cfg (sample_creations p))
     = (\<lambda>first. iam_edit cfg (if first then AddUser sample_user ''SK1'' else AddUser second_user ''SK2''))"
  by (rule HOL.ext) (simp add: sample_creations_def)

theorem shared_identities_witness:
  "\<exists>tasks w' f'. file_run calm_os (IAMFile sample_config) 0x1A0 (\<lambda>p. iam_edit sample_config (sample_creations p))
       (\<lambda>_. Reading, no_files) (tasks, w') \<and> (\<forall>p. \<exists>d. tasks p = Writing (AwDone (Inr ())) d) \<and>
     iam_state sample_config f' w' \<and> iam_evolves sample_config [] (elems (if_identities f'))"
proof -
  obtain d1 d2 w' where r: "file_run calm_os (IAMFile sample_config) 0x1A0
      (\<lambda>p. iam_edit sample_config (sample_creations p)) (\<lambda>_. Reading, no_files)
      (\<lambda>first. Writing (AwDone (Inr ())) (if first then d1 else d2), w')"
    using two_creations[OF calm_reads sample_iam_fresh(1) no_files_state sample_identity_ok(1) second_identity_ok]
    unfolding sample_creations_edit by blast
  have "\<And>p. iam_op_valid sample_config (sample_creations p)"
    using sample_identity_ok(1) second_identity_ok by (simp add: sample_creations_def)
  from shared_identities[OF r no_files_state this] r show ?thesis by (fastforce simp: empty_iam_def)
qed

theorem operations_are_edits_witness:
  "fs (snd (CreateIAMUser New_Executor calm_os sample_config sample_user ''SK1'' no_files))
     = fs (snd (atomic_write calm_os (IAMFile sample_config) (json_indent (enc_iam sample_iam)) 0x1A0 no_files)) \<and>
   fs (snd (UnblockAccessKey New_Executor calm_os sample_config ''AK1'' no_files)) = fs no_files"
proof -
  have c: "content (IAMFile sample_config) no_files = None" "content (NginxBlockedKeysFile sample_config) no_files = None"
    by (simp_all add: content_def no_files_def)
  have "iam_edit sample_config (AddUser sample_user ''SK1'') None = Some (json_indent (enc_iam sample_iam))"
    by (simp add: iam_edit_def parse_iam_def empty_iam_def slice_append_def sample_iam_def)
  moreover have "block_edit (RemoveBlock ''AK1'') None = None" by simp
  ultimately show ?thesis
    using operations_are_edits[OF calm_reads calm_reads, of no_files "RemoveBlock ''AK1''" New_Executor sample_config
      "AddUser sample_user ''SK1''"]
    unfolding c by simp
qed

theorem update_lost_witness:
  "\<exists>d1 d2 w'. file_run calm_os (IAMFile sample_config) 0x1A0
      (\<lambda>first. iam_edit sample_config (if first then AddUser sample_user ''SK1'' else AddUser second_user ''SK2''))
      (\<lambda>_. Reading, no_files) (\<lambda>first. Writing (AwDone (Inr ())) (if first then d1 else d2), w') \<and>
    iam_state sample_config \<lparr>if_identities = Some [new_identity second_user ''SK2'']\<rparr> w'"
  using update_lost[OF calm_reads sample_iam_fresh(1) no_files_state sample_identity_ok(1) second_identity_ok]
  by (simp add: empty_iam_def)


end
