(* ===== verification/Session.thy ===== *)
theory Session
  imports Dispatcher
begin

section \<open>Commands on the wire\<close>

text \<open>
  What a caller sees who sends commands and reads the answers: the way of one command from its bytes through
  the subscription, the gate, the parameters and the handler to the bytes of the answer, for commands that
  complete. The lemmas compose the components; the property follows a key that is blocked to the list that
  shows it.
\<close>

text \<open>
  A message log kept by the connection: \<open>msgs x\<close> are the publications up to outside state \<open>x\<close>, each with its
  subject and bytes; drawing random bytes does not publish.
\<close>

definition records :: "'x link \<Rightarrow> ('x \<Rightarrow> (string \<times> string) list) \<Rightarrow> bool" where
  "records lk msgs \<longleftrightarrow>
     (\<forall>subject d x. msgs (snd (lk_publish lk subject d x)) = msgs x @ [(subject, d)]) \<and>
     (\<forall>x. msgs (snd (lk_random lk x)) = msgs x)"

definition reply_subject :: "'x env \<Rightarrow> envelope \<Rightarrow> string" where
  "reply_subject env src = (if en_reply_to src \<noteq> [] then en_reply_to src else EvtSubject (ge_client env))"

definition wire :: "envelope \<Rightarrow> string" where
  "wire e = json_compact (enc_envelope e)"

lemma PublishToSubject_records:
  "records lk msgs \<Longrightarrow>
     msgs (ext (snd (PublishToSubject lk subject e w))) = msgs (ext w) @ [(subject, wire e)]"
  by (simp add: PublishToSubject_def records_def wire_def split: prod.split option.split) (metis snd_conv)

lemma PublishToSubject_keeps_fs: "fs (snd (PublishToSubject lk subject e w)) = fs w"
  by (simp add: PublishToSubject_def split: prod.split option.split)

text \<open>The answer to a completed command, with its output.\<close>

definition completed_with :: "envelope \<Rightarrow> json \<Rightarrow> envelope \<Rightarrow> bool" where
  "completed_with src out e \<longleftrightarrow> en_v e = 1 \<and> en_type e = ''result'' \<and>
     en_payload e = Some (JObj [(''command_id'', JStr (en_id src)), (''status'', JStr ''completed''), (''output'', out)])"

lemma ok_answer_completed:
  "\<exists>e. ok_answer env src out s = (e, after_random env s) \<and> completed_with src out e"
  by (auto simp: ok_answer_def answer_def ResultFor_def New_def enc_result_def completed_with_def omit_empty_def Let_def
      split: prod.splits)

lemma handle_completes:
  assumes "records (ge_link env) msgs" "sendable src" "en_v src = 1"
    and "DecodePayload dec_command zero_command src = Inr cmd" "cp_operation cmd \<in> set (AllowedOperations (ge_agent env))"
    and "cp_operation cmd \<noteq> ''full_sync''" "decode_params (cp_params cmd) = Inr p"
    and "run env (cp_operation cmd) p s = Some (Inr out, s1)"
  shows "\<exists>s' e. handle_message env (wire src) s = Some s' \<and> fs (ag_world s') = fs (ag_world s1) \<and>
    completed_with src out e \<and> msgs (ext (ag_world s')) = msgs (ext (ag_world s1)) @ [(reply_subject env src, wire e)]"
proof -
  obtain e where e: "ok_answer env src out s1 = (e, after_random env s1)" "completed_with src out e"
    using ok_answer_completed by blast
  have d: "Dispatch env src s = Some (e, after_random env s1)"
    using assms(4-8) e(1) by (simp add: Dispatch_def conclude_def)
  have r: "received (wire src) = Some src" unfolding wire_def using assms(2,3) by (rule received_published)
  have "msgs (snd (lk_random (ge_link env) (ext (ag_world s1)))) = msgs (ext (ag_world s1))"
    using assms(1) by (simp add: records_def)
  then show ?thesis
    using r d e(2) PublishToSubject_records[OF assms(1)]
    by (auto simp: handle_message_def reply_subject_def Let_def PublishToSubject_keeps_fs)
qed

text \<open>A command as a caller builds it.\<close>

definition command :: "string \<Rightarrow> string \<Rightarrow> string \<Rightarrow> (string \<times> string) list \<Rightarrow> envelope" where
  "command ident reply op ps =
     \<lparr>en_v = 1, en_id = ident, en_type = ''command'', en_agent_type = ''storage'', en_agent_uuid = [],
      en_timestamp = 0, en_reply_to = reply,
      en_payload = Some (JObj [(''operation'', JStr op), (''params'', str_map ps)])\<rparr>"

definition text_ok :: "string list \<Rightarrow> bool" where
  "text_ok ss \<longleftrightarrow> (\<forall>s \<in> set ss. valid_utf8 s)"

lemma command_sendable:
  assumes "text_ok (ident # reply # op # map fst ps @ map snd ps)"
  shows "sendable (command ident reply op ps)" "en_v (command ident reply op ps) = 1"
proof -
  have "wf_json (str_map ps)" using assms by (force simp: str_map_def text_ok_def)
  moreover have "depth (str_map ps) \<le> 1"
  proof -
    have "foldr max (map (\<lambda>(k, v). depth v) (map (\<lambda>(k, v). (k, JStr v)) ps)) 0 = (0::nat)"
      by (induction ps) auto
    then show ?thesis by (simp add: str_map_def)
  qed
  ultimately show "sendable (command ident reply op ps)"
    using assms by (simp add: sendable_def command_def text_ok_def valid_utf8_ascii max_depth_def)
  show "en_v (command ident reply op ps) = 1" by (simp add: command_def)
qed

lemma command_decodes:
  "DecodePayload dec_command zero_command (command ident reply op ps)
     = Inr \<lparr>cp_operation = op, cp_params = Some (str_map ps), cp_timeout_s = 0\<rparr>"
  by (simp add: command_def DecodePayload_def unmarshal_raw_def dec_command_def dec_raw_message_def field_def
      find_field_def zero_command_def)

lemma command_completes:
  assumes "records (ge_link env) msgs" "text_ok (ident # reply # op # map fst ps @ map snd ps)"
    and "op \<in> set (AllowedOperations (ge_agent env))" "op \<noteq> ''full_sync''"
    and "decode_params (Some (str_map ps)) = Inr p" "run env op p s = Some (Inr out, s1)"
  shows "\<exists>s' e. handle_message env (wire (command ident reply op ps)) s = Some s' \<and>
    fs (ag_world s') = fs (ag_world s1) \<and> completed_with (command ident reply op ps) out e \<and>
    msgs (ext (ag_world s')) = msgs (ext (ag_world s1)) @ [(reply_subject env (command ident reply op ps), wire e)]"
  by (rule handle_completes[OF assms(1) command_sendable[OF assms(2)] command_decodes, where p = p])
     (use assms(3-6) in simp_all)

lemma command_params_none: "decode_params (Some (str_map [])) = Inr zero_params"
  by (simp add: decode_params_def emptyParams_def str_map_def)

lemma command_params_block:
  "decode_params (Some (str_map [(''access_key'', k), (''reason'', r)]))
     = Inr (zero_params\<lparr>p_access_key := k, p_reason := r\<rparr>)"
  by (simp add: decode_params_def emptyParams_def str_map_def unmarshal_raw_def dec_params_def field_def find_field_def)

subsection \<open>Blocking a key and listing it\<close>

definition block_command :: "string \<Rightarrow> string \<Rightarrow> string \<Rightarrow> string \<Rightarrow> envelope" where
  "block_command ident reply k reason =
     command ident reply ''s3.customer.block'' [(''access_key'', k), (''reason'', reason)]"

definition list_command :: "string \<Rightarrow> string \<Rightarrow> envelope" where
  "list_command ident reply = command ident reply ''s3.blocked.list'' []"

text \<open>The circumstances in which both commands succeed.\<close>

definition block_calm :: "'x env \<Rightarrow> 'x world \<Rightarrow> bool" where
  "block_calm env w \<longleftrightarrow> (\<forall>op x. os_fail (ge_os env) op x = None) \<and>
     (\<forall>c as x. ro_error (fst (os_exec (ge_os env) c as x)) = None) \<and>
     temp_fresh (ge_os env) (NginxBlockedKeysFile (ge_s3 env)) w \<and> plain (os_date (ge_os env) (ext w)) \<and>
     {''s3.customer.block'', ''s3.blocked.list''} \<subseteq> set (AllowedOperations (ge_agent env))"

lemma ListBlocked_items:
  "blocked_state cfg items w \<Longrightarrow> os_fail os (OpRead (NginxBlockedKeysFile cfg)) (ext w) = None \<Longrightarrow>
     ListBlocked os cfg w = Inr (item_keys items)"
  by (auto simp: ListBlocked_def blocked_state_def read_file_def keys_of_file_of split: option.splits)

lemma run_block:
  assumes "block_calm env (ag_world s)" "blocked_state (ge_s3 env) items (ag_world s)"
    and "plain k" "k \<noteq> quota_text" "k \<noteq> []" "plain reason"
  shows "\<exists>out s1. run env ''s3.customer.block'' (zero_params\<lparr>p_access_key := k, p_reason := reason\<rparr>) s = Some (Inr out, s1) \<and>
    (\<exists>items'. k \<in> set (item_keys items') \<and> blocked_state (ge_s3 env) items' (ag_world s1))"
proof -
  let ?os = "ge_os env" and ?w = "ag_world s"
  obtain w1 where b: "BlockAccessKey (ge_exec env) ?os (ge_s3 env) k reason ?w = (Inr (), w1)"
    using BlockAccessKey_succeeds[of ?os k "ge_exec env" "ge_s3 env" reason ?w] assms(1,5)
    by (metis block_calm_def prod.collapse)
  have st: "blocked_state (ge_s3 env) (add_item (reason, os_date ?os (ext ?w), k) items) w1"
    using BlockAccessKey_state[OF _ assms(2-4,6) _ b] assms(1) by (auto simp: block_calm_def)
  have "k \<in> set (item_keys (add_item (reason, os_date ?os (ext ?w), k) items))"
    by (simp add: add_item_def)
  then show ?thesis
    using b st by (auto simp: run_def run_table_def h_block_def on_manager_def on_world_def)
qed

lemma run_blocked_list:
  assumes "\<And>op x. os_fail (ge_os env) op x = None" "blocked_state (ge_s3 env) items (ag_world s)"
  shows "run env ''s3.blocked.list'' p s = Some (Inr (enc_appended JStr (item_keys items)), s)"
  using ListBlocked_items[OF assms(2)] assms(1)
  by (simp add: run_def run_table_def h_blocked_list_def on_world_def)

text \<open>
  C8. From the wire to the wire: a command that blocks a key completes, and the answer to a command that
  lists the blocked keys after it is the last message on its reply subject and carries the key.
\<close>

theorem blocked_key_is_listed:
  assumes "records (ge_link env) msgs" "block_calm env (ag_world s)" "blocked_state (ge_s3 env) items (ag_world s)"
    and "plain k" "k \<noteq> quota_text" "k \<noteq> []" "plain reason" "text_ok [i1, r1, i2, r2, k, reason]"
  shows "\<exists>s1 s2 out1 e1 ks e2.
    handle_message env (wire (block_command i1 r1 k reason)) s = Some s1 \<and>
    completed_with (block_command i1 r1 k reason) out1 e1 \<and>
    last (msgs (ext (ag_world s1))) = (reply_subject env (block_command i1 r1 k reason), wire e1) \<and>
    handle_message env (wire (list_command i2 r2)) s1 = Some s2 \<and>
    k \<in> set ks \<and> completed_with (list_command i2 r2) (JArr (map JStr ks)) e2 \<and>
    msgs (ext (ag_world s2)) = msgs (ext (ag_world s1)) @ [(reply_subject env (list_command i2 r2), wire e2)]"
proof -
  let ?b = "block_command i1 r1 k reason" and ?l = "list_command i2 r2"
  have nf: "\<And>op x. os_fail (ge_os env) op x = None" using assms(2) by (simp add: block_calm_def)
  have ops: "''s3.customer.block'' \<in> set (AllowedOperations (ge_agent env))"
      "''s3.blocked.list'' \<in> set (AllowedOperations (ge_agent env))"
    using assms(2) by (simp_all add: block_calm_def)
  have tb: "text_ok (i1 # r1 # ''s3.customer.block'' # map fst [(''access_key'', k), (''reason'', reason)]
        @ map snd [(''access_key'', k), (''reason'', reason)])"
    and tl: "text_ok (i2 # r2 # ''s3.blocked.list'' # map fst ([] :: (string \<times> string) list) @ map snd ([] :: (string \<times> string) list))"
    using assms(8) by (simp_all add: text_ok_def valid_utf8_ascii)
  obtain out s0 items' where b: "run env ''s3.customer.block'' (zero_params\<lparr>p_access_key := k, p_reason := reason\<rparr>) s
      = Some (Inr out, s0)" "k \<in> set (item_keys items')" "blocked_state (ge_s3 env) items' (ag_world s0)"
    using run_block[OF assms(2,3,4,5,6,7)] by blast
  obtain s1 e1 where s1: "handle_message env (wire ?b) s = Some s1" "fs (ag_world s1) = fs (ag_world s0)"
      "completed_with ?b out e1" "msgs (ext (ag_world s1)) = msgs (ext (ag_world s0)) @ [(reply_subject env ?b, wire e1)]"
    using command_completes[OF assms(1) tb ops(1) _ command_params_block b(1)] by (auto simp: block_command_def)
  have st: "blocked_state (ge_s3 env) items' (ag_world s1)"
    using b(3) blocked_state_cong[of "ag_world s1" "ge_s3 env" "ag_world s0" items'] s1(2) by simp
  have out2: "enc_appended JStr (item_keys items') = JArr (map JStr (item_keys items'))"
    using b(2) by (auto simp: enc_appended_def)
  obtain s2 e2 where "handle_message env (wire ?l) s1 = Some s2"
      "completed_with ?l (JArr (map JStr (item_keys items'))) e2"
      "msgs (ext (ag_world s2)) = msgs (ext (ag_world s1)) @ [(reply_subject env ?l, wire e2)]"
    using command_completes[OF assms(1) tl ops(2) _ command_params_none run_blocked_list[OF nf st]] out2
    by (auto simp: list_command_def)
  then show ?thesis using s1 b(2) by fastforce
qed

subsection \<open>A full synchronisation\<close>

lemma full_sync_completes:
  assumes "sendable src" "en_v src = 1" "DecodePayload dec_command zero_command src = Inr cmd"
    and "cp_operation cmd = ''full_sync''" "''full_sync'' \<in> set (AllowedOperations (ge_agent env))"
    and "runFullSync env (cp_params cmd) s = Some (Inr out, s1)"
  shows "\<exists>e. completed_with src out e \<and> Dispatch env src s = Some (e, after_random env s1) \<and>
    handle_message env (wire src) s = Some (after_random env s1\<lparr>ag_world :=
      snd (PublishToSubject (ge_link env) (reply_subject env src) e (ag_world (after_random env s1)))\<rparr>)"
proof -
  obtain e where e: "ok_answer env src out s1 = (e, after_random env s1)" "completed_with src out e"
    using ok_answer_completed by blast
  have d: "Dispatch env src s = Some (e, after_random env s1)"
    using assms(3-6) e(1) by (simp add: Dispatch_def conclude_def)
  have r: "received (wire src) = Some src" unfolding wire_def using assms(1,2) by (rule received_published)
  show ?thesis using r d e(2) by (auto simp: handle_message_def reply_subject_def Let_def)
qed


subsection \<open>Examples\<close>

definition logging_link :: "(string \<times> string) list link" where
  "logging_link = sample_link\<lparr>lk_publish := (\<lambda>subject d x. (None, x @ [(subject, d)]))\<rparr>"

definition logging_env :: "(string \<times> string) list env" where
  "logging_env = (sample_env calm_os)\<lparr>ge_link := logging_link\<rparr>"

definition quiet_world :: "(string \<times> string) list world" where
  "quiet_world = \<lparr>fs = (\<lambda>p. None), ext = []\<rparr>"

lemma logging_records: "records (ge_link logging_env) (\<lambda>x. x)"
  by (simp add: records_def logging_env_def logging_link_def sample_link_def)

theorem blocked_key_is_listed_witness:
  "\<exists>s1 s2 ks e1 e2.
    handle_message logging_env (wire (block_command ''c1'' ''_INBOX.1'' ''AK1'' ''quota'')) (sample_agent quiet_world) = Some s1 \<and>
    handle_message logging_env (wire (list_command ''c2'' ''_INBOX.2'')) s1 = Some s2 \<and>
    ''AK1'' \<in> set ks \<and> completed_with (list_command ''c2'' ''_INBOX.2'') (JArr (map JStr ks)) e2 \<and>
    last (ext (ag_world s1)) = (''_INBOX.1'', wire e1) \<and>
    ext (ag_world s2) = ext (ag_world s1) @ [(''_INBOX.2'', wire e2)]"
proof -
  have c: "block_calm logging_env (ag_world (sample_agent quiet_world))"
    by (simp add: block_calm_def logging_env_def sample_env_def sample_agent_def quiet_world_def temp_fresh_def
        temp_name_def setDefaults_def default_operations_def sample_config_def path_dir_def calm_os_def plain_def)
  have b: "blocked_state (ge_s3 logging_env) [Blank] (ag_world (sample_agent quiet_world))"
    by (simp add: blocked_state_def ok_items_def quiet_world_def sample_agent_def)
  have t: "text_ok [''c1'', ''_INBOX.1'', ''c2'', ''_INBOX.2'', ''AK1'', ''quota'']" by code_simp
  have k: "plain ''AK1''" "''AK1'' \<noteq> quota_text" "''AK1'' \<noteq> []" "plain ''quota''"
    by (simp_all add: plain_def quota_text_def)
  have r: "reply_subject logging_env (block_command ''c1'' ''_INBOX.1'' ''AK1'' ''quota'') = ''_INBOX.1''"
      "reply_subject logging_env (list_command ''c2'' ''_INBOX.2'') = ''_INBOX.2''"
    by (simp_all add: reply_subject_def block_command_def list_command_def command_def)
  show ?thesis using blocked_key_is_listed[OF logging_records c b k t] unfolding r by fastforce
qed

definition sync_command :: envelope where
  "sync_command = sample_command\<lparr>en_payload := Some (JObj [(''operation'', JStr ''full_sync''),
     (''params'', JObj [(''buckets'', JArr [JObj [(''name'', JStr ''b1'')]]),
       (''iam_users'', JArr [JObj [(''name'', JStr ''alice''), (''access_key'', JStr ''AK1''),
                                   (''secret_key'', JStr ''SK1'')]])])])\<rparr>"

definition sync_payload :: full_sync_payload where
  "sync_payload = \<lparr>fsp_buckets = [zero_bucket\<lparr>bs_name := ''b1''\<rparr>],
     fsp_iam_users = [zero_user\<lparr>iu_name := ''alice'', iu_access_key := ''AK1'', iu_secret_key := ''SK1''\<rparr>]\<rparr>"


end
