(* ===== verification/Spec2Isabelle.thy ===== *)
theory Spec2Isabelle
  imports Lifecycle Ctl Concurrent Session
begin

text \<open>
  A model of the PlusClouds S3 storage agent (\<^verbatim>\<open>s3d\<close>) and its command line (\<^verbatim>\<open>s3dctl\<close>), translated from
  the Go sources under \<^verbatim>\<open>src/\<close>, with the theorems that make its parts correct.

  \<^bold>\<open>The program.\<close> The agent runs next to a SeaweedFS cluster with an S3 gateway behind Nginx. It takes its
  identity from the configuration or a config drive, connects to NATS, announces its capabilities, and then
  reacts: to commands, which it gates, executes and answers; to tickers, on which it sends heartbeats,
  system metrics and storage telemetry; to changes of the cluster, which it reports at once; and to lines of
  the Nginx logs, from which it counts traffic and forwards audit events. Commands manage three stores: the
  identities of the gateway's IAM file, the Nginx include file of blocked access keys, and the buckets
  behind the gateway. The command line offers part of this on the local machine without NATS.

  \<^bold>\<open>Theories and sources.\<close>
  \<^item> Prelude, GoStrings: errors as values, results, machine integers, strings as bytes; what the code uses of
    \<^verbatim>\<open>strings\<close>, \<^verbatim>\<open>strconv\<close> and \<^verbatim>\<open>path\<close>. Float64: float64 as the rationals it stands for, with rounding.
  \<^item> Json, JsonText, JsonParse, JsonDecode: \<^verbatim>\<open>encoding/json\<close>, from the lexer to decoding into structs; the
    lemmas give the round trip of printed values. JsonWf: whatever bytes are parsed, the tree is well formed
    and its strings are valid UTF-8, and decoders keep that.
  \<^item> GoOs: the outside world, and \<^verbatim>\<open>atomicWrite\<close> (\<^verbatim>\<open>internal/modules/s3/manager.go\<close>) as a machine of one system
    call per phase, whose invariant is that a reader finds the old file or the complete new one.
  \<^item> Executor (\<^verbatim>\<open>internal/executor\<close>), Config (\<^verbatim>\<open>internal/config\<close>), IsoConfig (\<^verbatim>\<open>pkg/isoconfig\<close>).
  \<^item> S3Types (\<^verbatim>\<open>internal/modules/s3/types.go\<close>); NamedStore: the contract of a store of named things, which the
    identities, the blocked keys and the buckets interpret.
  \<^item> Blocklist, Iam, Gateway, Reconcile: \<^verbatim>\<open>internal/modules/s3/manager.go\<close> and \<^verbatim>\<open>signer.go\<close>. Each operation on a
    file refines an operation on the abstract store; requests are specified by the list of what is sent;
    reconciliation converges and is idempotent.
  \<^item> LogTail, Observer: \<^verbatim>\<open>internal/modules/s3/observer.go\<close>: the two log tailers, the component polls, the bucket
    statistics and the change detection.
  \<^item> Services (\<^verbatim>\<open>internal/modules/services\<close>): both platforms behind one locale, and the manager chosen at start.
  \<^item> System (\<^verbatim>\<open>internal/modules/system\<close>): the metrics, with the state that disk rates are computed from.
  \<^item> Protocol (\<^verbatim>\<open>internal/protocol\<close>, \<^verbatim>\<open>internal/nats\<close>), Encode (the JSON of the payloads), Publisher
    (\<^verbatim>\<open>internal/publisher\<close>): the events and loops; the interval channel and the audit pipeline are step
    relations with invariants over all interleavings.
  \<^item> Dispatcher (\<^verbatim>\<open>internal/dispatcher\<close>): one handler per operation, the table of \<^verbatim>\<open>run\<close>, the gate, the answers.
  \<^item> Session: a command from its bytes to the bytes of its answer, two commands in a row, and a full
    synchronisation from its payload to the stores.
  \<^item> Agent (\<^verbatim>\<open>cmd/agent\<close>): the start. Frame: which files each operation can change. Guarantee: the locale
    \<open>world_guarantee\<close>, a relation between worlds that the file operations keep, from which every handler keeps
    it; its instances are the frame and, in IamLife, the evolution of the identities. Lifecycle: the running
    agent as a machine over messages and ticks, with an invariant for each guarantee.
  \<^item> Concurrent: the agent and control processes on one file, interleaved system call by system call. The
    locale \<open>shared_file\<close> is instantiated for the identities and for the block list.
  \<^item> Ctl (\<^verbatim>\<open>cmd/ctl\<close>, \<^verbatim>\<open>pkg/cmdutil\<close>): the command line and its output helpers.

  \<^bold>\<open>State.\<close> The agent's own state is small and explicit: the module state of the metrics, the two log offsets,
  the interval channel, the last desired state and, per loop, its local variables. Everything else is the
  record \<open>world\<close>: the file system, which the agent's code reads and replaces, and \<open>ext\<close>, which only the
  parameters look into. A Go panic is the value \<open>None\<close> of the operation that can panic; an error is a value
  with its wrapping.

  \<^bold>\<open>Parameters.\<close> Code that is not in the repository is an argument: the operating system, HTTP and the hash
  functions (\<open>os\<close>), NATS, the random source and the rendering of floats, times and quoted strings (\<open>link\<close>),
  gopsutil (\<open>gops\<close>), the systemd connection (\<open>bus\<close>), viper, the YAML reader, zap's level names. What a theorem
  relies on of them is a hypothesis of that theorem, such as that the gateway lists what was put
  (\<open>gateway_spec\<close>) or that a temporary name is new (\<open>temp_fresh\<close>, among several processes \<open>temp_new\<close>).

  \<^bold>\<open>Termination.\<close> There is no fuel. Loops over data are structural or have a measure; the endless loops are the
  sequences of their turns: polls and ticks are list arguments, and \<open>daemon_run\<close> takes the events in the order
  they happen. Lifecycle takes every handler as one step; where handlers of different goroutines interleave
  on a channel, the step relations of Publisher take one channel operation as a step, and where processes
  share a file, the step relation of Concurrent takes one system call as a step.

  \<^bold>\<open>Not modelled.\<close> Log output; flag parsing by cobra; timeouts of contexts (an expired one is an error of the
  call it is passed to); the waiting for a signal and the draining of the connection; programs other than the
  agent and \<^verbatim>\<open>s3dctl\<close> that write the same files; the order in which concurrent processes restart services;
  the raw bytes of a JSON message as opposed to its value; NaN and infinities; the auto-heal section of the
  configuration, which nothing reads.
\<close>

section \<open>Properties of the agent as a whole\<close>


text \<open>
  C6. From its start on, through any sequence of messages and ticks, failed writes included, the identities
  file parses, and what it holds came from the initial list by adding whole new identities and removing all
  identities of a name.
\<close>

theorem identities_survive:
  assumes "agent_run vp le yaml windows conn os lk gp f w = (Inr (env, s), w')"
    and "daemon_run env evs (daemon_init env s) = Some d"
    and "iam_apart os (ge_s3 env)" "ok_identity (admin_identity (ge_s3 env))" "iam_state (ge_s3 env) f0 w"
  shows "\<exists>f'. iam_state (ge_s3 env) f' (ag_world (dm_agent d)) \<and>
    iam_evolves (ge_s3 env) (elems (if_identities f0)) (elems (if_identities f'))"
proof -
  have "daemon_inv iam_keeps env w d"
    by (rule identities.daemon_run_inv[OF assms(2) agent_run_iam_inv[OF assms(1,4)]])
  then have "iam_keeps (ge_os env) (ge_s3 env) w (ag_world (dm_agent d))" by (simp add: daemon_inv_def)
  moreover have "ge_os env = os" using agent_run_start[OF assms(1)] by blast
  ultimately show ?thesis using iam_keepsD assms(3,5) by blast
qed


subsection \<open>Request and reply on the wire\<close>


subsection \<open>Examples\<close>


theorem identities_survive_witness:
  "\<exists>env s w' d f'. agent_run stock_viper stock_log (\<lambda>d. Inl []) True (Inl []) calm_os sample_link no_gops [] (one_file ''f'' [])
     = (Inr (env, s), w') \<and> daemon_run env (replicate 3 HeartbeatTick) (daemon_init env s) = Some d \<and>
     iam_state default_s3 f' (ag_world (dm_agent d)) \<and> iam_evolves default_s3 [] (elems (if_identities f'))"
proof -
  obtain env s w' where r: "agent_run stock_viper stock_log (\<lambda>d. Inl []) True (Inl []) calm_os sample_link no_gops []
      (one_file ''f'' []) = (Inr (env, s), w')" and c: "ge_s3 env = default_s3"
    using stock_run by blast
  obtain d where d: "daemon_run env (replicate 3 HeartbeatTick) (daemon_init env s) = Some d"
    by (simp add: eval_nat_numeral daemon_step_def)
  have k: "ok_identity (admin_identity (ge_s3 env))" unfolding c by code_simp
  have i: "iam_state (ge_s3 env) empty_iam (one_file ''f'' [])"
    by (simp add: c iam_state_def ok_iam_def empty_iam_def one_file_def default_s3_def)
  have a: "iam_apart calm_os (ge_s3 env)" unfolding c by (rule iam_apart_default)
  show ?thesis using identities_survive[OF r d a k i] r d unfolding c by (auto simp: empty_iam_def)
qed



end
